(* ===== verification/UB_Prelude.thy ===== *)
theory UB_Prelude
  imports Main "HOL-Library.Word" "HOL-Library.AList" "HOL-Library.Monad_Syntax"
begin

text \<open>
  The prelude of the development: names for the Rust integer types, the
  \<^verbatim>\<open>Result\<close> type with its \<^verbatim>\<open>?\<close> operator, checked and saturating machine arithmetic,
  big-endian byte strings, and the two map types of the Rust standard library that
  the components use (\<^verbatim>\<open>HashMap\<close> as an association list with distinct keys,
  \<^verbatim>\<open>BTreeMap\<close> as an association list sorted by key).
  Nothing here models code of the repository; it models what the repository uses of
  the language and its standard library.
\<close>

section \<open>Integer types and rule collections\<close>

type_synonym u8 = "8 word"
type_synonym u16 = "16 word"
type_synonym u32 = "32 word"
type_synonym u64 = "64 word"
type_synonym u128 = "128 word"
type_synonym u256 = "256 word"

text \<open>
  \<^verbatim>\<open>H256\<close> and \<^verbatim>\<open>[u8; N]\<close> are fixed arrays of bytes: a value is the word that its
  bytes spell in big-endian order, and \<open>be_word\<close> below gives the bytes back.
\<close>

type_synonym h256 = "256 word"
type_synonym h160 = "160 word"
type_synonym bytes = "8 word list"

named_theorems checked_simps \<open>exact meaning of checked and saturating arithmetic\<close>
named_theorems res_simps \<open>inversion of Result pipelines\<close>
named_theorems be_simps \<open>big-endian encodings\<close>
named_theorems btree_simps \<open>sorted association lists\<close>

section \<open>Results\<close>

text \<open>
  A \<^verbatim>\<open>Result<T, E>\<close> is \<open>'e + 'a\<close>, \<open>Inl\<close> the error. \<open>res_bind\<close> is the \<^verbatim>\<open>?\<close> operator
  and \<open>ok_or\<close> is \<^verbatim>\<open>Option::ok_or\<close>.
\<close>

fun res_bind :: "'e + 'a \<Rightarrow> ('a \<Rightarrow> 'e + 'b) \<Rightarrow> 'e + 'b" where
  "res_bind (Inl e) f = Inl e"
| "res_bind (Inr x) f = f x"

fun ok_or :: "'a option \<Rightarrow> 'e \<Rightarrow> 'e + 'a" where
  "ok_or None e = Inl e"
| "ok_or (Some x) e = Inr x"

definition ensure :: "bool \<Rightarrow> 'e \<Rightarrow> 'e + unit" where
  "ensure b e = (if b then Inr () else Inl e)"

lemma res_bind_Inr_iff [res_simps]:
  "res_bind m f = Inr y \<longleftrightarrow> (\<exists>x. m = Inr x \<and> f x = Inr y)"
  by (cases m) auto

lemma res_bind_Inl_iff:
  "res_bind m f = Inl e \<longleftrightarrow> m = Inl e \<or> (\<exists>x. m = Inr x \<and> f x = Inl e)"
  by (cases m) auto

lemma ok_or_Inr_iff [res_simps]: "ok_or m e = Inr x \<longleftrightarrow> m = Some x"
  by (cases m) auto

lemma ok_or_Inl_iff: "ok_or m e = Inl e' \<longleftrightarrow> m = None \<and> e' = e"
  by (cases m) auto

lemma ensure_Inr_iff [res_simps]: "ensure b e = Inr u \<longleftrightarrow> b"
  by (simp add: ensure_def)

lemma ensure_Inl_iff: "ensure b e = Inl e' \<longleftrightarrow> \<not> b \<and> e' = e"
  by (auto simp: ensure_def)

lemma res_bind_cong [fundef_cong]:
  "m = m' \<Longrightarrow> (\<And>x. m' = Inr x \<Longrightarrow> f x = g x) \<Longrightarrow> res_bind m f = res_bind m' g"
  by (cases m') auto

lemma res_bind_assoc: "res_bind (res_bind m f) g = res_bind m (\<lambda>x. res_bind (f x) g)"
  by (cases m) auto

text \<open>Errors of a pipeline are not confused with its values.\<close>

definition is_ok :: "'e + 'a \<Rightarrow> bool" where
  "is_ok r = (case r of Inl _ \<Rightarrow> False | Inr _ \<Rightarrow> True)"

lemma is_ok_iff: "is_ok r \<longleftrightarrow> (\<exists>x. r = Inr x)"
  by (cases r) (auto simp: is_ok_def)

lemma is_ok_simps [simp]: "\<not> is_ok (Inl e)" "is_ok (Inr x)"
  by (simp_all add: is_ok_def)

section \<open>Checked and saturating arithmetic\<close>

definition checked_add :: "'a::len word \<Rightarrow> 'a word \<Rightarrow> 'a word option" where
  "checked_add a b = (if unat a + unat b < 2 ^ LENGTH('a) then Some (a + b) else None)"

definition checked_mul :: "'a::len word \<Rightarrow> 'a word \<Rightarrow> 'a word option" where
  "checked_mul a b = (if unat a * unat b < 2 ^ LENGTH('a) then Some (a * b) else None)"

definition checked_sub :: "'a::len word \<Rightarrow> 'a word \<Rightarrow> 'a word option" where
  "checked_sub a b = (if b \<le> a then Some (a - b) else None)"

definition checked_div :: "'a::len word \<Rightarrow> 'a word \<Rightarrow> 'a word option" where
  "checked_div a b = (if b = 0 then None else Some (a div b))"

definition saturating_add :: "'a::len word \<Rightarrow> 'a word \<Rightarrow> 'a word" where
  "saturating_add a b = (if unat a + unat b < 2 ^ LENGTH('a) then a + b else - 1)"

definition saturating_mul :: "'a::len word \<Rightarrow> 'a word \<Rightarrow> 'a word" where
  "saturating_mul a b = (if unat a * unat b < 2 ^ LENGTH('a) then a * b else - 1)"

definition saturating_sub :: "'a::len word \<Rightarrow> 'a word \<Rightarrow> 'a word" where
  "saturating_sub a b = (if b \<le> a then a - b else 0)"

lemma unat_lt: "unat (w :: 'a::len word) < 2 ^ LENGTH('a)"
  by (fact unsigned_less)

lemma unat_lt_num:
  "unat (n :: u64) < 18446744073709551616" "unat (m :: u32) < 4294967296" "unat (b :: u8) < 256"
  using unat_lt[of n] unat_lt[of m] unat_lt[of b] by simp_all

lemma sum_list_length_bound:
  "(\<And>x. x \<in> set xs \<Longrightarrow> length x \<le> k) \<Longrightarrow> sum_list (map length xs) \<le> length xs * k"
  by (induction xs) (auto simp: add_mono)

lemma unat_ucast_up:
  assumes "LENGTH('a::len) \<le> LENGTH('b::len)"
  shows "unat (ucast (w :: 'a word) :: 'b word) = unat w"
proof -
  have "(2::nat) ^ LENGTH('a) \<le> 2 ^ LENGTH('b)" using assms by (rule power_increasing) simp
  then have "unat w < 2 ^ LENGTH('b)" by (rule less_le_trans [OF unat_lt])
  then show ?thesis by (simp add: unsigned_ucast_eq take_bit_nat_eq_self)
qed

lemma unat_max_word: "unat (- 1 :: 'a::len word) = 2 ^ LENGTH('a) - 1"
  by (simp add: unsigned_minus_1_eq_mask mask_eq_exp_minus_1)

lemma unat_plus_if_fits:
  "unat (a :: 'a::len word) + unat b < 2 ^ LENGTH('a) \<Longrightarrow> unat (a + b) = unat a + unat b"
  by (simp add: unat_word_ariths)

lemma unat_times_if_fits:
  "unat (a :: 'a::len word) * unat b < 2 ^ LENGTH('a) \<Longrightarrow> unat (a * b) = unat a * unat b"
  by (simp add: unat_word_ariths)

lemma checked_add_Some [checked_simps]:
  "checked_add (a :: 'a::len word) b = Some c \<longleftrightarrow>
     unat a + unat b < 2 ^ LENGTH('a) \<and> unat c = unat a + unat b"
  by (auto simp: checked_add_def unat_plus_if_fits word_unat_eq_iff)

lemma checked_mul_Some [checked_simps]:
  "checked_mul (a :: 'a::len word) b = Some c \<longleftrightarrow>
     unat a * unat b < 2 ^ LENGTH('a) \<and> unat c = unat a * unat b"
  by (auto simp: checked_mul_def unat_times_if_fits word_unat_eq_iff)

lemma checked_add_None [checked_simps]:
  "checked_add (a :: 'a::len word) b = None \<longleftrightarrow> 2 ^ LENGTH('a) \<le> unat a + unat b"
  by (auto simp: checked_add_def not_less)

lemma checked_mul_None [checked_simps]:
  "checked_mul (a :: 'a::len word) b = None \<longleftrightarrow> 2 ^ LENGTH('a) \<le> unat a * unat b"
  by (auto simp: checked_mul_def not_less)

lemma checked_sub_Some [checked_simps]:
  "checked_sub (a :: 'a::len word) b = Some c \<longleftrightarrow> b \<le> a \<and> unat c = unat a - unat b"
  by (auto simp: checked_sub_def unat_sub word_unat_eq_iff)

lemma checked_div_Some [checked_simps]:
  "checked_div (a :: 'a::len word) b = Some c \<longleftrightarrow> b \<noteq> 0 \<and> unat c = unat a div unat b"
  by (auto simp: checked_div_def unat_div word_unat_eq_iff)

lemma unat_saturating_add [checked_simps]:
  "unat (saturating_add (a :: 'a::len word) b) = min (unat a + unat b) (2 ^ LENGTH('a) - 1)"
  by (auto simp: saturating_add_def unat_plus_if_fits unat_max_word min_def)

lemma unat_saturating_mul [checked_simps]:
  "unat (saturating_mul (a :: 'a::len word) b) = min (unat a * unat b) (2 ^ LENGTH('a) - 1)"
proof (cases "unat a * unat b < 2 ^ LENGTH('a)")
  case True
  then have "unat a * unat b \<le> 2 ^ LENGTH('a) - 1" by linarith
  with True show ?thesis by (simp add: saturating_mul_def unat_times_if_fits min_absorb1)
next
  case False
  then have "2 ^ LENGTH('a) - 1 \<le> unat a * unat b" by linarith
  with False show ?thesis by (simp add: saturating_mul_def unat_max_word min_absorb2)
qed

lemma unat_saturating_sub [checked_simps]:
  "unat (saturating_sub (a :: 'a::len word) b) = unat a - unat b"
  by (auto simp: saturating_sub_def unat_sub word_le_nat_alt not_le)

text \<open>
  \<open>fit n\<close> is the value \<open>n\<close> of unbounded arithmetic if it fits the width, \<open>None\<close>
  otherwise. A pipeline of checked operations equals \<open>fit\<close> of the unbounded formula
  when no intermediate result exceeds the final one.
\<close>

definition fit :: "nat \<Rightarrow> 'a::len word option" where
  "fit n = (if n < 2 ^ LENGTH('a) then Some (word_of_nat n) else None)"

lemma fit_eqI:
  fixes x :: "'a::len word option"
  assumes "\<And>c. x = Some c \<Longrightarrow> unat c = n" and "x = None \<Longrightarrow> 2 ^ LENGTH('a) \<le> n"
  shows "x = fit n"
proof (cases x)
  case None
  with assms(2) show ?thesis by (simp add: fit_def)
next
  case (Some c)
  with assms(1) have "unat c = n" by simp
  with Some show ?thesis using unat_lt[of c] by (auto simp: fit_def)
qed

lemma fit_Some_iff: "fit n = Some (c :: 'a::len word) \<longleftrightarrow> n < 2 ^ LENGTH('a) \<and> unat c = n"
  by (auto simp: fit_def word_unat_eq_iff unat_of_nat)

lemma fit_None_iff: "fit n = (None :: 'a::len word option) \<longleftrightarrow> 2 ^ LENGTH('a) \<le> n"
  by (auto simp: fit_def)

lemma bind_None_iff: "Option.bind x f = None \<longleftrightarrow> x = None \<or> (\<exists>a. x = Some a \<and> f a = None)"
  by (cases x) auto

lemmas bind_convs = bind_eq_Some_conv bind_None_iff

section \<open>Big-endian bytes\<close>

text \<open>
  \<open>be_nat n v\<close> is the big-endian representation of \<open>v\<close> in \<open>n\<close> bytes, \<open>be_val\<close> reads
  a byte string back. \<open>be_word\<close> is \<^verbatim>\<open>to_be_bytes\<close>, \<^verbatim>\<open>to_big_endian\<close> and \<^verbatim>\<open>as_bytes\<close>.
\<close>

fun be_nat :: "nat \<Rightarrow> nat \<Rightarrow> bytes" where
  "be_nat 0 v = []"
| "be_nat (Suc n) v = be_nat n (v div 256) @ [word_of_nat (v mod 256)]"

fun be_val_acc :: "nat \<Rightarrow> bytes \<Rightarrow> nat" where
  "be_val_acc a [] = a"
| "be_val_acc a (b # bs) = be_val_acc (a * 256 + unat b) bs"

definition be_val :: "bytes \<Rightarrow> nat" where
  "be_val bs = be_val_acc 0 bs"

definition be_word :: "nat \<Rightarrow> 'a::len word \<Rightarrow> bytes" where
  "be_word n w = be_nat n (unat w)"

lemma length_be_nat [simp]: "length (be_nat n v) = n"
  by (induction n v rule: be_nat.induct) auto

lemma length_be_word [simp]: "length (be_word n w) = n"
  by (simp add: be_word_def)

lemma be_val_acc_append: "be_val_acc a (xs @ ys) = be_val_acc (be_val_acc a xs) ys"
  by (induction a xs rule: be_val_acc.induct) auto

lemma be_val_Nil [simp]: "be_val [] = 0"
  by (simp add: be_val_def)

lemma be_val_snoc [be_simps]: "be_val (xs @ [b]) = be_val xs * 256 + unat b"
  by (simp add: be_val_def be_val_acc_append)

lemma be_val_acc_shift: "be_val_acc a bs = a * 256 ^ length bs + be_val_acc 0 bs"
proof (induction bs arbitrary: a)
  case (Cons b bs)
  show ?case
    using Cons.IH[of "a * 256 + unat b"] Cons.IH[of "unat b"] by (simp add: algebra_simps)
qed simp

lemma be_val_Cons [be_simps]: "be_val (b # bs) = unat b * 256 ^ length bs + be_val bs"
  using be_val_acc_shift[of "unat b" bs] by (simp add: be_val_def)

lemma be_val_bound: "be_val bs < 256 ^ length bs"
proof (induction bs)
  case (Cons b bs)
  have "unat b \<le> 255" using unat_lt[of b] by simp
  then have "unat b * 256 ^ length bs \<le> 255 * 256 ^ length bs" by (rule mult_le_mono1)
  with Cons have "be_val (b # bs) < 255 * 256 ^ length bs + 256 ^ length bs"
    unfolding be_val_Cons by linarith
  then show ?case by simp
qed simp

lemma unat_byte_mod: "unat (word_of_nat (v mod 256) :: u8) = v mod 256"
  by (simp add: unat_of_nat)

lemma be_val_be_nat [be_simps]: "be_val (be_nat n v) = v mod 256 ^ n"
proof (induction n v rule: be_nat.induct)
  case (2 n v)
  have "v mod 256 ^ Suc n = 256 * (v div 256 mod 256 ^ n) + v mod 256"
    by (simp add: mod_mult2_eq)
  with 2 show ?case by (simp add: be_val_snoc unat_byte_mod)
qed simp

lemma be_nat_inj: "be_nat n v = be_nat n w \<Longrightarrow> v < 256 ^ n \<Longrightarrow> w < 256 ^ n \<Longrightarrow> v = w"
  by (metis be_val_be_nat mod_less)

lemma be_val_be_word [be_simps]:
  "LENGTH('a::len) \<le> 8 * n \<Longrightarrow> be_val (be_word n (w :: 'a word)) = unat w"
proof -
  assume "LENGTH('a) \<le> 8 * n"
  then have "(2::nat) ^ LENGTH('a) \<le> 2 ^ (8 * n)" by (rule power_increasing) simp
  then have "(2::nat) ^ LENGTH('a) \<le> 256 ^ n" by (simp add: power_mult)
  then have "unat w < 256 ^ n" by (rule less_le_trans [OF unat_lt])
  then show ?thesis by (simp add: be_word_def be_val_be_nat)
qed

lemma be_word_inj:
  "LENGTH('a::len) \<le> 8 * n \<Longrightarrow> be_word n (w :: 'a word) = be_word n v \<Longrightarrow> w = v"
  by (metis be_val_be_word word_unat_eq_iff)

lemmas be_word_inj64 = be_word_inj [where 'a = 64 and n = 8, simplified]
lemmas be_word_inj256 = be_word_inj [where 'a = 256 and n = 32, simplified]
lemmas be_word_inj160 = be_word_inj [where 'a = 160 and n = 20, simplified]

lemma be_word_inj256_iff [simp]: "be_word 32 (w :: 256 word) = be_word 32 v \<longleftrightarrow> w = v"
  using be_word_inj256 by blast

lemma be_word_inj160_iff [simp]: "be_word 20 (w :: 160 word) = be_word 20 v \<longleftrightarrow> w = v"
  using be_word_inj160 by blast

lemma be_word_inj64_iff [simp]: "be_word 8 (w :: 64 word) = be_word 8 v \<longleftrightarrow> w = v"
  using be_word_inj64 by blast

lemma be_nat_be_val [be_simps]: "be_nat (length bs) (be_val bs) = bs"
proof (induction bs rule: rev_induct)
  case (snoc b bs)
  have "unat b < 256" using unat_lt[of b] by simp
  with snoc show ?case by (simp add: be_val_snoc)
qed simp

section \<open>Histories\<close>

text \<open>Every entry of a history is allowed by what came before it.\<close>

definition each_after :: "('a list \<Rightarrow> 'a \<Rightarrow> bool) \<Rightarrow> 'a list \<Rightarrow> bool" where
  "each_after P t \<longleftrightarrow> (\<forall>a x b. t = a @ x # b \<longrightarrow> P a x)"

lemma each_after_Nil [simp]: "each_after P []"
  by (simp add: each_after_def)

lemma each_after_snoc [simp]: "each_after P (t @ [x]) \<longleftrightarrow> each_after P t \<and> P t x"
proof
  assume w: "each_after P (t @ [x])"
  then have "each_after P t" unfolding each_after_def by (metis append.assoc append_Cons)
  moreover have "P t x" using w unfolding each_after_def by (metis append_Nil)
  ultimately show "each_after P t \<and> P t x" by simp
next
  assume "each_after P t \<and> P t x"
  then show "each_after P (t @ [x])"
    unfolding each_after_def by (auto simp: append_eq_append_conv2 append_eq_Cons_conv Cons_eq_append_conv)
qed

lemma each_afterD: "each_after P (a @ x # b) \<Longrightarrow> P a x"
  by (simp add: each_after_def)

end
