(* ===== verification/Op_Funding.thy ===== *)
theory Op_Funding
  imports UB_Prelude
begin

text \<open>
  The crate \<^verbatim>\<open>op-funding\<close> (\<^verbatim>\<open>crates/op-funding/src/lib.rs\<close>): how much Bitcoin an
  operator has to lock for a stream and how much RSK balance a member needs. All of it
  is machine arithmetic on \<^verbatim>\<open>u64\<close>, \<^verbatim>\<open>u128\<close> and \<^verbatim>\<open>U256\<close>, kept at its width here. The
  lemmas show that the checked pipelines compute the unbounded formulas exactly, that
  the binary search of \<^verbatim>\<open>ceil_sqrt\<close> is the integer square root rounded up, and that the
  \<^verbatim>\<open>expect\<close> of \<^verbatim>\<open>budgeted_slot_count\<close> can never panic.
\<close>

section \<open>Constants\<close>

definition STREAM_DENOMINATIONS :: "u64 list" where
  "STREAM_DENOMINATIONS = [100000, 1000000, 10000000, 100000000, 1000000000]"

definition FUNDING_AMOUNT_PER_SLOT :: u64 where "FUNDING_AMOUNT_PER_SLOT = 12000"
definition DISPUTE_CHANNEL_FUNDING_PER_MEMBER :: u64 where
  "DISPUTE_CHANNEL_FUNDING_PER_MEMBER = 50000"
definition DUST_VALUE :: u64 where "DUST_VALUE = 540"
definition SPEEDUP_VALUE :: u64 where "SPEEDUP_VALUE = 540"
definition REGTEST_SPEEDUP_FUNDS_VALUE :: u64 where "REGTEST_SPEEDUP_FUNDS_VALUE = 1000000"
definition NON_REGTEST_SPEEDUP_FUNDS_VALUE :: u64 where "NON_REGTEST_SPEEDUP_FUNDS_VALUE = 30000"
definition EXAMPLE_PROTOCOL_FUNDING_SAFETY_BUFFER :: u64 where
  "EXAMPLE_PROTOCOL_FUNDING_SAFETY_BUFFER = 5000"
definition EXAMPLE_TOTAL_FUNDING_SAFETY_BUFFER :: u64 where
  "EXAMPLE_TOTAL_FUNDING_SAFETY_BUFFER = 10000"
definition OPERATOR_FUNDING_MARGIN_NUMERATOR :: u64 where "OPERATOR_FUNDING_MARGIN_NUMERATOR = 25"
definition OPERATOR_FUNDING_MARGIN_DENOMINATOR :: u64 where
  "OPERATOR_FUNDING_MARGIN_DENOMINATOR = 100"
definition REGTEST_FEE_RATE :: u64 where "REGTEST_FEE_RATE = 10"
definition NON_REGTEST_FEE_RATE :: u64 where "NON_REGTEST_FEE_RATE = 1"
definition RSK_GAS_BUFFER_PERCENT :: u64 where "RSK_GAS_BUFFER_PERCENT = 20"
definition MEMBER_RSK_SETUP_RESERVE_WEI :: u64 where
  "MEMBER_RSK_SETUP_RESERVE_WEI = 10000000000000000"
definition MEMBER_RSK_RESERVE_PER_SLOT_WEI :: u64 where
  "MEMBER_RSK_RESERVE_PER_SLOT_WEI = 3000000000000000"
definition SLOT_BUDGET_Z_SCORE_NUMERATOR :: u128 where "SLOT_BUDGET_Z_SCORE_NUMERATOR = 233"
definition SLOT_BUDGET_Z_SCORE_DENOMINATOR :: u128 where "SLOT_BUDGET_Z_SCORE_DENOMINATOR = 100"

lemmas funding_consts =
  STREAM_DENOMINATIONS_def FUNDING_AMOUNT_PER_SLOT_def DISPUTE_CHANNEL_FUNDING_PER_MEMBER_def
  DUST_VALUE_def SPEEDUP_VALUE_def REGTEST_SPEEDUP_FUNDS_VALUE_def
  NON_REGTEST_SPEEDUP_FUNDS_VALUE_def EXAMPLE_PROTOCOL_FUNDING_SAFETY_BUFFER_def
  EXAMPLE_TOTAL_FUNDING_SAFETY_BUFFER_def OPERATOR_FUNDING_MARGIN_NUMERATOR_def
  OPERATOR_FUNDING_MARGIN_DENOMINATOR_def REGTEST_FEE_RATE_def NON_REGTEST_FEE_RATE_def
  RSK_GAS_BUFFER_PERCENT_def MEMBER_RSK_SETUP_RESERVE_WEI_def
  MEMBER_RSK_RESERVE_PER_SLOT_WEI_def SLOT_BUDGET_Z_SCORE_NUMERATOR_def
  SLOT_BUDGET_Z_SCORE_DENOMINATOR_def

section \<open>The Bitcoin funding profile\<close>

record stream_funding_profile =
  sfp_denomination :: u64
  sfp_protocol_funding :: u64
  sfp_speed_up_utxo :: u64
  sfp_advance_funds :: u64
  sfp_operator_fund_amount :: u64

datatype funding_profile_error = UnknownStreamId u64 | ArithmeticOverflow

definition stream_denomination :: "u64 \<Rightarrow> u64 option" where
  "stream_denomination stream_id =
     (if unat stream_id < length STREAM_DENOMINATIONS
      then Some (STREAM_DENOMINATIONS ! unat stream_id) else None)"

definition calculate_advance_funds_value :: "u64 \<Rightarrow> u64 option" where
  "calculate_advance_funds_value d = do { x \<leftarrow> checked_mul d 12; checked_div x 10 }"

definition estimate_fee :: "u64 \<Rightarrow> u64 \<Rightarrow> u64 \<Rightarrow> u64 option" where
  "estimate_fee input_quantity output_quantity rate = do {
     i \<leftarrow> checked_mul input_quantity 68;
     x \<leftarrow> checked_add 46 i;
     q \<leftarrow> checked_mul output_quantity 34;
     y \<leftarrow> checked_add x q;
     checked_mul y rate }"

definition fee_rate :: "bool \<Rightarrow> u64" where
  "fee_rate is_regtest = (if is_regtest then REGTEST_FEE_RATE else NON_REGTEST_FEE_RATE)"

definition operator_funding_value :: "u64 \<Rightarrow> bool \<Rightarrow> u64 option" where
  "operator_funding_value slots_per_package is_regtest = do {
     x \<leftarrow> checked_mul FUNDING_AMOUNT_PER_SLOT slots_per_package;
     y \<leftarrow> checked_add x SPEEDUP_VALUE;
     outs \<leftarrow> checked_add slots_per_package 2;
     fee \<leftarrow> estimate_fee 1 outs (fee_rate is_regtest);
     checked_add y fee }"

definition watchtower_funding_value :: "u64 \<Rightarrow> bool \<Rightarrow> u64 option" where
  "watchtower_funding_value committee_member_count is_regtest = do {
     x \<leftarrow> checked_mul DISPUTE_CHANNEL_FUNDING_PER_MEMBER committee_member_count;
     y \<leftarrow> checked_add x SPEEDUP_VALUE;
     outs \<leftarrow> checked_add committee_member_count 2;
     fee \<leftarrow> estimate_fee 1 outs (fee_rate is_regtest);
     checked_add y fee }"

definition funding_wt_disabler_directory_value :: "u64 \<Rightarrow> bool \<Rightarrow> u64 option" where
  "funding_wt_disabler_directory_value prover_count is_regtest = do {
     output_quantity \<leftarrow> checked_mul prover_count 2;
     x \<leftarrow> checked_mul DUST_VALUE prover_count;
     y \<leftarrow> checked_mul x 2;
     z \<leftarrow> checked_add y SPEEDUP_VALUE;
     fee \<leftarrow> estimate_fee 2 output_quantity (fee_rate is_regtest);
     checked_add z fee }"

definition funding_op_disabler_directory_value :: "u64 \<Rightarrow> bool \<Rightarrow> u64 option" where
  "funding_op_disabler_directory_value slots_per_package is_regtest = do {
     x \<leftarrow> checked_mul DUST_VALUE slots_per_package;
     y \<leftarrow> checked_add x SPEEDUP_VALUE;
     outs \<leftarrow> checked_add slots_per_package 1;
     fee \<leftarrow> estimate_fee 2 outs (fee_rate is_regtest);
     checked_add y fee }"

definition speedup_funds_value :: "bool \<Rightarrow> u64" where
  "speedup_funds_value is_regtest =
     (if is_regtest then REGTEST_SPEEDUP_FUNDS_VALUE else NON_REGTEST_SPEEDUP_FUNDS_VALUE)"

definition operator_funding_margin :: "u64 \<Rightarrow> u64 option" where
  "operator_funding_margin d = do {
     x \<leftarrow> checked_mul d OPERATOR_FUNDING_MARGIN_NUMERATOR;
     checked_div x OPERATOR_FUNDING_MARGIN_DENOMINATOR }"

definition derive_stream_funding_profile ::
  "u64 \<Rightarrow> bool \<Rightarrow> u64 \<Rightarrow> u64 \<Rightarrow> u64 \<Rightarrow> funding_profile_error + stream_funding_profile" where
  "derive_stream_funding_profile stream_id is_regtest slots_per_package committee_member_count
       prover_count =
     res_bind (ok_or (stream_denomination stream_id) (UnknownStreamId stream_id)) (\<lambda>denomination.
     let speed_up_utxo = speedup_funds_value is_regtest in
     res_bind (ok_or (calculate_advance_funds_value denomination) ArithmeticOverflow)
       (\<lambda>advance_funds.
     res_bind (ok_or (operator_funding_value slots_per_package is_regtest) ArithmeticOverflow)
       (\<lambda>operator_funding.
     res_bind (ok_or (funding_op_disabler_directory_value slots_per_package is_regtest)
         ArithmeticOverflow) (\<lambda>op_disabler_funding.
     res_bind (ok_or (watchtower_funding_value committee_member_count is_regtest)
         ArithmeticOverflow) (\<lambda>watchtower_funding.
     res_bind (ok_or (funding_wt_disabler_directory_value prover_count is_regtest)
         ArithmeticOverflow) (\<lambda>wt_disabler_funding.
     res_bind (ok_or (do {
         a \<leftarrow> checked_add operator_funding op_disabler_funding;
         b \<leftarrow> checked_add a watchtower_funding;
         c \<leftarrow> checked_add b wt_disabler_funding;
         checked_add c EXAMPLE_PROTOCOL_FUNDING_SAFETY_BUFFER }) ArithmeticOverflow)
       (\<lambda>protocol_funding.
     res_bind (ok_or (do {
         a \<leftarrow> checked_add speed_up_utxo advance_funds;
         b \<leftarrow> checked_add a operator_funding;
         c \<leftarrow> checked_add b op_disabler_funding;
         d \<leftarrow> checked_add c watchtower_funding;
         e \<leftarrow> checked_add d wt_disabler_funding;
         f \<leftarrow> checked_add e EXAMPLE_TOTAL_FUNDING_SAFETY_BUFFER;
         margin \<leftarrow> operator_funding_margin denomination;
         checked_add f margin }) ArithmeticOverflow) (\<lambda>operator_fund_amount.
     Inr \<lparr> sfp_denomination = denomination, sfp_protocol_funding = protocol_funding,
           sfp_speed_up_utxo = speed_up_utxo, sfp_advance_funds = advance_funds,
           sfp_operator_fund_amount = operator_fund_amount \<rparr>))))))))"

section \<open>The RSK balance of a member\<close>

definition ceil_div :: "u128 \<Rightarrow> u128 \<Rightarrow> u128" where
  "ceil_div numerator denominator =
     (let d = numerator div denominator; r = numerator mod denominator
      in if 0 < r then d + 1 else d)"

function ceil_sqrt_loop :: "u128 \<Rightarrow> u128 \<Rightarrow> u128 \<Rightarrow> u128" where
  "ceil_sqrt_loop value low high =
     (if low < high then
        let mid = saturating_add low ((high - low) div 2);
            square = saturating_mul mid mid
        in if square < value then ceil_sqrt_loop value (saturating_add mid 1) high
           else ceil_sqrt_loop value low mid
      else low)"
  by pat_completeness auto

lemma mid_bounds:
  fixes low high :: u128
  assumes "low < high"
  shows "unat (saturating_add low ((high - low) div 2)) = (unat low + unat high) div 2"
    and "unat low \<le> (unat low + unat high) div 2" and "(unat low + unat high) div 2 < unat high"
proof -
  have lt: "unat low < unat high" using assms by (simp add: word_less_nat_alt)
  have "unat ((high - low) div 2) = (unat high - unat low) div 2"
    using assms by (simp add: unat_div unat_sub)
  then show "unat (saturating_add low ((high - low) div 2)) = (unat low + unat high) div 2"
    using lt unat_lt[of high] by (simp add: unat_saturating_add)
  show "unat low \<le> (unat low + unat high) div 2" and "(unat low + unat high) div 2 < unat high"
    using lt by linarith+
qed

lemma unat_saturating_suc:
  fixes mid :: u128
  assumes "unat mid < unat (high :: u128)"
  shows "unat (saturating_add mid 1) = Suc (unat mid)"
  using assms unat_lt[of high] by (simp add: unat_saturating_add)

termination ceil_sqrt_loop
proof (relation "measure (\<lambda>(value, low, high). unat high - unat low)", goal_cases)
  case (2 v low high mid square)
  then show ?case using mid_bounds[of low high] unat_saturating_suc[of mid high] by auto
next
  case (3 v low high mid square)
  then show ?case using mid_bounds[of low high] by auto
qed simp

declare ceil_sqrt_loop.simps [simp del]

definition ceil_sqrt :: "u128 \<Rightarrow> u128" where
  "ceil_sqrt value = (if value \<le> 1 then value else ceil_sqrt_loop value 1 value)"

definition checked_budgeted_slot_count :: "u64 \<Rightarrow> u64 \<Rightarrow> u64 option" where
  "checked_budgeted_slot_count slots_per_package committee_member_count =
     (let slots = (ucast slots_per_package :: u128);
          members = (ucast (max committee_member_count 1) :: u128)
      in if slots = 0 then Some 0 else do {
        m1 \<leftarrow> checked_sub members 1;
        radicand \<leftarrow> checked_mul slots m1;
        let sqrt_term = ceil_sqrt radicand;
        a \<leftarrow> checked_mul slots SLOT_BUDGET_Z_SCORE_DENOMINATOR;
        b \<leftarrow> checked_mul SLOT_BUDGET_Z_SCORE_NUMERATOR sqrt_term;
        numerator \<leftarrow> checked_add a b;
        denominator \<leftarrow> checked_mul SLOT_BUDGET_Z_SCORE_DENOMINATOR members;
        let q = ceil_div numerator denominator;
        (if unat q < 2 ^ 64 then Some (ucast q) else None) })"

text \<open>
  \<^verbatim>\<open>budgeted_slot_count\<close> unwraps the option with \<^verbatim>\<open>expect\<close>: \<open>None\<close> is the panic. The
  callers propagate it.
\<close>

definition budgeted_slot_count :: "u64 \<Rightarrow> u64 \<Rightarrow> u64 option" where
  "budgeted_slot_count slots_per_package committee_member_count =
     checked_budgeted_slot_count slots_per_package committee_member_count"

definition required_rsk_balance :: "u256 \<Rightarrow> u256" where
  "required_rsk_balance min_deposit =
     (let percentage_buffer = saturating_mul min_deposit (ucast RSK_GAS_BUFFER_PERCENT) div 100
      in saturating_add min_deposit percentage_buffer)"

definition required_member_rsk_balance :: "u256 \<Rightarrow> u64 \<Rightarrow> u64 \<Rightarrow> u256 option" where
  "required_member_rsk_balance min_deposit slots_per_package committee_member_count =
     (let percentage_buffer = saturating_mul min_deposit (ucast RSK_GAS_BUFFER_PERCENT) div 100
      in do {
        slot_budget \<leftarrow> budgeted_slot_count slots_per_package committee_member_count;
        let probabilistic_reserve = saturating_add (ucast MEMBER_RSK_SETUP_RESERVE_WEI)
              (saturating_mul (ucast MEMBER_RSK_RESERVE_PER_SLOT_WEI) (ucast slot_budget));
        Some (saturating_add min_deposit (max percentage_buffer probabilistic_reserve)) })"

section \<open>The profile is the unbounded formula\<close>

text \<open>The formulas of the source over unbounded numbers, \<open>r\<close> the fee rate.\<close>

definition fee_spec :: "nat \<Rightarrow> nat \<Rightarrow> nat \<Rightarrow> nat" where
  "fee_spec i outs r = (46 + i * 68 + outs * 34) * r"

definition operator_spec :: "nat \<Rightarrow> nat \<Rightarrow> nat" where
  "operator_spec s r = 12000 * s + 540 + fee_spec 1 (s + 2) r"

definition op_disabler_spec :: "nat \<Rightarrow> nat \<Rightarrow> nat" where
  "op_disabler_spec s r = 540 * s + 540 + fee_spec 2 (s + 1) r"

definition watchtower_spec :: "nat \<Rightarrow> nat \<Rightarrow> nat" where
  "watchtower_spec m r = 50000 * m + 540 + fee_spec 1 (m + 2) r"

definition wt_disabler_spec :: "nat \<Rightarrow> nat \<Rightarrow> nat" where
  "wt_disabler_spec p r = 1080 * p + 540 + fee_spec 2 (2 * p) r"

definition setup_spec :: "nat \<Rightarrow> nat \<Rightarrow> nat \<Rightarrow> nat \<Rightarrow> nat" where
  "setup_spec s m p r =
     operator_spec s r + op_disabler_spec s r + watchtower_spec m r + wt_disabler_spec p r"

lemmas funding_specs = fee_spec_def operator_spec_def op_disabler_spec_def watchtower_spec_def
  wt_disabler_spec_def setup_spec_def

lemma unat_fee_rate: "unat (fee_rate reg) = (if reg then 10 else 1)"
  by (simp add: fee_rate_def funding_consts)

lemma estimate_fee_eq:
  "estimate_fee i outs (fee_rate reg) = fit (fee_spec (unat i) (unat outs) (unat (fee_rate reg)))"
  by (rule fit_eqI; cases reg)
    (auto simp: estimate_fee_def fee_spec_def bind_convs checked_simps unat_fee_rate)

lemma operator_funding_value_eq:
  "operator_funding_value s reg = fit (operator_spec (unat s) (unat (fee_rate reg)))"
  by (rule fit_eqI; cases reg)
    (auto simp: operator_funding_value_def funding_specs bind_convs checked_simps unat_fee_rate
      estimate_fee_eq fit_Some_iff fit_None_iff funding_consts)

lemma funding_op_disabler_eq:
  "funding_op_disabler_directory_value s reg = fit (op_disabler_spec (unat s) (unat (fee_rate reg)))"
  by (rule fit_eqI; cases reg)
    (auto simp: funding_op_disabler_directory_value_def funding_specs bind_convs checked_simps
      unat_fee_rate estimate_fee_eq fit_Some_iff fit_None_iff funding_consts)

lemma watchtower_funding_value_eq:
  "watchtower_funding_value m reg = fit (watchtower_spec (unat m) (unat (fee_rate reg)))"
  by (rule fit_eqI; cases reg)
    (auto simp: watchtower_funding_value_def funding_specs bind_convs checked_simps unat_fee_rate
      estimate_fee_eq fit_Some_iff fit_None_iff funding_consts)

lemma funding_wt_disabler_eq:
  "funding_wt_disabler_directory_value p reg = fit (wt_disabler_spec (unat p) (unat (fee_rate reg)))"
  by (rule fit_eqI; cases reg)
    (auto simp: funding_wt_disabler_directory_value_def funding_specs bind_convs checked_simps
      unat_fee_rate estimate_fee_eq fit_Some_iff fit_None_iff funding_consts)

definition funding_total_spec :: "u64 \<Rightarrow> bool \<Rightarrow> nat \<Rightarrow> nat \<Rightarrow> nat \<Rightarrow> nat" where
  "funding_total_spec d reg s m p =
     unat (speedup_funds_value reg) + unat d * 12 div 10 +
     setup_spec s m p (unat (fee_rate reg)) + 10000 + unat d * 25 div 100"

lemma stream_denomination_cases:
  "stream_denomination i = Some d \<Longrightarrow>
     d \<in> {100000, 1000000, 10000000, 100000000, 1000000000}"
  by (auto simp: stream_denomination_def STREAM_DENOMINATIONS_def nth_Cons' split: if_splits)

lemma denomination_values:
  assumes "stream_denomination i = Some d"
  shows "calculate_advance_funds_value d = fit (unat d * 12 div 10)"
    and "operator_funding_margin d = fit (unat d * 25 div 100)"
    and "unat d \<le> 1000000000"
  using stream_denomination_cases[OF assms]
  by (auto simp: calculate_advance_funds_value_def operator_funding_margin_def checked_mul_def
    checked_div_def fit_def funding_consts)

text \<open>
  With the component values given, the two sums at the end of the source are \<open>fit\<close> of
  the unbounded sums.
\<close>

lemma protocol_sum_eq:
  "do { x \<leftarrow> checked_add (a::u64) b; y \<leftarrow> checked_add x c; z \<leftarrow> checked_add y e;
        checked_add z EXAMPLE_PROTOCOL_FUNDING_SAFETY_BUFFER } =
     fit (unat a + unat b + unat c + unat e + 5000)"
  by (rule fit_eqI) (auto simp: bind_convs checked_simps funding_consts)

lemma total_sum_eq:
  assumes "stream_denomination i = Some d"
  shows
  "do { x1 \<leftarrow> checked_add (su::u64) adv; x2 \<leftarrow> checked_add x1 a; x3 \<leftarrow> checked_add x2 b;
        x4 \<leftarrow> checked_add x3 c; x5 \<leftarrow> checked_add x4 e;
        x6 \<leftarrow> checked_add x5 EXAMPLE_TOTAL_FUNDING_SAFETY_BUFFER;
        margin \<leftarrow> operator_funding_margin d; checked_add x6 margin } =
     fit (unat su + unat adv + unat a + unat b + unat c + unat e + 10000 + unat d * 25 div 100)"
  by (rule fit_eqI)
    (auto simp: bind_convs checked_simps funding_consts denomination_values(2)[OF assms]
      fit_Some_iff fit_None_iff)

lemma ok_or_fit:
  "ok_or (fit n :: 'a::len word option) e =
     (if n < 2 ^ LENGTH('a) then Inr (word_of_nat n) else Inl e)"
  by (simp add: fit_def)

lemma derive_profile_sums:
  assumes d: "stream_denomination i = Some d"
    and tot: "tot = funding_total_spec d reg (unat s) (unat m) (unat p)"
    and prot: "prot = setup_spec (unat s) (unat m) (unat p) (unat (fee_rate reg)) + 5000"
  shows "derive_stream_funding_profile i reg s m p =
    (if tot < 2 ^ 64
     then Inr \<lparr> sfp_denomination = d, sfp_protocol_funding = word_of_nat prot,
            sfp_speed_up_utxo = speedup_funds_value reg,
            sfp_advance_funds = word_of_nat (unat d * 12 div 10),
            sfp_operator_fund_amount = word_of_nat tot \<rparr>
     else Inl ArithmeticOverflow)"
proof -
  have adv: "unat d * 12 div 10 < 18446744073709551616"
    using denomination_values(3)[OF d] by simp
  show ?thesis
    apply (simp only: derive_stream_funding_profile_def d ok_or.simps res_bind.simps Let_def
        denomination_values(1)[OF d] operator_funding_value_eq funding_op_disabler_eq
        watchtower_funding_value_eq funding_wt_disabler_eq protocol_sum_eq total_sum_eq[OF d])
    using adv by (auto simp: ok_or_fit tot prot funding_total_spec_def setup_spec_def
        unat_of_nat add.assoc)
qed

text \<open>
  C33. The funding profile of a known stream is the source's formula over unbounded numbers
  whenever the operator's total fits in 64 bits, and \<^verbatim>\<open>ArithmeticOverflow\<close> exactly when it does
  not: no intermediate checked operation fails earlier and none wraps. An unknown stream
  id is reported as such.
\<close>

theorem derive_stream_funding_profile_exact:
  "derive_stream_funding_profile i reg s m p =
    (case stream_denomination i of
       None \<Rightarrow> Inl (UnknownStreamId i)
     | Some d \<Rightarrow>
        let total = funding_total_spec d reg (unat s) (unat m) (unat p);
            protocol = setup_spec (unat s) (unat m) (unat p) (unat (fee_rate reg)) + 5000
        in if total < 2 ^ 64
           then Inr \<lparr> sfp_denomination = d, sfp_protocol_funding = word_of_nat protocol,
                  sfp_speed_up_utxo = speedup_funds_value reg,
                  sfp_advance_funds = word_of_nat (unat d * 12 div 10),
                  sfp_operator_fund_amount = word_of_nat total \<rparr>
           else Inl ArithmeticOverflow)"
proof (cases "stream_denomination i")
  case None
  then show ?thesis by (simp add: derive_stream_funding_profile_def)
next
  case (Some d)
  then show ?thesis by (simp add: derive_profile_sums[OF Some refl refl] Let_def)
qed

section \<open>The square root and the slot budget\<close>

text \<open>The loop keeps the answer between its bounds: everything below \<open>low\<close> is too small.\<close>

lemma ceil_sqrt_loop_spec:
  assumes "unat low \<le> unat high" and "unat v \<le> unat high * unat high"
    and "\<And>k. k < unat low \<Longrightarrow> k * k < unat v"
  shows "unat v \<le> unat (ceil_sqrt_loop v low high) * unat (ceil_sqrt_loop v low high)
     \<and> (\<forall>k. k < unat (ceil_sqrt_loop v low high) \<longrightarrow> k * k < unat v)"
  using assms
proof (induction v low high rule: ceil_sqrt_loop.induct)
  case (1 v low high)
  show ?case
  proof (cases "low < high")
    case False
    with "1.prems" have "unat low = unat high" by (simp add: word_less_nat_alt)
    with False "1.prems" show ?thesis by (simp add: ceil_sqrt_loop.simps[of v low high])
  next
    case True
    define mid where "mid = saturating_add low ((high - low) div 2)"
    note b = mid_bounds[OF True, folded mid_def]
    have sq: "saturating_mul mid mid < v \<longleftrightarrow> unat mid * unat mid < unat v"
      using unat_lt[of v] by (auto simp: word_less_nat_alt unat_saturating_mul min_less_iff_disj)
    show ?thesis
    proof (cases "saturating_mul mid mid < v")
      case small: True
      have up: "unat (saturating_add mid 1) = Suc (unat mid)"
        using unat_saturating_suc b by metis
      have mono: "k * k < unat v" if "k < Suc (unat mid)" for k
        using that small[unfolded sq] mult_le_mono[of k "unat mid" k "unat mid"] by linarith
      have "ceil_sqrt_loop v low high = ceil_sqrt_loop v (saturating_add mid 1) high"
        using True small by (simp add: ceil_sqrt_loop.simps[of v low high] mid_def Let_def)
      moreover have "unat (saturating_add mid 1) \<le> unat high" using up b by simp
      ultimately show ?thesis
        using "1.IH"(1)[OF True mid_def refl small] "1.prems" up mono by simp
    next
      case big: False
      have "ceil_sqrt_loop v low high = ceil_sqrt_loop v low mid"
        using True big by (simp add: ceil_sqrt_loop.simps[of v low high] mid_def Let_def)
      moreover have "unat v \<le> unat mid * unat mid" using big sq by simp
      ultimately show ?thesis
        using "1.IH"(2)[OF True mid_def refl big] "1.prems" b by simp
    qed
  qed
qed

lemma ceil_sqrt_spec:
  "unat v \<le> unat (ceil_sqrt v) * unat (ceil_sqrt v)"
  "k < unat (ceil_sqrt v) \<Longrightarrow> k * k < unat v"
proof -
  have "unat v \<le> unat (ceil_sqrt v) * unat (ceil_sqrt v) \<and>
    (\<forall>k. k < unat (ceil_sqrt v) \<longrightarrow> k * k < unat v)"
  proof (cases "v \<le> 1")
    case True
    then have "unat v \<le> 1" by (simp add: word_le_nat_alt)
    then have "unat v = 0 \<or> unat v = 1" by linarith
    with True show ?thesis by (auto simp: ceil_sqrt_def)
  next
    case False
    then have "1 < unat v" by (simp add: word_le_nat_alt)
    with False show ?thesis
      using ceil_sqrt_loop_spec[of 1 v v] by (simp add: ceil_sqrt_def)
  qed
  then show "unat v \<le> unat (ceil_sqrt v) * unat (ceil_sqrt v)"
    and "k < unat (ceil_sqrt v) \<Longrightarrow> k * k < unat v" by auto
qed

text \<open>
  C34. The binary search of \<^verbatim>\<open>ceil_sqrt\<close> returns the integer square root rounded up for every
  128-bit input, the saturating square of a large midpoint included.
\<close>

theorem ceil_sqrt_least:
  "unat (ceil_sqrt v) = (LEAST r. unat v \<le> r * r)"
proof (rule sym, rule Least_equality)
  show "unat v \<le> unat (ceil_sqrt v) * unat (ceil_sqrt v)" by (rule ceil_sqrt_spec)
  show "unat (ceil_sqrt v) \<le> y" if "unat v \<le> y * y" for y
    using that ceil_sqrt_spec(2)[of y v] by (meson not_le)
qed

lemma ceil_sqrt_le: "unat v \<le> k * k \<Longrightarrow> unat (ceil_sqrt v) \<le> k"
  using ceil_sqrt_spec(2)[of k v] by (meson not_le)

lemma unat_ceil_div:
  assumes "b \<noteq> 0" and "unat a + unat b \<le> 2 ^ 128"
  shows "unat (ceil_div a b) = (unat a + unat b - 1) div unat b"
proof -
  have b: "0 < unat b" using assms(1) by (simp add: unat_gt_0)
  have a: "unat a = unat a div unat b * unat b + unat a mod unat b" by simp
  have lt: "unat a mod unat b < unat b" using b by simp
  have eq: "(unat a + unat b - 1) div unat b =
    (if 0 < unat a mod unat b then unat a div unat b + 1 else unat a div unat b)"
  proof (cases "unat a mod unat b = 0")
    case True
    then have "unat a + unat b - 1 = (unat b - 1) + unat a div unat b * unat b" using a b by linarith
    then show ?thesis using True b by (simp only: div_mult_self1) simp
  next
    case False
    then have "unat a + unat b - 1 = (unat a mod unat b - 1) + (unat a div unat b + 1) * unat b"
      using a b by (simp only: distrib_right)
    then show ?thesis using False b lt by (simp only: div_mult_self1) simp
  qed
  have fits: "0 < unat a mod unat b \<Longrightarrow> unat a div unat b + 1 < 2 ^ 128"
  proof -
    assume "0 < unat a mod unat b"
    then have "1 < unat b" using b by (metis less_one mod_by_1 mod_less_divisor nat_neq_iff)
    then have "unat a div unat b \<le> unat a div 2" by (simp add: div_le_mono2)
    then show ?thesis using unat_lt[of a] by simp
  qed
  show ?thesis
    unfolding eq using fits
    by (auto simp: ceil_div_def Let_def word_less_nat_alt unat_mod unat_div unat_word_ariths)
qed

text \<open>The budget over unbounded numbers: \<open>S\<close> slots, \<open>M\<close> members, a 2.33 sigma margin.\<close>

definition slot_budget_spec :: "nat \<Rightarrow> nat \<Rightarrow> nat" where
  "slot_budget_spec S M =
     (100 * S + 233 * (LEAST r. S * (M - 1) \<le> r * r) + 100 * M - 1) div (100 * M)"

lemma slot_budget_fits:
  fixes S M q :: nat
  assumes "S < 2 ^ 64" and "0 < M" and "S * (M - 1) \<le> q * q"
    and least: "\<And>k. S * (M - 1) \<le> k * k \<Longrightarrow> q \<le> k"
  shows "(100 * S + 233 * q + 100 * M - 1) div (100 * M) < 2 ^ 64"
proof -
  consider "M = 1" | "M = 2 \<or> M = 3" | "4 \<le> M" using assms(2) by linarith
  then have "100 * S + 233 * q + 100 * M - 1 < 2 ^ 64 * (100 * M)"
  proof cases
    case 1
    then have "q = 0" using least[of 0] by simp
    with 1 assms(1) show ?thesis by simp
  next
    case 2
    then have "S * (M - 1) \<le> 2 ^ 33 * 2 ^ 33" using assms(1) by auto
    then have "q \<le> 2 ^ 33" by (rule least)
    with 2 assms(1) show ?thesis by auto
  next
    case 3
    have "S * (M - 1) \<le> S * M" by simp
    also have "\<dots> \<le> (S + M) * (S + M)" by (simp add: algebra_simps)
    finally have "q \<le> S + M" by (rule least)
    with 3 assms(1) show ?thesis by simp
  qed
  then show ?thesis using assms(2) by (simp add: div_less_iff_less_mult)
qed

text \<open>The intermediate values of the budget, none of which overflows.\<close>

lemma slot_radicand:
  fixes sl mem :: u128
  assumes "unat sl < 2 ^ 64" and "0 < unat mem" and "unat mem < 2 ^ 64"
  obtains m1 rad where "checked_sub mem 1 = Some m1" and "checked_mul sl m1 = Some rad"
    and "unat rad = unat sl * (unat mem - 1)" and "unat (ceil_sqrt rad) \<le> 2 ^ 64"
proof -
  obtain m1 where m1: "checked_sub mem 1 = Some m1" and um1: "unat m1 = unat mem - 1"
    using assms by (auto simp: checked_sub_def word_le_nat_alt unat_sub)
  have "unat sl * (unat mem - 1) \<le> unat sl * unat mem" by simp
  also have "unat sl * unat mem < 2 ^ 64 * 2 ^ 64" using assms by (intro mult_strict_mono) auto
  finally have fits: "unat sl * (unat mem - 1) < 2 ^ 128" by simp
  then obtain rad where rad: "checked_mul sl m1 = Some rad" and urad: "unat rad = unat sl * (unat mem - 1)"
    using um1 by (auto simp: checked_mul_def unat_times_if_fits)
  have "unat (ceil_sqrt rad) \<le> 2 ^ 64" by (rule ceil_sqrt_le) (use fits urad in simp)
  with m1 rad urad show thesis by (rule that)
qed

lemma slot_quotient:
  fixes sl mem root :: u128
  assumes "unat sl < 2 ^ 64" and "0 < unat mem" and "unat mem < 2 ^ 64" and "unat root \<le> 2 ^ 64"
  obtains a b num den where "checked_mul sl SLOT_BUDGET_Z_SCORE_DENOMINATOR = Some a"
    and "checked_mul SLOT_BUDGET_Z_SCORE_NUMERATOR root = Some b" and "checked_add a b = Some num"
    and "checked_mul SLOT_BUDGET_Z_SCORE_DENOMINATOR mem = Some den"
    and "unat (ceil_div num den) = (100 * unat sl + 233 * unat root + 100 * unat mem - 1) div (100 * unat mem)"
proof -
  obtain a where a: "checked_mul sl SLOT_BUDGET_Z_SCORE_DENOMINATOR = Some a" and ua: "unat a = 100 * unat sl"
    using assms by (auto simp: checked_mul_def funding_consts unat_times_if_fits)
  obtain b where b: "checked_mul SLOT_BUDGET_Z_SCORE_NUMERATOR root = Some b" and ub: "unat b = 233 * unat root"
    using assms by (auto simp: checked_mul_def funding_consts unat_times_if_fits)
  obtain num where num: "checked_add a b = Some num" and unum: "unat num = 100 * unat sl + 233 * unat root"
    using ua ub assms by (auto simp: checked_add_def unat_plus_if_fits)
  obtain den where den: "checked_mul SLOT_BUDGET_Z_SCORE_DENOMINATOR mem = Some den" and uden: "unat den = 100 * unat mem"
    using assms by (auto simp: checked_mul_def funding_consts unat_times_if_fits)
  have "den \<noteq> 0" using uden assms by auto
  moreover have "unat num + unat den \<le> 2 ^ 128" using unum uden assms by simp
  ultimately have "unat (ceil_div num den) = (100 * unat sl + 233 * unat root + 100 * unat mem - 1) div (100 * unat mem)"
    by (simp add: unat_ceil_div unum uden)
  with a b num den show thesis by (rule that)
qed

lemma checked_budgeted_slot_count_eq:
  assumes M: "M = max 1 (unat m)"
  shows "\<exists>n. checked_budgeted_slot_count s m = Some n \<and> unat n = slot_budget_spec (unat s) M"
proof (cases "unat s = 0")
  case True
  have "(LEAST r::nat. 0 \<le> r * r) = 0" by (rule Least_equality) auto
  then have "slot_budget_spec (unat s) M = 0" using True M by (simp add: slot_budget_spec_def)
  then show ?thesis using True by (simp add: checked_budgeted_slot_count_def Let_def unsigned_eq_0_iff)
next
  case False
  define sl :: u128 where "sl = ucast s"
  define mem :: u128 where "mem = ucast (max m 1)"
  have S: "unat sl = unat s" by (simp add: sl_def unat_ucast_up)
  have memM: "unat mem = M" by (simp add: mem_def unat_ucast_up M max_def word_le_nat_alt)
  have bounds: "unat sl < 2 ^ 64" "0 < unat mem" "unat mem < 2 ^ 64"
    using unat_lt[of m] unat_lt[of s] by (auto simp: M S memM)
  obtain m1 rad where rad: "checked_sub mem 1 = Some m1" "checked_mul sl m1 = Some rad"
    and urad: "unat rad = unat s * (M - 1)" and root: "unat (ceil_sqrt rad) \<le> 2 ^ 64"
    using slot_radicand [OF bounds] unfolding S memM by blast
  obtain a b num den where quot: "checked_mul sl SLOT_BUDGET_Z_SCORE_DENOMINATOR = Some a"
      "checked_mul SLOT_BUDGET_Z_SCORE_NUMERATOR (ceil_sqrt rad) = Some b" "checked_add a b = Some num"
      "checked_mul SLOT_BUDGET_Z_SCORE_DENOMINATOR mem = Some den"
    and uq: "unat (ceil_div num den) = (100 * unat s + 233 * unat (ceil_sqrt rad) + 100 * M - 1) div (100 * M)"
    using slot_quotient [OF bounds root] unfolding S memM by blast
  have q: "(LEAST r. unat s * (M - 1) \<le> r * r) = unat (ceil_sqrt rad)"
    unfolding urad[symmetric] by (rule Least_equality) (use ceil_sqrt_spec(1)[of rad] ceil_sqrt_le[of rad] in auto)
  have fits: "unat (ceil_div num den) < 2 ^ 64"
    unfolding uq by (rule slot_budget_fits)
      (use bounds S memM ceil_sqrt_le[of rad] ceil_sqrt_spec(1)[of rad] in \<open>auto simp: urad\<close>)
  have "sl \<noteq> 0" using False S by auto
  then have "checked_budgeted_slot_count s m = Some (ucast (ceil_div num den))"
    unfolding checked_budgeted_slot_count_def Let_def sl_def[symmetric] mem_def[symmetric]
    using fits by (simp add: rad quot)
  moreover have "unat (ucast (ceil_div num den) :: u64) = unat (ceil_div num den)"
    using fits by (simp add: unsigned_ucast_eq take_bit_nat_eq_self)
  ultimately show ?thesis by (simp add: uq slot_budget_spec_def q [simplified])
qed

text \<open>
  C35. The \<^verbatim>\<open>expect\<close> of \<^verbatim>\<open>budgeted_slot_count\<close> never panics: for every number of slots and of
  members the budget is computed without overflow, equals the unbounded formula, and the
  budgets of all members together cover every slot of the package.
\<close>

theorem budgeted_slot_count_total:
  "\<exists>n. budgeted_slot_count s m = Some n \<and>
       unat n = slot_budget_spec (unat s) (max 1 (unat m)) \<and>
       unat s \<le> unat n * max 1 (unat m)"
proof -
  define M where "M = max 1 (unat m)"
  obtain n where n: "checked_budgeted_slot_count s m = Some n"
    and un: "unat n = slot_budget_spec (unat s) M"
    using checked_budgeted_slot_count_eq[OF M_def] by blast
  have "0 < M" by (simp add: M_def)
  moreover have "(100 * unat s + 100 * M - 1) div (100 * M) \<le> unat n"
    unfolding un slot_budget_spec_def by (rule div_le_mono) simp
  moreover have "100 * unat s \<le> (100 * unat s + 100 * M - 1) div (100 * M) * (100 * M)"
    using \<open>0 < M\<close> dividend_less_times_div[of "100 * M" "100 * unat s + 100 * M - 1"]
    by (simp add: algebra_simps)
  ultimately have "100 * unat s \<le> unat n * (100 * M)"
    by (meson le_trans mult_le_mono1)
  then have "unat s \<le> unat n * M" by simp
  with n un show ?thesis by (simp add: budgeted_slot_count_def M_def)
qed

lemma budgeted_slot_count_Some: "\<exists>n. budgeted_slot_count s m = Some n"
  using checked_budgeted_slot_count_eq[OF refl] by (auto simp: budgeted_slot_count_def)

text \<open>
  The RSK balance asked of a member is always computed, covers the minimum deposit and
  is never below the baseline \<^verbatim>\<open>required_rsk_balance\<close>; a sum beyond 256 bits saturates
  instead of wrapping.
\<close>

theorem required_member_rsk_balance_covers:
  "\<exists>r. required_member_rsk_balance d s m = Some r \<and>
       d \<le> r \<and> required_rsk_balance d \<le> r \<and>
       (r = - 1 \<or> unat d + 10 ^ 16 \<le> unat r)"
proof -
  obtain n where n: "budgeted_slot_count s m = Some n" using budgeted_slot_count_Some by blast
  define pct where "pct = saturating_mul d (ucast RSK_GAS_BUFFER_PERCENT) div 100"
  define res where "res = saturating_add (ucast MEMBER_RSK_SETUP_RESERVE_WEI)
    (saturating_mul (ucast MEMBER_RSK_RESERVE_PER_SLOT_WEI) (ucast n :: u256))"
  have r: "required_member_rsk_balance d s m = Some (saturating_add d (max pct res))"
    by (simp add: required_member_rsk_balance_def n pct_def res_def Let_def)
  have base: "required_rsk_balance d = saturating_add d pct"
    by (simp add: required_rsk_balance_def pct_def Let_def)
  have mx: "unat pct \<le> unat (max pct res)" "unat res \<le> unat (max pct res)"
    by (simp_all add: word_le_nat_alt[symmetric])
  have res: "10 ^ 16 \<le> unat res"
    by (simp add: res_def unat_saturating_add funding_consts)
  have "saturating_add d (max pct res) = - 1 \<or>
        unat d + 10 ^ 16 \<le> unat (saturating_add d (max pct res))"
    using mx res by (auto simp: unat_saturating_add saturating_add_def unat_plus_if_fits)
  then show ?thesis
    using mx unat_lt[of d] by (auto simp: r base word_le_nat_alt unat_saturating_add)
qed

end
