(* ===== verification/Rsk_Header.thy ===== *)
theory Rsk_Header
  imports UB_Prelude
begin

text \<open>
  Rootstock block headers as the fork check hashes them:
  \<^verbatim>\<open>crates/check-fork/src/rlp.rs\<close> and the hashing half of
  \<^verbatim>\<open>crates/check-fork/src/block_header.rs\<close>. The crates \<^verbatim>\<open>alloy_rlp\<close> and \<^verbatim>\<open>sha3\<close> are not part
  of the repository: what the code calls of them is the record \<open>hash_ops\<close>, an argument of
  the definitions, and the documented laws of RLP are the locale \<open>rlp_codec\<close>. The lemmas
  show that an encoded header determines every field that goes into it, so that the block
  hash commits to the fields, the base event included.
\<close>

section \<open>The external encoders\<close>

record hash_ops =
  keccak256 :: "bytes \<Rightarrow> h256"
  rlp_str :: "bytes \<Rightarrow> bytes"
  rlp_uint :: "nat \<Rightarrow> bytes"
  rlp_list_header :: "nat \<Rightarrow> bytes"

text \<open>
  RLP items carry their length, so an item can be split off the front of any byte string
  in one way only. The laws are stated for lengths a \<^verbatim>\<open>usize\<close> can hold.
\<close>

locale rlp_codec =
  fixes ops :: hash_ops
  assumes str_split: "length a < 2 ^ 64 \<Longrightarrow> length b < 2 ^ 64 \<Longrightarrow>
      rlp_str ops a @ x = rlp_str ops b @ y \<Longrightarrow> a = b \<and> x = y"
    and uint_split: "m < 2 ^ 64 \<Longrightarrow> n < 2 ^ 64 \<Longrightarrow>
      rlp_uint ops m @ x = rlp_uint ops n @ y \<Longrightarrow> m = n \<and> x = y"
    and header_split: "m < 2 ^ 64 \<Longrightarrow> n < 2 ^ 64 \<Longrightarrow>
      rlp_list_header ops m @ x = rlp_list_header ops n @ y \<Longrightarrow> m = n \<and> x = y"
    and str_length: "length a < 2 ^ 64 \<Longrightarrow> length (rlp_str ops a) \<le> length a + 9"
    and uint_length: "n < 2 ^ 64 \<Longrightarrow> length (rlp_uint ops n) \<le> 9"
    and header_length: "n < 2 ^ 64 \<Longrightarrow> length (rlp_list_header ops n) \<le> 9"

section \<open>Coin values (rlp.rs)\<close>

definition u256_be_trimmed :: "u256 \<Rightarrow> bytes" where
  "u256_be_trimmed v =
     (let buf = be_word 32 v; first_non_zero = length (takeWhile (\<lambda>b. b = 0) buf)
      in drop first_non_zero buf)"

definition u256_be_coin_bytes :: "u256 \<Rightarrow> bytes" where
  "u256_be_coin_bytes v = (if v = 0 then [] else u256_be_trimmed v)"

definition encode_coin_value :: "hash_ops \<Rightarrow> u256 \<Rightarrow> bytes" where
  "encode_coin_value ops v = rlp_str ops (u256_be_coin_bytes v)"

definition encode_signed_coin_value :: "hash_ops \<Rightarrow> u256 \<Rightarrow> bytes" where
  "encode_signed_coin_value ops v =
     (let bs = u256_be_coin_bytes v;
          bs' = (case bs of [] \<Rightarrow> bs | b # _ \<Rightarrow> if 0x80 \<le> b then 0 # bs else bs)
      in rlp_str ops bs')"

definition encode_signed_coin_value_as_byte :: "hash_ops \<Rightarrow> u256 \<Rightarrow> bytes" where
  "encode_signed_coin_value_as_byte ops v =
     (if v = 0 then rlp_str ops [0] else encode_signed_coin_value ops v)"

section \<open>Block headers (block\_header.rs)\<close>

text \<open>
  One constructor per error message of the crate, the messages of \<^verbatim>\<open>lib.rs\<close> included.
\<close>

datatype fork_error =
    MinimumGasPriceIsNone
  | UnsupportedHeaderVersion
  | UnsupportedExtensionData
  | BaseEventTooLong
  | PteEdgesLengthOverflow
  | PteEdgesTooLong
  | PegoutIdVersionMismatch
  | InvalidRequiredBlocks
  | NoContinuationBlock
  | InsufficientBlocks
  | FirstTimestampTooLow
  | FirstNumberTooLow
  | FirstHasBaseEvent
  | MissingBaseEvent
  | TimestampNotIncreasing
  | BlockNumberOverflow
  | NumbersNotConsecutive
  | InvalidParentLinkage
  | UncleNumberMismatch
  | UncleParentMismatch
  | UncleDifficultyMismatch
  | DifficultyMulOverflow
  | DifficultyOutOfBounds
  | ZeroPow
  | EffortOverflow
  | EventNeedsVersion2
  | HeaderHashMismatch
  | CumulativePowTooLow

definition RSK_HEADER_EXTENSION_TYPE_V1 :: u8 where "RSK_HEADER_EXTENSION_TYPE_V1 = 1"
definition RSK_HEADER_EXTENSION_TYPE_V2 :: u8 where "RSK_HEADER_EXTENSION_TYPE_V2 = 2"
definition BASE_EVENT_MAX_SIZE :: nat where "BASE_EVENT_MAX_SIZE = 128"
definition MAX_RSK_PTE_EDGES :: nat where "MAX_RSK_PTE_EDGES = 0"

lemmas header_consts = RSK_HEADER_EXTENSION_TYPE_V1_def RSK_HEADER_EXTENSION_TYPE_V2_def
  BASE_EVENT_MAX_SIZE_def MAX_RSK_PTE_EDGES_def

record rsk_block_header =
  h_number :: u64
  h_hash :: h256
  h_parent :: h256
  h_difficulty :: u256
  h_timestamp :: u64
  h_uncles_hash :: h256
  h_coinbase :: h160
  h_state_root :: h256
  h_tx_trie_root :: h256
  h_receipt_trie_root :: h256
  h_extension_data :: bytes
  h_gas_limit :: bytes
  h_gas_used :: u64
  h_extra_data :: bytes
  h_paid_fees :: u256
  h_minimum_gas_price :: "u256 option"
  h_uncles :: "h256 list"
  h_rsk_pte_edges :: "u16 list option"
  h_version :: u8
  h_base_event :: "bytes option"
  h_bitcoin_merged_mining_header :: bytes

definition default_header :: rsk_block_header where
  "default_header = \<lparr> h_number = 0, h_hash = 0, h_parent = 0, h_difficulty = 0, h_timestamp = 0,
     h_uncles_hash = 0, h_coinbase = 0, h_state_root = 0, h_tx_trie_root = 0,
     h_receipt_trie_root = 0, h_extension_data = replicate 256 0, h_gas_limit = [0],
     h_gas_used = 0, h_extra_data = [], h_paid_fees = 0, h_minimum_gas_price = Some 0,
     h_uncles = [], h_rsk_pte_edges = None, h_version = 1, h_base_event = None,
     h_bitcoin_merged_mining_header = replicate 80 0 \<rparr>"

definition encode_list :: "hash_ops \<Rightarrow> bytes list \<Rightarrow> bytes" where
  "encode_list ops rlp_list =
     (let payload_length = sum_list (map length rlp_list)
      in rlp_list_header ops payload_length @ concat rlp_list)"

definition logs_bloom_v0 :: "rsk_block_header \<Rightarrow> fork_error + bytes" where
  "logs_bloom_v0 h =
     (if length (h_extension_data h) \<noteq> 256 then Inl UnsupportedExtensionData
      else Inr (h_extension_data h))"

definition le_bytes_u16 :: "u16 \<Rightarrow> bytes" where
  "le_bytes_u16 e = rev (be_word 2 e)"

definition encoded_rsk_pte_edges ::
  "hash_ops \<Rightarrow> rsk_block_header \<Rightarrow> fork_error + bytes option" where
  "encoded_rsk_pte_edges ops h =
     (case h_rsk_pte_edges h of
        None \<Rightarrow> Inr None
      | Some edges \<Rightarrow>
          if 2 ^ 64 \<le> length edges * 2 then Inl PteEdgesLengthOverflow
          else if MAX_RSK_PTE_EDGES < length edges * 2 then Inl PteEdgesTooLong
          else Inr (Some (rlp_str ops (concat (map le_bytes_u16 edges)))))"

text \<open>The list whose hash stands for the extension data.\<close>

definition extension_for_hash ::
  "hash_ops \<Rightarrow> bytes \<Rightarrow> bytes list \<Rightarrow> bytes option \<Rightarrow> bytes" where
  "extension_for_hash ops logs_bloom extra_fields edges_field =
     (let logs_bloom_hash = be_word 32 (keccak256 ops logs_bloom);
          fields = rlp_str ops logs_bloom_hash # extra_fields;
          fields' = (case edges_field of Some e \<Rightarrow> fields @ [e] | None \<Rightarrow> fields)
      in encode_list ops fields')"

definition compressed_extension_data ::
  "hash_ops \<Rightarrow> rsk_block_header \<Rightarrow> u8 \<Rightarrow> bytes list \<Rightarrow> fork_error + bytes" where
  "compressed_extension_data ops h extension_type extra_fields =
     res_bind (logs_bloom_v0 h) (\<lambda>logs_bloom.
     res_bind (encoded_rsk_pte_edges ops h) (\<lambda>edges_field.
     let extension_hash =
           be_word 32 (keccak256 ops (extension_for_hash ops logs_bloom extra_fields edges_field))
     in Inr (encode_list ops [rlp_uint ops (unat extension_type), rlp_str ops extension_hash])))"

definition compressed_extension_data_v1 ::
  "hash_ops \<Rightarrow> rsk_block_header \<Rightarrow> fork_error + bytes" where
  "compressed_extension_data_v1 ops h =
     compressed_extension_data ops h RSK_HEADER_EXTENSION_TYPE_V1 []"

definition base_event_bytes :: "rsk_block_header \<Rightarrow> bytes" where
  "base_event_bytes h = (case h_base_event h of None \<Rightarrow> [] | Some e \<Rightarrow> e)"

definition compressed_extension_data_v2 ::
  "hash_ops \<Rightarrow> rsk_block_header \<Rightarrow> fork_error + bytes" where
  "compressed_extension_data_v2 ops h =
     (if BASE_EVENT_MAX_SIZE < length (base_event_bytes h) then Inl BaseEventTooLong
      else compressed_extension_data ops h RSK_HEADER_EXTENSION_TYPE_V2
             [rlp_str ops (base_event_bytes h)])"

definition umm_root :: "rsk_block_header \<Rightarrow> bytes" where
  "umm_root h = []"

definition extension_field :: "hash_ops \<Rightarrow> rsk_block_header \<Rightarrow> fork_error + bytes" where
  "extension_field ops h =
     (if h_version h = RSK_HEADER_EXTENSION_TYPE_V2 then compressed_extension_data_v2 ops h
      else if h_version h = RSK_HEADER_EXTENSION_TYPE_V1 \<and> h_rsk_pte_edges h \<noteq> None
        then compressed_extension_data_v1 ops h
      else if h_version h = RSK_HEADER_EXTENSION_TYPE_V1 then logs_bloom_v0 h
      else Inl UnsupportedHeaderVersion)"

definition encoded_fields ::
  "hash_ops \<Rightarrow> rsk_block_header \<Rightarrow> u256 \<Rightarrow> bytes \<Rightarrow> bytes list" where
  "encoded_fields ops h minimum_gas_price ext =
       [ rlp_str ops (be_word 32 (h_parent h)),
         rlp_str ops (be_word 32 (h_uncles_hash h)),
         rlp_str ops (be_word 20 (h_coinbase h)),
         rlp_str ops (be_word 32 (h_state_root h)),
         rlp_str ops (be_word 32 (h_tx_trie_root h)),
         rlp_str ops (be_word 32 (h_receipt_trie_root h)),
         rlp_str ops ext,
         encode_coin_value ops (h_difficulty h),
         rlp_uint ops (unat (h_number h)),
         rlp_str ops (h_gas_limit h),
         rlp_uint ops (unat (h_gas_used h)),
         rlp_uint ops (unat (h_timestamp h)),
         rlp_str ops (h_extra_data h),
         encode_coin_value ops (h_paid_fees h),
         encode_signed_coin_value_as_byte ops minimum_gas_price,
         rlp_uint ops (length (h_uncles h)),
         rlp_str ops (umm_root h),
         rlp_str ops (h_bitcoin_merged_mining_header h) ]"

definition encode_rlp :: "hash_ops \<Rightarrow> rsk_block_header \<Rightarrow> fork_error + bytes" where
  "encode_rlp ops h =
     res_bind (ok_or (h_minimum_gas_price h) MinimumGasPriceIsNone) (\<lambda>minimum_gas_price.
     res_bind (extension_field ops h) (\<lambda>ext.
     Inr (encode_list ops (encoded_fields ops h minimum_gas_price ext))))"

definition calculate_block_hash :: "hash_ops \<Rightarrow> rsk_block_header \<Rightarrow> fork_error + h256" where
  "calculate_block_hash ops h =
     res_bind (encode_rlp ops h) (\<lambda>rlp_encoded. Inr (keccak256 ops rlp_encoded))"

section \<open>Coin values are canonical big-endian numbers\<close>

lemma be_val_dropWhile: "be_val (dropWhile (\<lambda>b. b = 0) bs) = be_val bs"
  by (induction bs) (auto simp: be_val_Cons)

lemma takeWhile_dropWhile_Nil: "takeWhile P (dropWhile P xs) = []"
  by (induction xs) auto

lemma u256_be_trimmed_dropWhile: "u256_be_trimmed v = dropWhile (\<lambda>b. b = 0) (be_word 32 v)"
  by (simp add: u256_be_trimmed_def dropWhile_eq_drop Let_def)

lemma be_val_trimmed [be_simps]: "be_val (u256_be_trimmed v) = unat v"
  by (simp add: u256_be_trimmed_dropWhile be_val_dropWhile be_val_be_word)

lemma be_val_coin_bytes [be_simps]: "be_val (u256_be_coin_bytes v) = unat v"
  by (simp add: u256_be_coin_bytes_def be_simps)

lemma length_coin_bytes: "length (u256_be_coin_bytes v) \<le> 32"
proof -
  have "length (dropWhile (\<lambda>b. b = 0) (be_word 32 v)) \<le> length (be_word 32 v)"
    by (rule length_dropWhile_le)
  then show ?thesis by (simp add: u256_be_coin_bytes_def u256_be_trimmed_dropWhile)
qed

lemma coin_bytes_inj: "u256_be_coin_bytes v = u256_be_coin_bytes w \<longleftrightarrow> v = w"
  by (metis be_val_coin_bytes word_unat_eq_iff)

text \<open>The signed form differs from the plain one by a zero byte at most.\<close>

definition signed_coin_bytes :: "u256 \<Rightarrow> bytes" where
  "signed_coin_bytes v =
     (if v = 0 then [0]
      else case u256_be_coin_bytes v of
          [] \<Rightarrow> []
        | b # bs \<Rightarrow> if 0x80 \<le> b then 0 # b # bs else b # bs)"

lemma encode_signed_as_byte:
  "encode_signed_coin_value_as_byte ops v = rlp_str ops (signed_coin_bytes v)"
  by (simp add: encode_signed_coin_value_as_byte_def encode_signed_coin_value_def
      signed_coin_bytes_def Let_def split: list.splits)

lemma signed_coin_bytes_eq:
  "signed_coin_bytes v = u256_be_coin_bytes v \<or> signed_coin_bytes v = 0 # u256_be_coin_bytes v"
  by (auto simp: signed_coin_bytes_def u256_be_coin_bytes_def split: list.splits)

lemma be_val_signed [be_simps]: "be_val (signed_coin_bytes v) = unat v"
  using signed_coin_bytes_eq[of v] by (auto simp: be_simps)

lemma length_signed: "length (signed_coin_bytes v) \<le> 33"
  using signed_coin_bytes_eq[of v] length_coin_bytes[of v] by auto

lemma signed_coin_bytes_inj: "signed_coin_bytes v = signed_coin_bytes w \<longleftrightarrow> v = w"
  by (metis be_val_signed word_unat_eq_iff)

text \<open>
  The trimmed bytes of a coin value are its canonical big-endian number: they read back
  as the value, carry no leading zero byte, and are empty exactly for zero.
\<close>

theorem coin_bytes_canonical:
  "be_val (u256_be_coin_bytes v) = unat v \<and>
   (u256_be_coin_bytes v = [] \<longleftrightarrow> v = 0) \<and>
   takeWhile (\<lambda>b. b = 0) (u256_be_coin_bytes v) = []"
proof -
  have "takeWhile (\<lambda>b. b = 0) (u256_be_coin_bytes v) = []"
    by (simp add: u256_be_coin_bytes_def u256_be_trimmed_dropWhile takeWhile_dropWhile_Nil)
  moreover have "u256_be_coin_bytes v = [] \<longleftrightarrow> v = 0"
    by (metis be_val_Nil be_val_coin_bytes unsigned_eq_0_iff u256_be_coin_bytes_def)
  ultimately show ?thesis by (simp add: be_val_coin_bytes)
qed

section \<open>What an encoding determines\<close>

text \<open>
  Sizes that real headers satisfy: every variable-length field is shorter than 4 GiB.
\<close>

definition header_sized :: "rsk_block_header \<Rightarrow> bool" where
  "header_sized h \<longleftrightarrow>
     length (h_extension_data h) < 2 ^ 32 \<and> length (h_gas_limit h) < 2 ^ 32 \<and>
     length (h_extra_data h) < 2 ^ 32 \<and> length (h_uncles h) < 2 ^ 32 \<and>
     length (h_bitcoin_merged_mining_header h) < 2 ^ 32"

text \<open>The fields of a header that its encoding contains, the extension field aside.\<close>

definition header_core_eq :: "rsk_block_header \<Rightarrow> rsk_block_header \<Rightarrow> bool" where
  "header_core_eq h g \<longleftrightarrow>
     h_parent h = h_parent g \<and> h_uncles_hash h = h_uncles_hash g \<and>
     h_coinbase h = h_coinbase g \<and> h_state_root h = h_state_root g \<and>
     h_tx_trie_root h = h_tx_trie_root g \<and> h_receipt_trie_root h = h_receipt_trie_root g \<and>
     h_difficulty h = h_difficulty g \<and> h_number h = h_number g \<and>
     h_gas_limit h = h_gas_limit g \<and> h_gas_used h = h_gas_used g \<and>
     h_timestamp h = h_timestamp g \<and> h_extra_data h = h_extra_data g \<and>
     h_paid_fees h = h_paid_fees g \<and> h_minimum_gas_price h = h_minimum_gas_price g \<and>
     length (h_uncles h) = length (h_uncles g) \<and>
     h_bitcoin_merged_mining_header h = h_bitcoin_merged_mining_header g"

text \<open>Every byte string that hashing the header feeds to Keccak.\<close>

definition header_preimages :: "hash_ops \<Rightarrow> rsk_block_header \<Rightarrow> bytes list" where
  "header_preimages ops h =
     (case encode_rlp ops h of Inl _ \<Rightarrow> [] | Inr e \<Rightarrow> [e]) @ [h_extension_data h] @
     (case encoded_rsk_pte_edges ops h of
        Inl _ \<Rightarrow> []
      | Inr ed \<Rightarrow> [extension_for_hash ops (h_extension_data h)
           (if h_version h = RSK_HEADER_EXTENSION_TYPE_V2 then [rlp_str ops (base_event_bytes h)]
            else []) ed])"

text \<open>
  Everything the block hash is meant to commit to. A version 1 header does not hash its
  base event; the fork check refuses such a header when it carries one.
\<close>

definition header_committed_eq :: "rsk_block_header \<Rightarrow> rsk_block_header \<Rightarrow> bool" where
  "header_committed_eq h g \<longleftrightarrow>
     header_core_eq h g \<and> h_version h = h_version g \<and>
     h_extension_data h = h_extension_data g \<and> h_rsk_pte_edges h = h_rsk_pte_edges g \<and>
     (h_version h = RSK_HEADER_EXTENSION_TYPE_V2 \<longrightarrow> base_event_bytes h = base_event_bytes g)"

context rlp_codec
begin

lemma str_peel:
  "length a < 2 ^ 64 \<Longrightarrow> length b < 2 ^ 64 \<Longrightarrow>
     rlp_str ops a @ x = rlp_str ops b @ y \<longleftrightarrow> a = b \<and> x = y"
  using str_split by blast

lemma str_inj: "length a < 2 ^ 64 \<Longrightarrow> length b < 2 ^ 64 \<Longrightarrow> rlp_str ops a = rlp_str ops b \<longleftrightarrow> a = b"
  using str_split[of a b "[]" "[]"] by auto

lemma uint_peel:
  "m < 2 ^ 64 \<Longrightarrow> n < 2 ^ 64 \<Longrightarrow>
     rlp_uint ops m @ x = rlp_uint ops n @ y \<longleftrightarrow> m = n \<and> x = y"
  using uint_split by blast

lemma encode_list_inj:
  assumes "sum_list (map length fs) < 2 ^ 64" and "sum_list (map length gs) < 2 ^ 64"
    and "encode_list ops fs = encode_list ops gs"
  shows "concat fs = concat gs"
  using header_split[OF assms(1,2)] assms(3) by (simp add: encode_list_def Let_def)

lemma length_encode_list:
  assumes "sum_list (map length fs) < 2 ^ 64"
  shows "length (encode_list ops fs) \<le> sum_list (map length fs) + 9"
  using header_length[OF assms] by (simp add: encode_list_def Let_def length_concat)

lemma length_compressed:
  assumes "compressed_extension_data ops h t fs = Inr e"
  shows "length e \<le> 59"
proof -
  obtain hh where e: "e = encode_list ops [rlp_uint ops (unat t), rlp_str ops (be_word 32 (hh :: h256))]"
    using assms by (auto simp: compressed_extension_data_def res_simps Let_def)
  have "unat t < 2 ^ 64" using unat_lt[of t] by simp
  then have u: "length (rlp_uint ops (unat t)) \<le> 9" by (rule uint_length)
  have s: "length (rlp_str ops (be_word 32 hh)) \<le> 41" using str_length[of "be_word 32 hh"] by simp
  show ?thesis unfolding e
    using length_encode_list[of "[rlp_uint ops (unat t), rlp_str ops (be_word 32 hh)]"] u s by simp
qed

lemma length_extension_field:
  assumes "extension_field ops h = Inr e"
  shows "length e \<le> 256"
proof -
  have "length e \<le> 59 \<or> length e = 256"
    using assms length_compressed
    by (auto simp: extension_field_def logs_bloom_v0_def compressed_extension_data_v1_def
        compressed_extension_data_v2_def split: if_splits)
  then show ?thesis by auto
qed

text \<open>Header encodings: one list of items, split field by field.\<close>

lemma encoded_fields_sized:
  assumes "header_sized h" and "length e \<le> 256"
  shows "sum_list (map length (encoded_fields ops h p e)) < 2 ^ 64"
proof -
  have str: "length (rlp_str ops a) \<le> 2 ^ 33" if "length a \<le> 2 ^ 32" for a
    using str_length[of a] that by simp
  have uint: "length (rlp_uint ops k) \<le> 2 ^ 33" if "k < 2 ^ 64" for k
    using uint_length[OF that] by simp
  have coin: "length (encode_coin_value ops v) \<le> 2 ^ 33" for v
    unfolding encode_coin_value_def using length_coin_bytes[of v] by (intro str) simp
  have signed: "length (encode_signed_coin_value_as_byte ops v) \<le> 2 ^ 33" for v
    unfolding encode_signed_as_byte using length_signed[of v] by (intro str) simp
  have "length x \<le> 2 ^ 33" if "x \<in> set (encoded_fields ops h p e)" for x
    using that assms unfolding encoded_fields_def header_sized_def umm_root_def set_simps
    by (elim insertE emptyE; simp only:; intro str uint coin signed) (auto simp: unat_lt_num)
  then have "sum_list (map length (encoded_fields ops h p e)) \<le>
      length (encoded_fields ops h p e) * 2 ^ 33"
    by (rule sum_list_length_bound)
  then show ?thesis by (simp add: encoded_fields_def)
qed

lemma encoded_fields_determine:
  assumes "concat (encoded_fields ops h p x) = concat (encoded_fields ops g q y)"
    and "header_sized h" "header_sized g" and "length x \<le> 256" "length y \<le> 256"
    and "h_minimum_gas_price h = Some p" "h_minimum_gas_price g = Some q"
  shows "header_core_eq h g \<and> x = y"
proof -
  have lens: "length (u256_be_coin_bytes v) < 18446744073709551616"
    "length (signed_coin_bytes v) < 18446744073709551616" for v
    using length_coin_bytes[of v] length_signed[of v] by simp_all
  show ?thesis
    using assms
    by (simp add: encoded_fields_def encode_coin_value_def encode_signed_as_byte str_peel str_inj
        uint_peel lens unat_lt_num word_unat_eq_iff [symmetric] header_sized_def umm_root_def coin_bytes_inj signed_coin_bytes_inj
        header_core_eq_def)
qed

lemma encode_rlp_determines:
  assumes h: "encode_rlp ops h = Inr e" and g: "encode_rlp ops g = Inr e"
    and sized: "header_sized h" "header_sized g"
  shows "header_core_eq h g" and "extension_field ops h = extension_field ops g"
proof -
  obtain p x where p: "h_minimum_gas_price h = Some p" and x: "extension_field ops h = Inr x"
    and ex: "e = encode_list ops (encoded_fields ops h p x)"
    using h by (auto simp: encode_rlp_def res_simps)
  obtain q y where q: "h_minimum_gas_price g = Some q" and y: "extension_field ops g = Inr y"
    and ey: "e = encode_list ops (encoded_fields ops g q y)"
    using g by (auto simp: encode_rlp_def res_simps)
  note lx = length_extension_field[OF x] and ly = length_extension_field[OF y]
  have "concat (encoded_fields ops h p x) = concat (encoded_fields ops g q y)"
    using encode_list_inj encoded_fields_sized sized lx ly ex ey by metis
  then have "header_core_eq h g \<and> x = y"
    using sized lx ly p q by (rule encoded_fields_determine)
  then show "header_core_eq h g" and "extension_field ops h = extension_field ops g"
    using x y by auto
qed

lemma str_nonempty: "rlp_str ops [] \<noteq> []"
  using str_split[of "[]" "[0]" "rlp_str ops [0]" "[]"] by auto

lemma edges_cases:
  assumes "encoded_rsk_pte_edges ops h = Inr ed"
  shows "(h_rsk_pte_edges h = None \<and> ed = None) \<or>
         (h_rsk_pte_edges h = Some [] \<and> ed = Some (rlp_str ops []))"
  using assms
  by (auto simp: encoded_rsk_pte_edges_def MAX_RSK_PTE_EDGES_def split: option.splits if_splits)

lemma extension_for_hash_determines:
  assumes eq: "extension_for_hash ops a (map (rlp_str ops) xs) ed =
      extension_for_hash ops b (map (rlp_str ops) ys) fd"
    and xs: "length xs = length ys" "length xs \<le> 1" "\<forall>x \<in> set xs \<union> set ys. length x < 2 ^ 32"
    and ed: "ed \<in> {None, Some (rlp_str ops [])}" "fd \<in> {None, Some (rlp_str ops [])}"
  shows "keccak256 ops a = keccak256 ops b" and "xs = ys" and "ed = fd"
proof -
  define F where "F c zs d = rlp_str ops (be_word 32 (keccak256 ops c)) # map (rlp_str ops) zs @
      (case d of None \<Rightarrow> [] | Some e \<Rightarrow> [e])" for c zs d
  have enc: "extension_for_hash ops c (map (rlp_str ops) zs) d = encode_list ops (F c zs d)" for c zs d
    by (simp add: extension_for_hash_def F_def Let_def split: option.splits)
  have sized: "sum_list (map length (F c zs d)) < 2 ^ 64"
    if "length zs \<le> 1" "\<forall>z \<in> set zs. length z < 2 ^ 32" "d \<in> {None, Some (rlp_str ops [])}"
    for c zs d
  proof -
    have "length (rlp_str ops z) \<le> 2 ^ 33" if "length z < 2 ^ 32" for z
      using str_length[of z] that by simp
    then have "length x \<le> 2 ^ 33" if "x \<in> set (F c zs d)" for x
      using that \<open>\<forall>z \<in> set zs. length z < 2 ^ 32\<close> \<open>d \<in> {None, Some (rlp_str ops [])}\<close>
      by (auto simp: F_def)
    then have "sum_list (map length (F c zs d)) \<le> length (F c zs d) * 2 ^ 33"
      by (rule sum_list_length_bound)
    moreover have "length (F c zs d) \<le> 3" using that(1) by (auto simp: F_def split: option.splits)
    ultimately show ?thesis by simp
  qed
  have cat: "concat (F a xs ed) = concat (F b ys fd)"
    by (rule encode_list_inj[OF sized sized]) (use eq xs ed in \<open>auto simp: enc\<close>)
  have "keccak256 ops a = keccak256 ops b \<and> xs = ys \<and> ed = fd"
  proof (cases xs)
    case Nil
    with xs(1) have "ys = []" by simp
    with cat Nil ed str_nonempty show ?thesis
      by (auto simp: F_def str_peel str_inj dest: str_split[of _ _ "[]", simplified]
          split: option.splits)
  next
    case (Cons x zs)
    with xs obtain y where "xs = [x]" and "ys = [y]" by (cases zs; cases ys) auto
    with cat xs(3) ed str_nonempty show ?thesis
      by (auto simp: F_def str_peel str_inj split: option.splits)
  qed
  then show "keccak256 ops a = keccak256 ops b" and "xs = ys" and "ed = fd" by auto
qed

lemma compressed_form:
  assumes "compressed_extension_data ops h t fs = Inr z"
  obtains ed where "encoded_rsk_pte_edges ops h = Inr ed" and "length (h_extension_data h) = 256"
    and "z = encode_list ops [rlp_uint ops (unat t), rlp_str ops
           (be_word 32 (keccak256 ops (extension_for_hash ops (h_extension_data h) fs ed)))]"
  using assms
  by (auto simp: compressed_extension_data_def logs_bloom_v0_def res_simps Let_def split: if_splits)

lemma compressed_list_inj:
  fixes t u :: u8 and a b :: h256
  assumes "encode_list ops [rlp_uint ops (unat t), rlp_str ops (be_word 32 a)] =
           encode_list ops [rlp_uint ops (unat u), rlp_str ops (be_word 32 b)]"
  shows "t = u \<and> a = b"
proof -
  have "sum_list (map length [rlp_uint ops (unat v), rlp_str ops (be_word 32 c)]) < 2 ^ 64"
    for v :: u8 and c :: h256
  proof -
    have "unat v < 2 ^ 64" using unat_lt[of v] by simp
    then show ?thesis using uint_length[of "unat v"] str_length[of "be_word 32 c"] by simp
  qed
  note cat = encode_list_inj[OF this this assms]
  have "unat t < 18446744073709551616" "unat u < 18446744073709551616"
    using unat_lt[of t] unat_lt[of u] by simp_all
  with cat show ?thesis by (simp add: uint_peel str_inj word_unat_eq_iff)
qed

text \<open>
  The three shapes of an extension field. A raw bloom filter has 256 bytes, a compressed
  extension at most 59, so the shapes never coincide.
\<close>

lemma extension_field_cases:
  assumes "extension_field ops h = Inr z"
  obtains (v2) "h_version h = RSK_HEADER_EXTENSION_TYPE_V2" and
      "length (base_event_bytes h) \<le> 128" and
      "compressed_extension_data ops h (h_version h) (map (rlp_str ops) [base_event_bytes h]) = Inr z"
    | (v1) "h_version h = RSK_HEADER_EXTENSION_TYPE_V1" and "h_rsk_pte_edges h \<noteq> None" and
      "compressed_extension_data ops h (h_version h) (map (rlp_str ops) []) = Inr z"
    | (raw) "h_version h = RSK_HEADER_EXTENSION_TYPE_V1" and "h_rsk_pte_edges h = None" and
      "z = h_extension_data h" and "length z = 256"
  using assms
  by (auto simp: extension_field_def compressed_extension_data_v2_def
      compressed_extension_data_v1_def logs_bloom_v0_def BASE_EVENT_MAX_SIZE_def split: if_splits)

lemma compressed_determines:
  assumes h: "compressed_extension_data ops h (h_version h) (map (rlp_str ops) xs) = Inr z"
    and g: "compressed_extension_data ops g (h_version g) (map (rlp_str ops) ys) = Inr z"
    and len: "length xs \<le> 1" "length ys \<le> 1" "\<forall>x \<in> set xs \<union> set ys. length x < 2 ^ 32"
    and same: "h_version h = h_version g \<Longrightarrow> length xs = length ys"
    and xs: "map (rlp_str ops) xs = (if h_version h = RSK_HEADER_EXTENSION_TYPE_V2
        then [rlp_str ops (base_event_bytes h)] else [])"
    and ys: "map (rlp_str ops) ys = (if h_version g = RSK_HEADER_EXTENSION_TYPE_V2
        then [rlp_str ops (base_event_bytes g)] else [])"
    and inj: "inj_on (keccak256 ops) (set (header_preimages ops h) \<union> set (header_preimages ops g))"
  shows "h_version h = h_version g \<and> h_extension_data h = h_extension_data g \<and>
    h_rsk_pte_edges h = h_rsk_pte_edges g \<and> xs = ys"
proof -
  obtain ed where ed: "encoded_rsk_pte_edges ops h = Inr ed"
    and z: "z = encode_list ops [rlp_uint ops (unat (h_version h)), rlp_str ops (be_word 32
      (keccak256 ops (extension_for_hash ops (h_extension_data h) (map (rlp_str ops) xs) ed)))]"
    using compressed_form[OF h] by blast
  obtain fd where fd: "encoded_rsk_pte_edges ops g = Inr fd"
    and z': "z = encode_list ops [rlp_uint ops (unat (h_version g)), rlp_str ops (be_word 32
      (keccak256 ops (extension_for_hash ops (h_extension_data g) (map (rlp_str ops) ys) fd)))]"
    using compressed_form[OF g] by blast
  let ?eh = "extension_for_hash ops (h_extension_data h) (map (rlp_str ops) xs) ed"
  let ?eg = "extension_for_hash ops (h_extension_data g) (map (rlp_str ops) ys) fd"
  have ver: "h_version h = h_version g" and kk: "keccak256 ops ?eh = keccak256 ops ?eg"
    using compressed_list_inj z z' by metis+
  have "?eh \<in> set (header_preimages ops h)" "?eg \<in> set (header_preimages ops g)"
    using xs ys by (simp_all add: header_preimages_def ed fd)
  with inj kk have ext: "?eh = ?eg" by (auto dest: inj_onD)
  have eds: "ed \<in> {None, Some (rlp_str ops [])}" "fd \<in> {None, Some (rlp_str ops [])}"
    using edges_cases[OF ed] edges_cases[OF fd] by auto
  note det = extension_for_hash_determines[OF ext same[OF ver] len(1) len(3) eds]
  have "h_extension_data h \<in> set (header_preimages ops h)"
    "h_extension_data g \<in> set (header_preimages ops g)" by (simp_all add: header_preimages_def)
  with inj det(1) have "h_extension_data h = h_extension_data g" by (auto dest: inj_onD)
  moreover have "h_rsk_pte_edges h = h_rsk_pte_edges g"
    using edges_cases[OF ed] edges_cases[OF fd] det(3) by auto
  ultimately show ?thesis using ver det(2) by simp
qed

lemma extension_commits:
  assumes core: "header_core_eq h g" and z: "extension_field ops h = Inr z" and z': "extension_field ops g = Inr z"
    and inj: "inj_on (keccak256 ops) (set (header_preimages ops h) \<union> set (header_preimages ops g))"
  shows "header_committed_eq h g"
proof -
  have v12: "RSK_HEADER_EXTENSION_TYPE_V1 \<noteq> RSK_HEADER_EXTENSION_TYPE_V2"
    by (simp add: header_consts)
  note det = compressed_determines[OF _ _ _ _ _ _ _ _ inj]
  show ?thesis
    using z
  proof (cases rule: extension_field_cases)
    case h: v2
    from z' show ?thesis
      by (cases rule: extension_field_cases)
        (use det[OF h(3), of "[base_event_bytes g]"] det[OF h(3), of "[]"] h core v12 length_compressed[OF h(3)] in \<open>auto simp: header_committed_eq_def\<close>)
  next
    case h: v1
    from z' show ?thesis
      by (cases rule: extension_field_cases)
        (use det[OF h(3), of "[base_event_bytes g]"] det[OF h(3), of "[]"] h core v12 length_compressed[OF h(3)] in \<open>auto simp: header_committed_eq_def\<close>)
  next
    case h: raw
    from z' show ?thesis
    proof (cases rule: extension_field_cases)
      case raw
      with h core v12 show ?thesis by (auto simp: header_committed_eq_def)
    qed (use length_compressed h in force)+
  qed
qed

lemma hash_commits:
  assumes h: "calculate_block_hash ops h = Inr x" and g: "calculate_block_hash ops g = Inr x"
    and sized: "header_sized h" "header_sized g"
    and inj: "inj_on (keccak256 ops) (set (header_preimages ops h) \<union> set (header_preimages ops g))"
  shows "header_committed_eq h g"
proof -
  obtain e where e: "encode_rlp ops h = Inr e" "keccak256 ops e = x"
    using h by (auto simp: calculate_block_hash_def res_simps)
  obtain f where f: "encode_rlp ops g = Inr f" "keccak256 ops f = x"
    using g by (auto simp: calculate_block_hash_def res_simps)
  have "e = f"
    using inj e f by (auto simp: header_preimages_def dest: inj_onD)
  with e f have core: "header_core_eq h g" and ext: "extension_field ops h = extension_field ops g"
    using encode_rlp_determines sized by blast+
  obtain z where z: "extension_field ops h = Inr z"
    using e by (auto simp: encode_rlp_def res_simps)
  show ?thesis by (rule extension_commits [OF core z _ inj]) (use z ext in simp)
qed

end

section \<open>The standard RLP encoder satisfies the laws\<close>

text \<open>
  RLP as the Ethereum yellow paper specifies it: a byte below 128 is its own encoding, any
  other item carries a length prefix, and integers are minimal big-endian strings. A decoder
  that undoes the encoder on the front of any byte string gives the splitting laws.
\<close>

definition trim_be :: "nat \<Rightarrow> bytes" where
  "trim_be n = dropWhile (\<lambda>b. b = 0) (be_nat 8 n)"

definition rlp_std_header :: "nat \<Rightarrow> nat \<Rightarrow> bytes" where
  "rlp_std_header base n =
     (if n \<le> 55 then [word_of_nat (base + n)]
      else word_of_nat (base + 55 + length (trim_be n)) # trim_be n)"

definition rlp_std_str :: "bytes \<Rightarrow> bytes" where
  "rlp_std_str bs =
     (if length bs = 1 \<and> unat (hd bs) < 128 then bs else rlp_std_header 128 (length bs) @ bs)"

definition std_ops :: "(bytes \<Rightarrow> h256) \<Rightarrow> hash_ops" where
  "std_ops hash = \<lparr> keccak256 = hash, rlp_str = rlp_std_str,
     rlp_uint = (\<lambda>n. rlp_std_str (trim_be n)), rlp_list_header = rlp_std_header 192 \<rparr>"

fun rlp_dec_header :: "nat \<Rightarrow> bytes \<Rightarrow> nat \<times> bytes" where
  "rlp_dec_header base [] = (0, [])"
| "rlp_dec_header base (b # rest) =
     (if unat b \<le> base + 55 then (unat b - base, rest)
      else let k = unat b - base - 55 in (be_val (take k rest), drop k rest))"

fun rlp_dec_str :: "bytes \<Rightarrow> bytes \<times> bytes" where
  "rlp_dec_str [] = ([], [])"
| "rlp_dec_str (b # rest) =
     (if unat b < 128 then ([b], rest)
      else case rlp_dec_header 128 (b # rest) of (n, r) \<Rightarrow> (take n r, drop n r))"

lemma length_be_nat8: "length (be_nat 8 n) = 8"
  by (simp add: be_simps)

lemma length_trim_be: "length (trim_be n) \<le> 8"
  using length_dropWhile_le[of "\<lambda>b. b = 0" "be_nat 8 n"] by (simp add: trim_be_def length_be_nat8)

lemma be_val_trim_be: "n < 2 ^ 64 \<Longrightarrow> be_val (trim_be n) = n"
  by (simp add: trim_be_def be_val_dropWhile be_val_be_nat)

lemma unat_small_byte: "k < 256 \<Longrightarrow> unat (word_of_nat k :: u8) = k"
  by (simp add: unat_of_nat)

lemma trim_be_nonempty: "n < 2 ^ 64 \<Longrightarrow> 0 < n \<Longrightarrow> trim_be n \<noteq> []"
  using be_val_trim_be[of n] by auto

lemma rlp_dec_header_std:
  assumes "n < 2 ^ 64" and "base \<le> 192"
  shows "rlp_dec_header base (rlp_std_header base n @ x) = (n, x)"
proof (cases "n \<le> 55")
  case True
  then show ?thesis using assms(2) by (simp add: rlp_std_header_def unat_small_byte del: of_nat_add)
next
  case False
  have "0 < length (trim_be n)" using trim_be_nonempty[OF assms(1)] False by simp
  then show ?thesis
    using False assms length_trim_be[of n]
    by (simp add: rlp_std_header_def unat_small_byte be_val_trim_be Let_def del: of_nat_add)
qed

lemma rlp_std_header_first: "\<exists>b r. rlp_std_header 128 n = b # r \<and> 128 \<le> unat b"
  using length_trim_be[of n] by (simp add: rlp_std_header_def unat_small_byte del: of_nat_add)

lemma rlp_dec_str_std:
  assumes "length a < 2 ^ 64"
  shows "rlp_dec_str (rlp_std_str a @ x) = (a, x)"
proof (cases "length a = 1 \<and> unat (hd a) < 128")
  case True
  then show ?thesis by (auto simp: rlp_std_str_def length_Suc_conv)
next
  case False
  obtain b r where b: "rlp_std_header 128 (length a) = b # r" "128 \<le> unat b"
    using rlp_std_header_first by blast
  show ?thesis
    using rlp_dec_header_std[OF assms, of 128 "a @ x"] False b
    by (auto simp: rlp_std_str_def)
qed

lemma length_rlp_std_header: "length (rlp_std_header base n) \<le> 9"
  using length_trim_be[of n] by (simp add: rlp_std_header_def)

lemma length_rlp_std_str: "length (rlp_std_str a) \<le> length a + 9"
  using length_rlp_std_header[of 128 "length a"] by (simp add: rlp_std_str_def)

lemma length_rlp_std_uint: "length (rlp_std_str (trim_be n)) \<le> 9"
  using length_trim_be[of n] by (simp add: rlp_std_str_def rlp_std_header_def)

lemma rlp_codec_std_ops: "rlp_codec (std_ops hash)"
proof
  fix m n :: nat and x y
  assume "m < 2 ^ 64" "n < 2 ^ 64"
  moreover from this have "length (trim_be m) < 2 ^ 64" "length (trim_be n) < 2 ^ 64"
    using length_trim_be[of m] length_trim_be[of n] by simp_all
  moreover assume "rlp_uint (std_ops hash) m @ x = rlp_uint (std_ops hash) n @ y"
  ultimately show "m = n \<and> x = y"
    by (metis be_val_trim_be rlp_dec_str_std prod.inject std_ops_def hash_ops.select_convs(3))
next
  fix m n :: nat and x y
  assume "m < 2 ^ 64" "n < 2 ^ 64" "rlp_list_header (std_ops hash) m @ x = rlp_list_header (std_ops hash) n @ y"
  then show "m = n \<and> x = y"
    by (metis rlp_dec_header_std order_refl prod.inject std_ops_def hash_ops.select_convs(4))
next
  fix a b x y :: bytes
  assume "length a < 2 ^ 64" "length b < 2 ^ 64" "rlp_str (std_ops hash) a @ x = rlp_str (std_ops hash) b @ y"
  then show "a = b \<and> x = y"
    by (metis rlp_dec_str_std prod.inject std_ops_def hash_ops.select_convs(2))
qed (simp_all add: std_ops_def length_rlp_std_str length_rlp_std_uint length_rlp_std_header)

interpretation std: rlp_codec "std_ops hash" for hash
  by (rule rlp_codec_std_ops)

text \<open>
  A hash that separates the strings a version 1 header feeds to it: the bloom filter has 256
  bytes, the extension list 34, and the encoding of the header more than both.
\<close>

definition size_hash :: "bytes \<Rightarrow> h256" where
  "size_hash bs = (if length bs = 256 then 1 else if length bs < 256 then 2 else 3)"

lemma default_encoding:
  "\<exists>e. encode_rlp (std_ops size_hash) default_header = Inr e \<and> 256 < length e"
proof -
  have le: "length a \<le> length (rlp_std_str a)" for a by (simp add: rlp_std_str_def)
  have "256 + 32 \<le> length (encode_list (std_ops size_hash)
      (encoded_fields (std_ops size_hash) default_header 0 (replicate 256 0)))"
    using le[of "replicate 256 0"] le[of "be_word 32 (h_parent default_header)"]
    by (simp add: encode_list_def encoded_fields_def Let_def std_ops_def default_header_def be_simps)
  then show ?thesis
    by (simp add: encode_rlp_def extension_field_def logs_bloom_v0_def header_consts default_header_def)
qed

lemma default_extension:
  "length (extension_for_hash (std_ops size_hash) bs [] None) = 34"
  by (simp add: extension_for_hash_def encode_list_def Let_def std_ops_def rlp_std_str_def
      rlp_std_header_def be_simps)

text \<open>
  C14. The block hash commits to the header: two headers with the same computed hash agree on
  every encoded field, on the version, the bloom filter, the edges and (version 2) the base
  event, provided Keccak does not collide on the byte strings the two computations hash.
\<close>

theorem header_hash_commits:
  assumes "rlp_codec ops" and "header_sized h" and "header_sized g"
    and "calculate_block_hash ops h = Inr x" and "calculate_block_hash ops g = Inr x"
    and "inj_on (keccak256 ops) (set (header_preimages ops h) \<union> set (header_preimages ops g))"
  shows "header_committed_eq h g"
  using assms rlp_codec.hash_commits by blast

theorem header_hash_commits_witness:
  "header_committed_eq default_header (default_header \<lparr> h_hash := 7 \<rparr>)"
proof -
  let ?ops = "std_ops size_hash" and ?g = "default_header \<lparr> h_hash := 7 \<rparr>"
  obtain e where e: "encode_rlp ?ops default_header = Inr e" "256 < length e"
    using default_encoding by blast
  have same: "encode_rlp ?ops ?g = encode_rlp ?ops default_header"
    "encoded_rsk_pte_edges ?ops ?g = encoded_rsk_pte_edges ?ops default_header"
    by (simp_all add: encode_rlp_def encoded_fields_def extension_field_def logs_bloom_v0_def
        encoded_rsk_pte_edges_def umm_root_def default_header_def header_consts)
  have hash: "keccak256 ?ops = size_hash" by (simp add: std_ops_def)
  have pre: "header_preimages ?ops default_header = [e, replicate 256 0,
      extension_for_hash ?ops (replicate 256 0) [] None]"
    using e(1) by (simp add: header_preimages_def encoded_rsk_pte_edges_def default_header_def header_consts)
  have pre': "header_preimages ?ops ?g = header_preimages ?ops default_header"
    using same by (simp add: header_preimages_def base_event_bytes_def cong: sum.case_cong)
  show ?thesis
  proof (rule header_hash_commits[OF rlp_codec_std_ops[of size_hash]])
    show "header_sized default_header" "header_sized ?g"
      by (simp_all add: header_sized_def default_header_def)
    show "calculate_block_hash ?ops default_header = Inr (size_hash e)"
      "calculate_block_hash ?ops ?g = Inr (size_hash e)"
      using e(1) same(1) by (simp_all add: calculate_block_hash_def hash)
    show "inj_on (keccak256 ?ops) (set (header_preimages ?ops default_header) \<union>
        set (header_preimages ?ops ?g))"
      using e(2) default_extension[of "replicate 256 0"]
      by (auto simp: pre pre' hash size_hash_def inj_on_def)
  qed
qed

end
