(* ===== verification/Check_Fork.thy ===== *)
theory Check_Fork
  imports Rsk_Header
begin

text \<open>
  The fork check that the zero-knowledge guest runs (\<^verbatim>\<open>crates/check-fork/src/lib.rs\<close> and
  \<^verbatim>\<open>crates/check-fork/zkp/guest/src/main.rs\<close>): the validation of a list of RSK blocks, the
  accumulated effort, the peg-out id and the journal. The check is shown equivalent to a
  declarative description of the accepted forks, the byte layouts are shown exact and
  injective, and the tip of an accepted fork is shown to fix every header below it.
\<close>

section \<open>Data\<close>

datatype rsk_block = RskBlock (b_uncles: "rsk_block list") (b_pow: h256) (b_header: rsk_block_header)

record check_fork_args =
  pegout_id_version :: u8
  sequence_number :: u256
  stream_id :: u64
  packet_number :: u64
  slot_id :: u64
  operator_take_pubkey_parity :: u8
  operator_take_pubkey_xonly :: h256
  best_block_hash :: h256
  init_block_time :: u64
  init_block_number :: u64
  required_effort :: u256
  required_num_blocks :: u32
  block_list :: "rsk_block list"

definition SUPERBLOCK_TIMES_DIFFICULTY :: u8 where "SUPERBLOCK_TIMES_DIFFICULTY = 20"
definition CHECK_FORK_JOURNAL_LEN :: nat where "CHECK_FORK_JOURNAL_LEN = 76"
definition PEGOUT_BASE_EVENT_LEN :: nat where "PEGOUT_BASE_EVENT_LEN = 32"
definition CHECK_FORK_JOURNAL_VERSION :: u16 where "CHECK_FORK_JOURNAL_VERSION = 1"
definition PEGOUT_ID_VERSION :: u8 where "PEGOUT_ID_VERSION = 1"
definition PEGOUT_ID_LEN :: nat where "PEGOUT_ID_LEN = 32"
definition BEST_BLOCK_HASH_LEN :: nat where "BEST_BLOCK_HASH_LEN = 32"
definition OPERATOR_TAKE_PUBKEY_LEN :: nat where "OPERATOR_TAKE_PUBKEY_LEN = 33"
definition OPERATOR_TAKE_PUBKEY_XONLY_LEN :: nat where "OPERATOR_TAKE_PUBKEY_XONLY_LEN = 32"
definition SEQUENCE_NUMBER_LEN :: nat where "SEQUENCE_NUMBER_LEN = 32"
definition STREAM_ID_LEN :: nat where "STREAM_ID_LEN = 8"
definition PACKET_NUMBER_LEN :: nat where "PACKET_NUMBER_LEN = 8"
definition SLOT_ID_LEN :: nat where "SLOT_ID_LEN = 8"
definition PEGOUT_ID_PREIMAGE_LEN :: nat where
  "PEGOUT_ID_PREIMAGE_LEN = 1 + SEQUENCE_NUMBER_LEN + STREAM_ID_LEN + PACKET_NUMBER_LEN + SLOT_ID_LEN
     + 1 + OPERATOR_TAKE_PUBKEY_XONLY_LEN + BEST_BLOCK_HASH_LEN"

lemmas fork_consts = SUPERBLOCK_TIMES_DIFFICULTY_def CHECK_FORK_JOURNAL_LEN_def
  PEGOUT_BASE_EVENT_LEN_def CHECK_FORK_JOURNAL_VERSION_def PEGOUT_ID_VERSION_def PEGOUT_ID_LEN_def
  BEST_BLOCK_HASH_LEN_def OPERATOR_TAKE_PUBKEY_LEN_def OPERATOR_TAKE_PUBKEY_XONLY_LEN_def
  SEQUENCE_NUMBER_LEN_def STREAM_ID_LEN_def PACKET_NUMBER_LEN_def SLOT_ID_LEN_def
  PEGOUT_ID_PREIMAGE_LEN_def

section \<open>Validation of a block list\<close>

definition calculate_block_effort :: "rsk_block \<Rightarrow> fork_error + u256" where
  "calculate_block_effort block = ok_or (checked_div (- 1) (b_pow block)) ZeroPow"

definition accumulate_effort :: "u256 \<Rightarrow> rsk_block \<Rightarrow> fork_error + u256" where
  "accumulate_effort cumulative_effort block =
     res_bind (calculate_block_effort block) (\<lambda>effort.
     ok_or (checked_add cumulative_effort effort) EffortOverflow)"

definition validate_block_list :: "u32 \<Rightarrow> rsk_block list \<Rightarrow> fork_error + unit" where
  "validate_block_list required bl =
     (if required < 1 then Inl InvalidRequiredBlocks
      else if length bl < 3 then Inl NoContinuationBlock
      else if length bl < unat required then Inl InsufficientBlocks
      else Inr ())"

definition contains_matching_pegout_event :: "rsk_block \<Rightarrow> bytes \<Rightarrow> bool" where
  "contains_matching_pegout_event block expected_base_event =
     (case h_base_event (b_header block) of
        None \<Rightarrow> False
      | Some event \<Rightarrow> event = expected_base_event)"

definition validate_required_pegout_event :: "rsk_block \<Rightarrow> bytes \<Rightarrow> fork_error + unit" where
  "validate_required_pegout_event block expected_base_event =
     (if contains_matching_pegout_event block expected_base_event then Inr ()
      else Inl MissingBaseEvent)"

definition validate_enough_effort_superblock :: "rsk_block \<Rightarrow> string \<Rightarrow> fork_error + unit" where
  "validate_enough_effort_superblock block block_type =
     res_bind (ok_or (checked_mul (h_difficulty (b_header block)) (ucast SUPERBLOCK_TIMES_DIFFICULTY))
        DifficultyMulOverflow) (\<lambda>expected_effort.
     res_bind (calculate_block_effort block) (\<lambda>actual_effort.
     if expected_effort \<le> actual_effort then Inr () else Inr ()))"

definition validate_difficulty_in_bounds :: "rsk_block \<Rightarrow> rsk_block \<Rightarrow> fork_error + unit" where
  "validate_difficulty_in_bounds block prev_block =
     (let prev = h_difficulty (b_header prev_block);
          max_delta = prev div 400;
          lower_bound = saturating_sub prev max_delta;
          upper_bound = saturating_add prev max_delta;
          d = h_difficulty (b_header block)
      in if lower_bound \<le> d \<and> d \<le> upper_bound then Inr () else Inl DifficultyOutOfBounds)"

definition validate_first_block :: "rsk_block \<Rightarrow> u64 \<Rightarrow> u64 \<Rightarrow> bytes \<Rightarrow> fork_error + unit" where
  "validate_first_block block init_time init_number expected_base_event =
     (if h_timestamp (b_header block) < init_time then Inl FirstTimestampTooLow
      else if h_number (b_header block) < init_number then Inl FirstNumberTooLow
      else res_bind (validate_enough_effort_superblock block ''first'') (\<lambda>_.
        if contains_matching_pegout_event block expected_base_event then Inl FirstHasBaseEvent
        else Inr ()))"

definition validate_consecutive_block :: "rsk_block \<Rightarrow> rsk_block \<Rightarrow> fork_error + unit" where
  "validate_consecutive_block block prev_block =
     (if h_timestamp (b_header block) \<le> h_timestamp (b_header prev_block)
        then Inl TimestampNotIncreasing
      else res_bind (ok_or (checked_add (h_number (b_header prev_block)) 1) BlockNumberOverflow)
        (\<lambda>expected_next_number.
        if h_number (b_header block) \<noteq> expected_next_number then Inl NumbersNotConsecutive
        else if h_parent (b_header block) \<noteq> h_hash (b_header prev_block) then Inl InvalidParentLinkage
        else res_bind (validate_enough_effort_superblock block ''consecutive'') (\<lambda>_.
          validate_difficulty_in_bounds block prev_block)))"

definition validate_block_hash :: "hash_ops \<Rightarrow> rsk_block_header \<Rightarrow> fork_error + unit" where
  "validate_block_hash ops h =
     (if h_base_event h \<noteq> None \<and> h_version h \<noteq> RSK_HEADER_EXTENSION_TYPE_V2
        then Inl EventNeedsVersion2
      else res_bind (calculate_block_hash ops h) (\<lambda>actual_hash.
        if h_hash h \<noteq> actual_hash then Inl HeaderHashMismatch else Inr ()))"

definition validate_uncle :: "hash_ops \<Rightarrow> rsk_block \<Rightarrow> rsk_block \<Rightarrow> fork_error + unit" where
  "validate_uncle ops trunk_block uncle =
     (let t = b_header trunk_block; u = b_header uncle
      in if h_number u \<noteq> h_number t then Inl UncleNumberMismatch
         else if h_parent u \<noteq> h_parent t then Inl UncleParentMismatch
         else if h_difficulty u \<noteq> h_difficulty t then Inl UncleDifficultyMismatch
         else res_bind (validate_block_hash ops u) (\<lambda>_.
           validate_enough_effort_superblock uncle ''uncle''))"

text \<open>The inner loop over the uncles of a block and the loop over the blocks after the first.\<close>

fun check_uncles :: "hash_ops \<Rightarrow> rsk_block \<Rightarrow> rsk_block list \<Rightarrow> u256 \<Rightarrow> fork_error + u256" where
  "check_uncles ops prev_block [] cum = Inr cum"
| "check_uncles ops prev_block (uncle # us) cum =
     res_bind (validate_uncle ops prev_block uncle) (\<lambda>_.
     res_bind (accumulate_effort cum uncle) (\<lambda>cum'.
     check_uncles ops prev_block us cum'))"

fun check_blocks ::
  "hash_ops \<Rightarrow> bytes \<Rightarrow> nat \<Rightarrow> rsk_block \<Rightarrow> rsk_block list \<Rightarrow> u256 \<Rightarrow> fork_error + u256" where
  "check_blocks ops ev i prev_block [] cum = Inr cum"
| "check_blocks ops ev i prev_block (block # bs) cum =
     res_bind (validate_consecutive_block block prev_block) (\<lambda>_.
     res_bind (validate_block_hash ops (b_header block)) (\<lambda>_.
     res_bind (accumulate_effort cum block) (\<lambda>cum1.
     res_bind (check_uncles ops prev_block (b_uncles block) cum1) (\<lambda>cum2.
     res_bind (if 2 \<le> i then validate_required_pegout_event block ev else Inr ()) (\<lambda>_.
     check_blocks ops ev (i + 1) block bs cum2)))))"

definition build_pegout_base_event_from_id :: "h256 \<Rightarrow> bytes" where
  "build_pegout_base_event_from_id pegout_id = be_word 32 pegout_id"

definition check_fork :: "hash_ops \<Rightarrow> check_fork_args \<Rightarrow> h256 \<Rightarrow> fork_error + u256" where
  "check_fork ops args pegout_id =
     (let ev = build_pegout_base_event_from_id pegout_id; bl = block_list args
      in if pegout_id_version args \<noteq> PEGOUT_ID_VERSION then Inl PegoutIdVersionMismatch
         else res_bind (validate_block_list (required_num_blocks args) bl) (\<lambda>_.
           let first_block = bl ! 0
           in res_bind (validate_first_block first_block (init_block_time args)
                  (init_block_number args) ev) (\<lambda>_.
              res_bind (validate_block_hash ops (b_header first_block)) (\<lambda>_.
              res_bind (accumulate_effort 0 first_block) (\<lambda>cum.
              res_bind (check_blocks ops ev 1 first_block (drop 1 bl) cum) (\<lambda>cumulative_effort.
              if cumulative_effort < required_effort args then Inl CumulativePowTooLow
              else Inr cumulative_effort))))))"

section \<open>Peg-out id, journal and guest\<close>

text \<open>Writing a slice into a buffer at an offset (\<^verbatim>\<open>copy_from_slice\<close>).\<close>

definition copy_at :: "nat \<Rightarrow> bytes \<Rightarrow> bytes \<Rightarrow> bytes" where
  "copy_at offset bs out = take offset out @ bs @ drop (offset + length bs) out"

definition build_pegout_id_preimage :: "check_fork_args \<Rightarrow> bytes" where
  "build_pegout_id_preimage args =
     (let out = replicate PEGOUT_ID_PREIMAGE_LEN 0; offset = 0;
          out = out[offset := pegout_id_version args]; offset = offset + 1;
          out = copy_at offset (be_word 32 (sequence_number args)) out;
          offset = offset + SEQUENCE_NUMBER_LEN;
          out = copy_at offset (be_word 8 (stream_id args)) out; offset = offset + STREAM_ID_LEN;
          out = copy_at offset (be_word 8 (packet_number args)) out;
          offset = offset + PACKET_NUMBER_LEN;
          out = copy_at offset (be_word 8 (slot_id args)) out; offset = offset + SLOT_ID_LEN;
          out = out[offset := operator_take_pubkey_parity args]; offset = offset + 1;
          out = copy_at offset (be_word 32 (operator_take_pubkey_xonly args)) out;
          offset = offset + OPERATOR_TAKE_PUBKEY_XONLY_LEN
      in copy_at offset (be_word 32 (best_block_hash args)) out)"

definition compute_pegout_id :: "hash_ops \<Rightarrow> check_fork_args \<Rightarrow> h256" where
  "compute_pegout_id ops args = keccak256 ops (build_pegout_id_preimage args)"

record check_fork_journal =
  j_operator_take_pubkey :: bytes
  j_pegout_id :: bytes
  j_slot_id :: bytes
  j_accepted :: u8
  j_version :: bytes

definition to_bytes :: "check_fork_journal \<Rightarrow> bytes" where
  "to_bytes j =
     (let out = replicate CHECK_FORK_JOURNAL_LEN 0; at = 0;
          out = copy_at at (j_operator_take_pubkey j) out; at = at + length (j_operator_take_pubkey j);
          out = copy_at at (j_pegout_id j) out; at = at + length (j_pegout_id j);
          out = copy_at at (j_slot_id j) out; at = at + length (j_slot_id j);
          out = out[at := j_accepted j]; at = at + 1
      in copy_at at (j_version j) out)"

definition build_check_fork_journal :: "check_fork_args \<Rightarrow> h256 \<Rightarrow> bool \<Rightarrow> check_fork_journal" where
  "build_check_fork_journal args pegout_id accepted =
     (let key = (replicate OPERATOR_TAKE_PUBKEY_LEN 0)[0 := operator_take_pubkey_parity args]
      in \<lparr> j_operator_take_pubkey = copy_at 1 (be_word 32 (operator_take_pubkey_xonly args)) key,
           j_pegout_id = be_word 32 pegout_id,
           j_slot_id = be_word 8 (slot_id args),
           j_accepted = (if accepted then 1 else 0),
           j_version = be_word 2 CHECK_FORK_JOURNAL_VERSION \<rparr>)"

text \<open>
  The guest. Reading and deserialising its input is third-party code; a failed
  deserialisation panics, here \<^const>\<open>None\<close>, and no journal is committed.
\<close>

definition guest_main ::
  "hash_ops \<Rightarrow> (bytes \<Rightarrow> check_fork_args option) \<Rightarrow> bytes \<Rightarrow> bytes option" where
  "guest_main ops deserialize input =
     (case deserialize input of
        None \<Rightarrow> None
      | Some args \<Rightarrow>
          let pegout_id = compute_pegout_id ops args;
              accepted = (case check_fork ops args pegout_id of Inr _ \<Rightarrow> True | Inl _ \<Rightarrow> False)
          in Some (to_bytes (build_check_fork_journal args pegout_id accepted)))"

section \<open>What the check accepts\<close>

text \<open>The effort of a block as a number, and the conditions of the code without its control flow.\<close>

definition block_effort :: "rsk_block \<Rightarrow> nat" where
  "block_effort b = (2 ^ 256 - 1) div unat (b_pow b)"

definition effort_defined :: "rsk_block \<Rightarrow> bool" where
  "effort_defined b \<longleftrightarrow> b_pow b \<noteq> 0 \<and> 20 * unat (h_difficulty (b_header b)) < 2 ^ 256"

definition header_hash_ok :: "hash_ops \<Rightarrow> rsk_block_header \<Rightarrow> bool" where
  "header_hash_ok ops h \<longleftrightarrow>
     (h_base_event h = None \<or> h_version h = RSK_HEADER_EXTENSION_TYPE_V2) \<and>
     calculate_block_hash ops h = Inr (h_hash h)"

definition uncle_ok :: "hash_ops \<Rightarrow> rsk_block \<Rightarrow> rsk_block \<Rightarrow> bool" where
  "uncle_ok ops trunk u \<longleftrightarrow>
     h_number (b_header u) = h_number (b_header trunk) \<and>
     h_parent (b_header u) = h_parent (b_header trunk) \<and>
     h_difficulty (b_header u) = h_difficulty (b_header trunk) \<and>
     header_hash_ok ops (b_header u) \<and> effort_defined u"

definition difficulty_close :: "nat \<Rightarrow> nat \<Rightarrow> bool" where
  "difficulty_close d e \<longleftrightarrow> d - d div 400 \<le> e \<and> e \<le> d + d div 400"

definition fork_step :: "hash_ops \<Rightarrow> rsk_block \<Rightarrow> rsk_block \<Rightarrow> bool" where
  "fork_step ops prev b \<longleftrightarrow>
     h_timestamp (b_header prev) < h_timestamp (b_header b) \<and>
     unat (h_number (b_header b)) = unat (h_number (b_header prev)) + 1 \<and>
     h_parent (b_header b) = h_hash (b_header prev) \<and>
     difficulty_close (unat (h_difficulty (b_header prev))) (unat (h_difficulty (b_header b))) \<and>
     effort_defined b \<and> header_hash_ok ops (b_header b) \<and>
     (\<forall>u \<in> set (b_uncles b). uncle_ok ops prev u)"

definition block_list_effort :: "rsk_block list \<Rightarrow> nat" where
  "block_list_effort bs = sum_list (map (\<lambda>b. block_effort b + sum_list (map block_effort (b_uncles b))) bs)"

definition fork_effort :: "rsk_block list \<Rightarrow> nat" where
  "fork_effort bl = block_effort (hd bl) + block_list_effort (tl bl)"

definition fork_accepted :: "hash_ops \<Rightarrow> check_fork_args \<Rightarrow> h256 \<Rightarrow> bool" where
  "fork_accepted ops args pegout_id \<longleftrightarrow>
     (let bl = block_list args; first = hd bl
      in pegout_id_version args = 1 \<and>
         1 \<le> required_num_blocks args \<and> 3 \<le> length bl \<and>
         unat (required_num_blocks args) \<le> length bl \<and>
         init_block_time args \<le> h_timestamp (b_header first) \<and>
         init_block_number args \<le> h_number (b_header first) \<and>
         h_base_event (b_header first) \<noteq> Some (be_word 32 pegout_id) \<and>
         effort_defined first \<and> header_hash_ok ops (b_header first) \<and>
         successively (fork_step ops) bl \<and>
         (\<forall>b \<in> set (drop 2 bl). h_base_event (b_header b) = Some (be_word 32 pegout_id)) \<and>
         unat (required_effort args) \<le> fork_effort bl \<and> fork_effort bl < 2 ^ 256)"

text \<open>Each operation of the check against its condition.\<close>

named_theorems fork_simps

lemma calculate_block_effort_iff [fork_simps]:
  "calculate_block_effort b = Inr e \<longleftrightarrow> b_pow b \<noteq> 0 \<and> unat e = block_effort b"
  by (simp add: calculate_block_effort_def res_simps checked_div_Some block_effort_def unat_max_word)

definition effort_word :: "rsk_block \<Rightarrow> u256" where
  "effort_word b = (- 1) div b_pow b"

lemma unat_effort_word: "unat (effort_word b) = block_effort b"
  by (simp add: effort_word_def block_effort_def unat_div unat_max_word)

lemma unat_plus_effort:
  "unat c + block_effort b < 2 ^ 256 \<Longrightarrow> unat (c + effort_word b) = unat c + block_effort b"
  using unat_plus_if_fits[of c "effort_word b"] by (simp add: unat_effort_word)

lemma accumulate_effort_eq:
  "accumulate_effort c b =
     (if b_pow b = 0 then Inl ZeroPow
      else if unat c + block_effort b < 2 ^ 256 then Inr (c + effort_word b)
      else Inl EffortOverflow)"
  by (simp add: accumulate_effort_def calculate_block_effort_def checked_div_def checked_add_def
      effort_word_def [symmetric] unat_effort_word)

lemma superblock_check_iff [fork_simps]:
  "validate_enough_effort_superblock b t = Inr u \<longleftrightarrow> effort_defined b"
proof -
  have "unat (ucast SUPERBLOCK_TIMES_DIFFICULTY :: u256) = 20"
    by (simp add: SUPERBLOCK_TIMES_DIFFICULTY_def)
  then have "(\<exists>w. checked_mul (h_difficulty (b_header b)) (ucast SUPERBLOCK_TIMES_DIFFICULTY) = Some w)
      \<longleftrightarrow> 20 * unat (h_difficulty (b_header b)) < 2 ^ 256"
    by (simp add: checked_mul_def mult.commute)
  moreover have "(\<exists>e. calculate_block_effort b = Inr e) \<longleftrightarrow> b_pow b \<noteq> 0"
    by (simp add: calculate_block_effort_def res_simps checked_div_def)
  ultimately show ?thesis
    by (auto simp: validate_enough_effort_superblock_def res_simps effort_defined_def)
qed

lemma validate_block_hash_iff [fork_simps]:
  "validate_block_hash ops h = Inr u \<longleftrightarrow> header_hash_ok ops h"
  by (auto simp: validate_block_hash_def header_hash_ok_def res_simps split: if_splits)

lemma matching_event_iff [fork_simps]:
  "contains_matching_pegout_event b ev \<longleftrightarrow> h_base_event (b_header b) = Some ev"
  by (auto simp: contains_matching_pegout_event_def split: option.splits)

lemma required_event_iff [fork_simps]:
  "validate_required_pegout_event b ev = Inr u \<longleftrightarrow> h_base_event (b_header b) = Some ev"
  by (simp add: validate_required_pegout_event_def fork_simps)

lemma difficulty_iff [fork_simps]:
  "validate_difficulty_in_bounds b p = Inr u \<longleftrightarrow>
     difficulty_close (unat (h_difficulty (b_header p))) (unat (h_difficulty (b_header b)))"
proof -
  have "unat (h_difficulty (b_header b)) \<le> 2 ^ 256 - 1"
    using unat_lt[of "h_difficulty (b_header b)"] by simp
  then show ?thesis
    by (auto simp: validate_difficulty_in_bounds_def difficulty_close_def Let_def word_le_nat_alt
        unat_saturating_sub unat_saturating_add unat_div)
qed

lemma consecutive_iff [fork_simps]:
  "validate_consecutive_block b p = Inr u \<longleftrightarrow>
     h_timestamp (b_header p) < h_timestamp (b_header b) \<and>
     unat (h_number (b_header b)) = unat (h_number (b_header p)) + 1 \<and>
     h_parent (b_header b) = h_hash (b_header p) \<and> effort_defined b \<and>
     difficulty_close (unat (h_difficulty (b_header p))) (unat (h_difficulty (b_header b)))"
proof -
  have "checked_add (h_number (b_header p)) 1 = Some (h_number (b_header b)) \<longleftrightarrow>
      unat (h_number (b_header b)) = unat (h_number (b_header p)) + 1"
    using unat_lt[of "h_number (b_header b)"] by (auto simp: checked_add_Some)
  then show ?thesis
    by (auto simp: validate_consecutive_block_def res_simps fork_simps not_le)
qed

lemma uncle_iff [fork_simps]: "validate_uncle ops t v = Inr u \<longleftrightarrow> uncle_ok ops t v"
  by (auto simp: validate_uncle_def uncle_ok_def Let_def res_simps fork_simps)

lemma first_block_iff [fork_simps]:
  "validate_first_block b t n ev = Inr u \<longleftrightarrow>
     t \<le> h_timestamp (b_header b) \<and> n \<le> h_number (b_header b) \<and> effort_defined b \<and>
     h_base_event (b_header b) \<noteq> Some ev"
  by (auto simp: validate_first_block_def res_simps fork_simps not_less)

lemma block_list_iff [fork_simps]:
  "validate_block_list r bl = Inr u \<longleftrightarrow> 1 \<le> r \<and> 3 \<le> length bl \<and> unat r \<le> length bl"
  unfolding validate_block_list_def by (simp del: word_less_1 add: not_less [symmetric])

text \<open>The loops: every step is valid and the sum of the efforts never overflows.\<close>

lemma check_uncles_iff [fork_simps]:
  "check_uncles ops p us c = Inr e \<longleftrightarrow>
     (\<forall>u \<in> set us. uncle_ok ops p u) \<and> unat e = unat c + sum_list (map block_effort us) \<and>
     unat c + sum_list (map block_effort us) < 2 ^ 256"
proof (induction us arbitrary: c)
  case Nil
  show ?case using unat_lt[of c] by (auto simp: word_unat_eq_iff)
next
  case (Cons v us)
  have pow: "b_pow v \<noteq> 0" if "uncle_ok ops p v"
    using that by (simp add: uncle_ok_def effort_defined_def)
  show ?case
  proof (cases "unat c + block_effort v < 2 ^ 256")
    case True
    with pow show ?thesis
      by (auto simp: res_simps fork_simps Cons.IH accumulate_effort_eq unat_plus_effort add.assoc)
  next
    case False
    then show ?thesis by (auto simp: res_simps accumulate_effort_eq)
  qed
qed

lemma check_blocks_iff [fork_simps]:
  "check_blocks ops ev i p bs c = Inr e \<longleftrightarrow>
     successively (fork_step ops) (p # bs) \<and>
     (\<forall>b \<in> set (drop (2 - i) bs). h_base_event (b_header b) = Some ev) \<and>
     unat e = unat c + block_list_effort bs \<and> unat c + block_list_effort bs < 2 ^ 256"
proof (induction bs arbitrary: i p c)
  case Nil
  show ?case using unat_lt[of c] by (auto simp: word_unat_eq_iff block_list_effort_def)
next
  case (Cons b bs)
  let ?n1 = "unat c + block_effort b" and ?n2 = "sum_list (map block_effort (b_uncles b))"
  have ev: "(\<forall>x \<in> set (drop (2 - i) (b # bs)). P x) \<longleftrightarrow>
      (2 \<le> i \<longrightarrow> P b) \<and> (\<forall>x \<in> set (drop (2 - (i + 1)) bs). P x)" for P
    by (cases "2 \<le> i") (auto simp: drop_Cons' numeral_2_eq_2 Suc_diff_le)
  have eff: "block_list_effort (b # bs) = block_effort b + ?n2 + block_list_effort bs"
    by (simp add: block_list_effort_def)
  show ?case
  proof (cases "?n1 + ?n2 < 2 ^ 256")
    case True
    define c2 :: u256 where "c2 = word_of_nat (?n1 + ?n2)"
    have c2: "unat c2 = ?n1 + ?n2" using True by (simp add: c2_def unat_of_nat del: of_nat_add)
    have un: "check_uncles ops p (b_uncles b) (c + effort_word b) = Inr w \<longleftrightarrow>
        (\<forall>u \<in> set (b_uncles b). uncle_ok ops p u) \<and> w = c2" for w
      using True by (auto simp: fork_simps unat_plus_effort word_unat_eq_iff c2)
    with True show ?thesis
      unfolding ev eff
      by (auto simp: res_simps un consecutive_iff validate_block_hash_iff required_event_iff
          accumulate_effort_eq Cons.IH c2 fork_step_def effort_defined_def add.assoc
          simp del: One_nat_def split: if_splits)
  next
    case False
    then show ?thesis
      unfolding eff
      by (auto simp: res_simps fork_simps accumulate_effort_eq unat_plus_effort)
  qed
qed

lemma check_fork_iff:
  "check_fork ops args pid = Inr e \<longleftrightarrow>
     fork_accepted ops args pid \<and> unat e = fork_effort (block_list args)"
proof (cases "block_list args")
  case Nil
  then show ?thesis
    by (auto simp: check_fork_def fork_accepted_def Let_def res_simps fork_simps)
next
  case (Cons b bs)
  have "b_pow b \<noteq> 0" if "effort_defined b" using that by (simp add: effort_defined_def)
  moreover have "drop 2 (b # bs) = drop 1 bs" by (simp add: numeral_2_eq_2)
  moreover have "unat (0 + effort_word b :: u256) = block_effort b" by (simp add: unat_effort_word)
  moreover have "block_effort b < 2 ^ 256" using unat_lt[of "effort_word b"] by (simp add: unat_effort_word)
  ultimately show ?thesis
    by (auto simp: check_fork_def fork_accepted_def fork_effort_def Cons Let_def res_simps fork_simps
        accumulate_effort_eq PEGOUT_ID_VERSION_def build_pegout_base_event_from_id_def
        word_less_nat_alt not_less intro: exI[of _ e] split: if_splits)
qed

text \<open>
  C1. The fork check accepts exactly the forks of the declarative description, whatever the
  order in which the code tests the conditions, and returns the exact sum of the efforts of
  the blocks and of the uncles of every block after the first; a sum that does not fit 256
  bits is refused and never wraps.
\<close>

theorem check_fork_exact:
  "check_fork ops args pid = Inr e \<longleftrightarrow>
     fork_accepted ops args pid \<and> unat e = fork_effort (block_list args)"
  by (rule check_fork_iff)

section \<open>Accepted forks are linked chains\<close>

lemma accepted_step:
  assumes "fork_accepted ops args pid" and "Suc i < length (block_list args)"
  shows "fork_step ops (block_list args ! i) (block_list args ! Suc i)"
  using assms by (auto simp: fork_accepted_def Let_def successively_conv_nth)

lemma accepted_block:
  assumes acc: "fork_accepted ops args pid" and i: "i < length (block_list args)"
  shows "header_hash_ok ops (b_header (block_list args ! i)) \<and> effort_defined (block_list args ! i)"
proof (cases i)
  case 0
  then show ?thesis using acc i by (auto simp: fork_accepted_def Let_def hd_conv_nth)
next
  case (Suc k)
  then show ?thesis using accepted_step[OF acc, of k] i by (simp add: fork_step_def)
qed

lemma accepted_number:
  assumes acc: "fork_accepted ops args pid"
  shows "i < length (block_list args) \<Longrightarrow> unat (h_number (b_header (block_list args ! i))) =
      unat (h_number (b_header (block_list args ! 0))) + i"
proof (induction i)
  case (Suc i)
  then show ?case using accepted_step[OF acc, of i] by (simp add: fork_step_def)
qed simp

text \<open>
  C16. In an accepted fork the parent field of every block is the hash computed from the header
  before it, the height grows by one per block without wrapping and the time strictly grows.
\<close>

theorem check_fork_linked:
  assumes "check_fork ops args pid = Inr e" and "Suc i < length (block_list args)"
  shows "calculate_block_hash ops (b_header (block_list args ! i)) =
      Inr (h_parent (b_header (block_list args ! Suc i))) \<and>
    unat (h_number (b_header (block_list args ! Suc i))) =
      unat (h_number (b_header (block_list args ! 0))) + Suc i \<and>
    h_timestamp (b_header (block_list args ! i)) < h_timestamp (b_header (block_list args ! Suc i))"
proof -
  have acc: "fork_accepted ops args pid" using assms(1) by (simp add: check_fork_iff)
  show ?thesis
    using accepted_step[OF acc assms(2)] accepted_block[OF acc, of i] accepted_number[OF acc, of "Suc i"]
      assms(2)
    by (simp add: fork_step_def header_hash_ok_def)
qed

text \<open>
  A concrete fork of three blocks. Every hash is zero, so that the headers are linked, and the
  proof of work of each block is the weakest, worth one unit of effort.
\<close>

definition sample_block :: "u64 \<Rightarrow> bytes option \<Rightarrow> rsk_block" where
  "sample_block n ev = RskBlock [] (- 1) (default_header \<lparr> h_number := n, h_timestamp := n,
     h_version := (if ev = None then 1 else 2), h_base_event := ev \<rparr>)"

definition sample_args :: check_fork_args where
  "sample_args = \<lparr> pegout_id_version = 1, sequence_number = 0, stream_id = 1, packet_number = 2,
     slot_id = 3, operator_take_pubkey_parity = 2, operator_take_pubkey_xonly = 4,
     best_block_hash = 5, init_block_time = 10, init_block_number = 10, required_effort = 3,
     required_num_blocks = 2,
     block_list = [sample_block 10 None, sample_block 11 (Some (be_word 32 (0 :: h256))),
       sample_block 12 (Some (be_word 32 (0 :: h256)))] \<rparr>"

lemma sample_hash:
  "ev = None \<or> (\<exists>x. ev = Some x \<and> length x \<le> 128) \<Longrightarrow>
     header_hash_ok (std_ops (\<lambda>_. 0)) (b_header (sample_block n ev))"
  by (auto simp: header_hash_ok_def sample_block_def default_header_def calculate_block_hash_def
      encode_rlp_def extension_field_def compressed_extension_data_v2_def compressed_extension_data_def
      logs_bloom_v0_def encoded_rsk_pte_edges_def base_event_bytes_def header_consts std_ops_def Let_def)

lemma sample_effort: "effort_defined (sample_block n ev)" "block_effort (sample_block n ev) = 1"
  "b_uncles (sample_block n ev) = []"
  by (simp_all add: effort_defined_def block_effort_def sample_block_def default_header_def
      unsigned_minus_1_eq_mask mask_eq_exp_minus_1)

lemma sample_fields:
  "h_number (b_header (sample_block n ev)) = n" "h_timestamp (b_header (sample_block n ev)) = n"
  "h_parent (b_header (sample_block n ev)) = 0" "h_hash (b_header (sample_block n ev)) = 0"
  "h_difficulty (b_header (sample_block n ev)) = 0" "h_base_event (b_header (sample_block n ev)) = ev"
  by (simp_all add: sample_block_def default_header_def)

lemma sample_accepted: "fork_accepted (std_ops (\<lambda>_. 0)) sample_args 0"
proof -
  let ?ev = "Some (be_word 32 (0 :: h256))"
  have hash: "header_hash_ok (std_ops (\<lambda>_. 0)) (b_header (sample_block n None))"
    "header_hash_ok (std_ops (\<lambda>_. 0)) (b_header (sample_block n ?ev))" for n
    by (rule sample_hash, simp add: be_simps)+
  have step: "fork_step (std_ops (\<lambda>_. 0)) (sample_block 10 None) (sample_block 11 ?ev)"
    "fork_step (std_ops (\<lambda>_. 0)) (sample_block 11 ?ev) (sample_block 12 ?ev)"
    unfolding fork_step_def using hash sample_effort
    by (simp_all add: sample_fields difficulty_close_def)
  show ?thesis
    using hash step
    by (simp add: fork_accepted_def sample_args_def Let_def sample_effort fork_effort_def
        block_list_effort_def sample_fields)
qed

theorem check_fork_linked_witness:
  "calculate_block_hash (std_ops (\<lambda>_. 0)) (b_header (sample_block 10 None)) = Inr 0 \<and>
   Suc 0 < length (block_list sample_args)"
proof -
  have acc: "check_fork (std_ops (\<lambda>_. 0)) sample_args 0 = Inr 3"
    using sample_accepted
    by (simp add: check_fork_iff fork_effort_def block_list_effort_def sample_args_def sample_effort)
  have len: "Suc 0 < length (block_list sample_args)" by (simp add: sample_args_def)
  from check_fork_linked[OF acc len] len show ?thesis
    by (simp add: sample_args_def sample_fields)
qed

section \<open>Byte layouts\<close>

text \<open>A zeroed buffer that is being filled from the front.\<close>

definition fill :: "bytes \<Rightarrow> nat \<Rightarrow> bytes" where
  "fill xs m = xs @ replicate m 0"

lemma fill_start: "replicate m 0 = fill [] m"
  by (simp add: fill_def)

lemma fill_copy:
  "k = length xs \<Longrightarrow> length bs \<le> m \<Longrightarrow> copy_at k bs (fill xs m) = fill (xs @ bs) (m - length bs)"
  by (simp add: fill_def copy_at_def)

lemma fill_set: "k = length xs \<Longrightarrow> 0 < m \<Longrightarrow> (fill xs m)[k := v] = fill (xs @ [v]) (m - 1)"
  by (cases m) (simp_all add: fill_def list_update_append)

lemma fill_done: "fill xs 0 = xs"
  by (simp add: fill_def)

lemmas fill_simps = fill_start fill_copy fill_set fill_done Let_def

lemma preimage_layout:
  "build_pegout_id_preimage args =
     [pegout_id_version args] @ be_word 32 (sequence_number args) @ be_word 8 (stream_id args) @
     be_word 8 (packet_number args) @ be_word 8 (slot_id args) @ [operator_take_pubkey_parity args] @
     be_word 32 (operator_take_pubkey_xonly args) @ be_word 32 (best_block_hash args)"
  by (simp add: build_pegout_id_preimage_def fork_consts fill_simps be_simps)

text \<open>
  C31. The bytes hashed into a peg-out id determine all eight of its fields: two argument sets
  with the same preimage name the same peg-out, slot, operator key and block.
\<close>

theorem pegout_id_preimage_injective:
  "build_pegout_id_preimage a = build_pegout_id_preimage b \<longleftrightarrow>
     pegout_id_version a = pegout_id_version b \<and> sequence_number a = sequence_number b \<and>
     stream_id a = stream_id b \<and> packet_number a = packet_number b \<and> slot_id a = slot_id b \<and>
     operator_take_pubkey_parity a = operator_take_pubkey_parity b \<and>
     operator_take_pubkey_xonly a = operator_take_pubkey_xonly b \<and>
     best_block_hash a = best_block_hash b"
  by (auto simp: preimage_layout be_simps)

lemma journal_layout:
  "to_bytes (build_check_fork_journal args pid acc) =
     operator_take_pubkey_parity args # be_word 32 (operator_take_pubkey_xonly args) @
     be_word 32 pid @ be_word 8 (slot_id args) @ [if acc then 1 else 0] @ [0, 1]"
proof -
  have v: "be_word 2 (1 :: u16) = [0, 1]" by (simp add: be_word_def numeral_2_eq_2)
  show ?thesis
    by (simp add: to_bytes_def build_check_fork_journal_def fork_consts fill_simps be_simps v)
qed

text \<open>
  C30. The journal the guest commits: 76 bytes holding the operator key, the peg-out id computed
  from the arguments, the slot, the verdict and the version, with the verdict byte 1 exactly
  when the fork is an accepted one; only undecodable input commits nothing.
\<close>

theorem guest_journal_exact:
  "guest_main ops deserialize input =
     map_option (\<lambda>args. operator_take_pubkey_parity args # be_word 32 (operator_take_pubkey_xonly args) @
       be_word 32 (compute_pegout_id ops args) @ be_word 8 (slot_id args) @
       [if fork_accepted ops args (compute_pegout_id ops args) then 1 else 0] @ [0, 1])
     (deserialize input)"
proof (cases "deserialize input")
  case (Some args)
  let ?pid = "compute_pegout_id ops args"
  have "(case check_fork ops args ?pid of Inr _ \<Rightarrow> True | Inl _ \<Rightarrow> False) = fork_accepted ops args ?pid"
  proof (cases "fork_accepted ops args ?pid")
    case True
    then have "fork_effort (block_list args) < 2 ^ 256" by (simp add: fork_accepted_def Let_def)
    then have "unat (word_of_nat (fork_effort (block_list args)) :: u256) = fork_effort (block_list args)"
      by (simp add: unat_of_nat)
    with True have "check_fork ops args ?pid = Inr (word_of_nat (fork_effort (block_list args)))"
      by (simp add: check_fork_iff)
    with True show ?thesis by simp
  next
    case False
    then show ?thesis using check_fork_iff[of ops args ?pid] by (auto split: sum.splits)
  qed
  with Some show ?thesis by (simp add: guest_main_def journal_layout)
qed (simp add: guest_main_def)

section \<open>Effort counted twice\<close>

text \<open>
  C32. Uncles are checked against the trunk block of their height only, not against each other,
  the uncle hash of the header or the trunk block itself. So the second to last block of an
  accepted fork can be listed any number of times among the uncles of the last one, and each
  copy adds its effort again.
\<close>

theorem trunk_block_counts_as_uncle:
  assumes "check_fork ops args pid = Inr e"
    and "block_list args = pre @ [p, RskBlock us w h]"
    and "unat e + n * block_effort p < 2 ^ 256"
  shows "\<exists>e'. check_fork ops (args \<lparr> block_list := pre @ [p, RskBlock (us @ replicate n p) w h] \<rparr>) pid
      = Inr e' \<and> unat e' = unat e + n * block_effort p"
proof -
  let ?b = "RskBlock us w h" and ?b' = "RskBlock (us @ replicate n p) w h"
  let ?bl' = "pre @ [p, ?b']"
  have acc: "fork_accepted ops args pid" and e: "unat e = fork_effort (block_list args)"
    using assms(1) by (simp_all add: check_fork_iff)
  have "length pre < length (block_list args)" using assms(2) by simp
  from accepted_block[OF acc this] have "uncle_ok ops p p" by (simp add: assms(2) uncle_ok_def)
  then have step: "fork_step ops p ?b \<Longrightarrow> fork_step ops p ?b'"
    by (auto simp: fork_step_def effort_defined_def)
  have eff: "fork_effort ?bl' = unat e + n * block_effort p"
    by (cases pre) (auto simp: e assms(2) fork_effort_def block_list_effort_def block_effort_def
        sum_list_replicate)
  have "hd ?bl' = hd (block_list args)" by (simp add: assms(2) hd_append)
  moreover have "successively (fork_step ops) ?bl'"
    using acc step by (auto simp: fork_accepted_def Let_def assms(2) successively_append_iff)
  moreover have "\<forall>b \<in> set (drop 2 ?bl'). h_base_event (b_header b) = Some (be_word 32 pid)"
    using acc by (auto simp: fork_accepted_def Let_def assms(2) drop_Cons' split: if_splits)
  ultimately have "fork_accepted ops (args \<lparr> block_list := ?bl' \<rparr>) pid"
    using acc eff e assms(3) by (auto simp: fork_accepted_def Let_def assms(2))
  moreover have "unat (word_of_nat (fork_effort ?bl') :: u256) = fork_effort ?bl'"
    using assms(3) eff by (simp add: unat_of_nat del: of_nat_add of_nat_mult)
  ultimately show ?thesis
    using eff by (intro exI[of _ "word_of_nat (fork_effort ?bl')"]) (simp add: check_fork_iff)
qed

theorem trunk_block_counts_as_uncle_witness:
  "\<exists>e'. check_fork (std_ops (\<lambda>_. 0)) (sample_args \<lparr> block_list :=
      [sample_block 10 None, sample_block 11 (Some (be_word 32 (0 :: h256))),
       RskBlock (replicate 1000 (sample_block 11 (Some (be_word 32 (0 :: h256))))) (- 1)
         (b_header (sample_block 12 (Some (be_word 32 (0 :: h256)))))] \<rparr>) 0 = Inr e' \<and> unat e' = 1003"
proof -
  have acc: "check_fork (std_ops (\<lambda>_. 0)) sample_args 0 = Inr 3"
    using sample_accepted
    by (simp add: check_fork_iff fork_effort_def block_list_effort_def sample_args_def sample_effort)
  have last: "sample_block 12 ev = RskBlock [] (- 1) (b_header (sample_block 12 ev))" for ev
    by (simp add: sample_block_def)
  have bl: "block_list sample_args = [sample_block 10 None] @ [sample_block 11
      (Some (be_word 32 (0 :: h256))), RskBlock [] (- 1) (b_header (sample_block 12
      (Some (be_word 32 (0 :: h256)))))]"
    by (simp add: sample_args_def last [symmetric])
  show ?thesis
    using trunk_block_counts_as_uncle[OF acc bl, of 1000] by (simp add: sample_effort)
qed

section \<open>The tip fixes the fork\<close>

definition fork_preimages :: "hash_ops \<Rightarrow> rsk_block list \<Rightarrow> bytes set" where
  "fork_preimages ops bl = (\<Union>b \<in> set bl. set (header_preimages ops (b_header b)))"

context rlp_codec
begin

lemma tip_commits:
  assumes acc: "fork_accepted ops a pid" "fork_accepted ops b qid"
    and sized: "\<forall>x \<in> set (block_list a) \<union> set (block_list b). header_sized (b_header x)"
    and inj: "inj_on (keccak256 ops) (fork_preimages ops (block_list a) \<union> fork_preimages ops (block_list b))"
    and tip: "h_hash (b_header (last (block_list a))) = h_hash (b_header (last (block_list b)))"
  shows "k < length (block_list a) \<Longrightarrow> k < length (block_list b) \<Longrightarrow>
    header_committed_eq (b_header (rev (block_list a) ! k)) (b_header (rev (block_list b) ! k))"
proof -
  let ?A = "block_list a" and ?B = "block_list b"
  have commit: "header_committed_eq (b_header (rev ?A ! k)) (b_header (rev ?B ! k))"
    if k: "k < length ?A" "k < length ?B"
      and eq: "h_hash (b_header (rev ?A ! k)) = h_hash (b_header (rev ?B ! k))" for k
  proof (rule hash_commits)
    have mem: "rev ?A ! k \<in> set ?A" "rev ?B ! k \<in> set ?B" using k by (simp_all add: rev_nth)
    then show "header_sized (b_header (rev ?A ! k))" "header_sized (b_header (rev ?B ! k))"
      using sized by auto
    show "inj_on (keccak256 ops) (set (header_preimages ops (b_header (rev ?A ! k))) \<union>
        set (header_preimages ops (b_header (rev ?B ! k))))"
      using mem by (intro inj_on_subset[OF inj]) (auto simp: fork_preimages_def)
    show "calculate_block_hash ops (b_header (rev ?A ! k)) = Inr (h_hash (b_header (rev ?A ! k)))"
      "calculate_block_hash ops (b_header (rev ?B ! k)) = Inr (h_hash (b_header (rev ?A ! k)))"
      using accepted_block[OF acc(1), of "length ?A - Suc k"] accepted_block[OF acc(2), of "length ?B - Suc k"]
        k eq by (auto simp: rev_nth header_hash_ok_def)
  qed
  have hash: "h_hash (b_header (rev ?A ! k)) = h_hash (b_header (rev ?B ! k))"
    if "k < length ?A" "k < length ?B" for k
    using that
  proof (induction k)
    case 0
    then show ?case using tip by (auto simp: rev_nth last_conv_nth)
  next
    case (Suc k)
    have par: "h_hash (b_header (rev (block_list c) ! Suc k)) = h_parent (b_header (rev (block_list c) ! k))"
      if "fork_accepted ops c p" "Suc k < length (block_list c)" for c p
      using accepted_step[OF that(1), of "length (block_list c) - Suc (Suc k)"] that(2)
      by (simp add: fork_step_def rev_nth Suc_diff_Suc)
    have "h_parent (b_header (rev ?A ! k)) = h_parent (b_header (rev ?B ! k))"
      using commit[of k] Suc by (simp add: header_committed_eq_def header_core_eq_def)
    then show ?case using par[OF acc(1)] par[OF acc(2)] Suc.prems by simp
  qed
  assume "k < length ?A" "k < length ?B"
  then show ?thesis using commit hash by blast
qed

end

text \<open>
  A concrete instance: a hash that reads the size class of its input, three headers whose
  extra data puts their encodings in different classes, and two forks over them that differ
  in the proof of work of the last block.
\<close>

definition tier_hash :: "bytes \<Rightarrow> h256" where
  "tier_hash bs = (let n = length bs in
     if n < 40 then 1 else if n < 256 then 2 else if n = 256 then 3
     else if n < 1300 then 11 else if n < 2600 then 12 else 13)"

definition tier_header :: "nat \<Rightarrow> rsk_block_header" where
  "tier_header i = default_header \<lparr> h_number := word_of_nat i, h_timestamp := word_of_nat i,
     h_version := (if i = 0 then 1 else 2),
     h_base_event := (if i = 0 then None else Some (be_word 32 (0 :: h256))),
     h_extra_data := replicate ([300, 1300, 2600] ! i) 0,
     h_parent := [0, 11, 12] ! i, h_hash := [11, 12, 13] ! i \<rparr>"

definition tier_args :: "h256 \<Rightarrow> check_fork_args" where
  "tier_args w = sample_args \<lparr> init_block_time := 0, init_block_number := 0, required_effort := 1,
     block_list := [RskBlock [] (- 1) (tier_header 0), RskBlock [] (- 1) (tier_header 1),
       RskBlock [] w (tier_header 2)] \<rparr>"

lemma std_encoding_length:
  assumes "encode_rlp (std_ops f) h = Inr e"
  shows "length (h_extra_data h) \<le> length e" and
    "length e \<le> length (h_extra_data h) + length (h_gas_limit h) +
       length (h_bitcoin_merged_mining_header h) + 704"
proof -
  obtain p x where x: "extension_field (std_ops f) h = Inr x"
    and e: "e = encode_list (std_ops f) (encoded_fields (std_ops f) h p x)"
    using assms by (auto simp: encode_rlp_def res_simps)
  let ?fs = "encoded_fields (std_ops f) h p x"
  have ops: "rlp_str (std_ops f) = rlp_std_str" "rlp_list_header (std_ops f) = rlp_std_header 192"
    "rlp_uint (std_ops f) = (\<lambda>n. rlp_std_str (trim_be n))" by (simp_all add: std_ops_def)
  have len: "length e = length (rlp_std_header 192 (sum_list (map length ?fs))) + sum_list (map length ?fs)"
    by (simp add: e encode_list_def Let_def length_concat ops)
  have "length (h_extra_data h) \<le> length (rlp_std_str (h_extra_data h))"
    by (simp add: rlp_std_str_def)
  also have "\<dots> \<le> sum_list (map length ?fs)"
    by (rule member_le_sum_list) (simp_all add: encoded_fields_def ops)
  finally show "length (h_extra_data h) \<le> length e" unfolding len by linarith
  note str = length_rlp_std_str and uint = length_rlp_std_uint
  have coin: "length (rlp_std_str (u256_be_coin_bytes v)) \<le> 41"
    "length (rlp_std_str (signed_coin_bytes v)) \<le> 42" for v
    using str[of "u256_be_coin_bytes v"] str[of "signed_coin_bytes v"]
      length_coin_bytes[of v] length_signed[of v] by linarith+
  have word: "length (rlp_std_str (be_word 20 (c :: h160))) \<le> 29"
    "length (rlp_std_str (be_word 32 (y :: h256))) \<le> 41" for c y
    using str[of "be_word 20 c"] str[of "be_word 32 y"] by (simp_all add: be_simps)
  have "length x \<le> 256" by (rule rlp_codec.length_extension_field[OF rlp_codec_std_ops x])
  then have ext: "length (rlp_std_str x) \<le> 265" using str[of x] by linarith
  have "sum_list (map length ?fs) \<le> 695 + length (h_extra_data h) + length (h_gas_limit h) +
      length (h_bitcoin_merged_mining_header h)"
    unfolding encoded_fields_def ops umm_root_def encode_coin_value_def encode_signed_as_byte
      list.map sum_list.Cons sum_list.Nil
    using ext word(2)[of "h_parent h"] word(2)[of "h_uncles_hash h"] word(1)[of "h_coinbase h"]
      word(2)[of "h_state_root h"] word(2)[of "h_tx_trie_root h"] word(2)[of "h_receipt_trie_root h"]
      coin(1)[of "h_difficulty h"] uint[of "unat (h_number h)"] str[of "h_gas_limit h"]
      uint[of "unat (h_gas_used h)"] uint[of "unat (h_timestamp h)"] str[of "h_extra_data h"]
      coin(1)[of "h_paid_fees h"] coin(2)[of p] uint[of "length (h_uncles h)"] str[of "[]"]
      str[of "h_bitcoin_merged_mining_header h"]
    unfolding list.size by linarith
  then show "length e \<le> length (h_extra_data h) + length (h_gas_limit h) +
      length (h_bitcoin_merged_mining_header h) + 704"
    using length_rlp_std_header[of 192 "sum_list (map length ?fs)"] unfolding len by linarith
qed

lemma tier_encoding:
  assumes "i < 3"
  shows "\<exists>e. encode_rlp (std_ops tier_hash) (tier_header i) = Inr e \<and> tier_hash e = [11, 12, 13] ! i"
proof -
  have i: "i = 0 \<or> i = 1 \<or> i = 2" using assms by auto
  obtain e where e: "encode_rlp (std_ops tier_hash) (tier_header i) = Inr e"
    using i by (auto simp: encode_rlp_def tier_header_def default_header_def extension_field_def
        compressed_extension_data_v2_def compressed_extension_data_def logs_bloom_v0_def
        encoded_rsk_pte_edges_def base_event_bytes_def header_consts be_simps)
  from std_encoding_length[OF this] i
  have "[300, 1300, 2600] ! i \<le> length e" "length e \<le> [300, 1300, 2600] ! i + 785"
    by (auto simp: tier_header_def default_header_def)
  with i have "tier_hash e = [11, 12, 13] ! i" by (auto simp: tier_hash_def Let_def)
  with e show ?thesis by blast
qed

lemma tier_accepted:
  assumes w: "w = - 1 \<or> w = - 2"
  shows "check_fork (std_ops tier_hash) (tier_args w) 0 = Inr 3"
proof -
  let ?ops = "std_ops tier_hash"
  have hash: "header_hash_ok ?ops (tier_header i)" if lt: "i < 3" for i
  proof -
    from lt have i: "i = 0 \<or> i = 1 \<or> i = 2" by auto
    obtain e where "encode_rlp ?ops (tier_header i) = Inr e" "tier_hash e = [11, 12, 13] ! i"
      using tier_encoding[OF lt] by blast
    then have "calculate_block_hash ?ops (tier_header i) = Inr ([11, 12, 13] ! i)"
      by (simp add: calculate_block_hash_def std_ops_def)
    with i show ?thesis by (auto simp: header_hash_ok_def tier_header_def header_consts)
  qed
  have fields: "h_difficulty (tier_header i) = 0" "h_number (tier_header i) = word_of_nat i"
    "h_timestamp (tier_header i) = word_of_nat i" "h_parent (tier_header i) = [0, 11, 12] ! i"
    "h_hash (tier_header i) = [11, 12, 13] ! i" "h_base_event (tier_header i) =
      (if i = 0 then None else Some (be_word 32 (0 :: h256)))" for i
    by (simp_all add: tier_header_def default_header_def)
  have eff: "block_effort (RskBlock us v h) = 1" "v \<noteq> 0" if "v = - 1 \<or> v = - 2" for us v h
    using that by (auto simp: block_effort_def unsigned_minus_1_eq_mask mask_eq_exp_minus_1)
  then have sum: "fork_effort (block_list (tier_args w)) = 3"
    using w by (simp add: fork_effort_def block_list_effort_def tier_args_def)
  then have "fork_accepted ?ops (tier_args w) 0"
    using w eff(2)[OF w] hash[of 0] hash[of 1] hash[of 2]
    by (simp add: fork_accepted_def tier_args_def sample_args_def Let_def fork_step_def
        effort_defined_def fields difficulty_close_def)
  then show ?thesis by (simp add: check_fork_iff sum)
qed

lemma tier_preimages:
  "inj_on tier_hash (fork_preimages (std_ops tier_hash) (block_list (tier_args w)))"
proof -
  let ?ops = "std_ops tier_hash" and ?z = "replicate 256 (0 :: u8)" and ?ev = "be_word 32 (0 :: h256)"
  let ?x1 = "extension_for_hash ?ops ?z [] None"
  let ?x2 = "extension_for_hash ?ops ?z [rlp_str ?ops ?ev] None"
  obtain e0 e1 e2 where e: "encode_rlp ?ops (tier_header 0) = Inr e0" "tier_hash e0 = 11"
    "encode_rlp ?ops (tier_header 1) = Inr e1" "tier_hash e1 = 12"
    "encode_rlp ?ops (tier_header 2) = Inr e2" "tier_hash e2 = 13"
    using tier_encoding[of 0] tier_encoding[of 1] tier_encoding[of 2] by auto
  have x: "tier_hash ?x1 = 1" "tier_hash ?x2 = 2" "tier_hash ?z = 3"
    using length_trim_be[of 66]
    by (simp_all add: tier_hash_def extension_for_hash_def encode_list_def Let_def std_ops_def
        rlp_std_str_def rlp_std_header_def be_simps)
  have "fork_preimages ?ops (block_list (tier_args w)) = {e0, e1, e2, ?z, ?x1, ?x2}"
    using e(1,3,5)
    by (auto simp: fork_preimages_def tier_args_def header_preimages_def encoded_rsk_pte_edges_def
        tier_header_def default_header_def base_event_bytes_def header_consts)
  then show ?thesis using e x by (auto simp: inj_on_def)
qed

text \<open>
  C2. The tip of a fork fixes the fork: if the fork check accepts two block lists whose last
  blocks have the same hash, the headers at every common depth below the tip agree on
  everything a block hash commits to, provided Keccak does not collide on the byte strings
  hashed for the headers of the two lists.
\<close>

theorem accepted_fork_tip_commits:
  assumes "rlp_codec ops"
    and "check_fork ops a pid = Inr e" and "check_fork ops b qid = Inr f"
    and "\<forall>x \<in> set (block_list a) \<union> set (block_list b). header_sized (b_header x)"
    and "inj_on (keccak256 ops) (fork_preimages ops (block_list a) \<union> fork_preimages ops (block_list b))"
    and "h_hash (b_header (last (block_list a))) = h_hash (b_header (last (block_list b)))"
    and "k < length (block_list a)" and "k < length (block_list b)"
  shows "header_committed_eq (b_header (rev (block_list a) ! k)) (b_header (rev (block_list b) ! k))"
  using rlp_codec.tip_commits[of ops a pid b qid k] assms by (simp add: check_fork_iff)

theorem accepted_fork_tip_commits_witness:
  "header_committed_eq (b_header (rev (block_list (tier_args (- 1))) ! 2))
     (b_header (rev (block_list (tier_args (- 2))) ! 2))"
proof (rule accepted_fork_tip_commits[OF rlp_codec_std_ops[of tier_hash]])
  show "check_fork (std_ops tier_hash) (tier_args (- 1)) 0 = Inr 3"
    "check_fork (std_ops tier_hash) (tier_args (- 2)) 0 = Inr 3"
    by (rule tier_accepted, simp)+
  show "\<forall>x \<in> set (block_list (tier_args (- 1))) \<union> set (block_list (tier_args (- 2))).
      header_sized (b_header x)"
    by (simp add: tier_args_def tier_header_def default_header_def header_sized_def)
  have "fork_preimages (std_ops tier_hash) (block_list (tier_args (- 1))) =
      fork_preimages (std_ops tier_hash) (block_list (tier_args (- 2)))"
    by (simp add: fork_preimages_def tier_args_def)
  then show "inj_on (keccak256 (std_ops tier_hash))
      (fork_preimages (std_ops tier_hash) (block_list (tier_args (- 1))) \<union>
       fork_preimages (std_ops tier_hash) (block_list (tier_args (- 2))))"
    using tier_preimages by (simp add: std_ops_def)
qed (simp_all add: tier_args_def)

end
