(* ===== verification/Core_Types.thy ===== *)
theory Core_Types
  imports UB_Prelude
begin

text \<open>
  The chain data shared by the services (\<^verbatim>\<open>crates/common/core/src/types.rs\<close>): blocks, logs,
  identifiers, their conversions from the JSON-RPC types and the hexadecimal readers the
  conversions use. Newtypes around one number or byte string are that number or byte string.
  The \<^verbatim>\<open>hex\<close> crate, the radix reader of \<^verbatim>\<open>primitive_types\<close> and the Bitcoin header hash are
  parameters; the laws of the \<^verbatim>\<open>hex\<close> crate are the locale \<open>hex_codec\<close>. The readers start
  from the string that serde hands over.
\<close>

section \<open>Errors and third-party operations\<close>

datatype core_error = FromHexError | ParseIntError | FromStrRadixErr | BtcHeaderError
  | ConversionError | SlicePanic

record text_ops =
  hex_decode :: "string \<Rightarrow> bytes option"
  hex_encode :: "bytes \<Rightarrow> string"
  u256_from_hex :: "string \<Rightarrow> u256 option"
  btc_header_hash :: "bytes \<Rightarrow> h256 option"

definition hex_digits :: string where
  "hex_digits = ''0123456789abcdef''"

locale hex_codec =
  fixes tx :: text_ops
  assumes decode_encode: "hex_decode tx (hex_encode tx bs) = Some bs"
    and encode_length: "length (hex_encode tx bs) = 2 * length bs"
    and encode_digits: "set (hex_encode tx bs) \<subseteq> set hex_digits"
    and decode_length: "hex_decode tx s = Some bs \<Longrightarrow> length s = 2 * length bs"

section \<open>Hexadecimal text\<close>

text \<open>\<^verbatim>\<open>str::trim_start_matches("0x")\<close> removes the prefix as often as it occurs.\<close>

fun trim_0x :: "string \<Rightarrow> string" where
  "trim_0x (a # b # s) = (if a = CHR ''0'' \<and> b = CHR ''x'' then trim_0x s else a # b # s)"
| "trim_0x s = s"

definition hex_char :: "nat \<Rightarrow> char" where
  "hex_char d = (if d < 10 then char_of (48 + d) else char_of (87 + d))"

definition hex_val :: "char \<Rightarrow> nat option" where
  "hex_val c = (let n = of_char c :: nat
     in if 48 \<le> n \<and> n \<le> 57 then Some (n - 48)
        else if 97 \<le> n \<and> n \<le> 102 then Some (n - 87)
        else if 65 \<le> n \<and> n \<le> 70 then Some (n - 55)
        else None)"

text \<open>\<^verbatim>\<open>u64::from_str_radix(_, 16)\<close>: an optional plus sign, at least one digit, no overflow.\<close>

fun radix16_loop :: "nat \<Rightarrow> string \<Rightarrow> core_error + nat" where
  "radix16_loop acc [] = Inr acc"
| "radix16_loop acc (c # cs) =
     (case hex_val c of
        None \<Rightarrow> Inl ParseIntError
      | Some d \<Rightarrow>
          if 2 ^ 64 \<le> acc * 16 + d then Inl ParseIntError else radix16_loop (acc * 16 + d) cs)"

definition u64_from_str_radix16 :: "string \<Rightarrow> core_error + u64" where
  "u64_from_str_radix16 s =
     (let digits = (case s of c # cs \<Rightarrow> if c = CHR ''+'' then cs else s | [] \<Rightarrow> [])
      in if digits = [] then Inl ParseIntError
         else res_bind (radix16_loop 0 digits) (\<lambda>n. Inr (word_of_nat n)))"

text \<open>\<^verbatim>\<open>format!("{:#x}")\<close> of an unsigned number.\<close>

fun hex_of_nat :: "nat \<Rightarrow> string" where
  "hex_of_nat n = (if n < 16 then [hex_char n] else hex_of_nat (n div 16) @ [hex_char (n mod 16)])"

declare hex_of_nat.simps [simp del]

definition block_number_to_hex_string :: "u64 \<Rightarrow> string" where
  "block_number_to_hex_string n = ''0x'' @ hex_of_nat (unat n)"

definition str_hex_to_u64 :: "string \<Rightarrow> core_error + u64" where
  "str_hex_to_u64 hex = u64_from_str_radix16 (trim_0x hex)"

definition block_number_try_from :: "string \<Rightarrow> core_error + u64" where
  "block_number_try_from v = res_bind (str_hex_to_u64 v) (\<lambda>result. Inr result)"

section \<open>Byte strings, hashes and addresses\<close>

definition data_bytes_from_hex_str :: "text_ops \<Rightarrow> string \<Rightarrow> core_error + bytes" where
  "data_bytes_from_hex_str tx s = (let clean = trim_0x s in ok_or (hex_decode tx clean) FromHexError)"

definition data_bytes_to_hex_string :: "text_ops \<Rightarrow> bytes \<Rightarrow> string" where
  "data_bytes_to_hex_string tx bs = ''0x'' @ hex_encode tx bs"

text \<open>\<^verbatim>\<open>H256::from_slice\<close> and \<^verbatim>\<open>H160::from_slice\<close> panic on a slice of another length.\<close>

definition h256_from_slice :: "bytes \<Rightarrow> core_error + h256" where
  "h256_from_slice bs = (if length bs = 32 then Inr (word_of_nat (be_val bs)) else Inl SlicePanic)"

definition h160_from_slice :: "bytes \<Rightarrow> core_error + h160" where
  "h160_from_slice bs = (if length bs = 20 then Inr (word_of_nat (be_val bs)) else Inl SlicePanic)"

definition hash256_try_from :: "text_ops \<Rightarrow> string \<Rightarrow> core_error + h256" where
  "hash256_try_from tx v =
     res_bind (ok_or (hex_decode tx (trim_0x v)) FromHexError) (\<lambda>bs. h256_from_slice bs)"

definition hash256_display :: "text_ops \<Rightarrow> h256 \<Rightarrow> string" where
  "hash256_display tx h = ''0x'' @ hex_encode tx (be_word 32 h)"

definition address_try_from :: "text_ops \<Rightarrow> string \<Rightarrow> core_error + h160" where
  "address_try_from tx v =
     res_bind (ok_or (hex_decode tx (trim_0x v)) FromHexError) (\<lambda>bs. h160_from_slice bs)"

definition block_pow_try_from :: "text_ops \<Rightarrow> string \<Rightarrow> core_error + h256" where
  "block_pow_try_from tx v =
     res_bind (ok_or (hex_decode tx (trim_0x v)) FromHexError) (\<lambda>header_bytes.
     ok_or (btc_header_hash tx header_bytes) BtcHeaderError)"

definition into_effort :: "h256 \<Rightarrow> u256" where
  "into_effort pow = (case checked_div (- 1) pow of Some e \<Rightarrow> e | None \<Rightarrow> 0)"

definition committee_id_try_from :: "u256 \<Rightarrow> core_error + u128" where
  "committee_id_try_from v = (if unat v < 2 ^ 128 then Inr (ucast v) else Inl ConversionError)"

definition stream_id_as_u8 :: "u64 \<Rightarrow> core_error + u8" where
  "stream_id_as_u8 val = (if unat val < 2 ^ 8 then Inr (ucast val) else Inl ConversionError)"

section \<open>Readers of JSON-RPC fields\<close>

definition parse_hex_to_u64 :: "string \<Rightarrow> core_error + u64" where
  "parse_hex_to_u64 hex = str_hex_to_u64 hex"

definition parse_hex_to_block_number :: "string \<Rightarrow> core_error + u64" where
  "parse_hex_to_block_number hex = parse_hex_to_u64 hex"

definition parse_hex_to_block_timestamp :: "string \<Rightarrow> core_error + u64" where
  "parse_hex_to_block_timestamp hex = parse_hex_to_u64 hex"

definition parse_hex_to_hash256 :: "text_ops \<Rightarrow> string \<Rightarrow> core_error + h256" where
  "parse_hex_to_hash256 tx hex = hash256_try_from tx hex"

definition parse_hex_to_address :: "text_ops \<Rightarrow> string \<Rightarrow> core_error + h160" where
  "parse_hex_to_address tx hex = address_try_from tx hex"

definition parse_hex_to_u256 :: "text_ops \<Rightarrow> string \<Rightarrow> core_error + u256" where
  "parse_hex_to_u256 tx hex = ok_or (u256_from_hex tx (trim_0x hex)) FromStrRadixErr"

definition parse_rsk_difficulty :: "text_ops \<Rightarrow> string \<Rightarrow> core_error + u256" where
  "parse_rsk_difficulty tx difficulty_hex =
     res_bind (ok_or (u256_from_hex tx (trim_0x difficulty_hex)) FromStrRadixErr)
       (\<lambda>difficulty_dec. Inr difficulty_dec)"

definition parse_optional_hex_to_u256 :: "text_ops \<Rightarrow> string option \<Rightarrow> core_error + u256 option" where
  "parse_optional_hex_to_u256 tx hex =
     (case hex of
        None \<Rightarrow> Inr None
      | Some v \<Rightarrow> res_bind (ok_or (u256_from_hex tx (trim_0x v)) FromStrRadixErr) (\<lambda>w. Inr (Some w)))"

record rsk_rpc_bitcoin_merged_mining =
  mm_header :: bytes
  mm_pow :: h256

definition parse_bitcoin_merged_mining_data ::
  "text_ops \<Rightarrow> string \<Rightarrow> core_error + rsk_rpc_bitcoin_merged_mining" where
  "parse_bitcoin_merged_mining_data tx hex =
     res_bind (data_bytes_from_hex_str tx hex) (\<lambda>hd.
     res_bind (block_pow_try_from tx hex) (\<lambda>p. Inr \<lparr> mm_header = hd, mm_pow = p \<rparr>))"

fun parse_hash256_vec :: "text_ops \<Rightarrow> string list \<Rightarrow> core_error + h256 list" where
  "parse_hash256_vec tx [] = Inr []"
| "parse_hash256_vec tx (hex # hs) =
     res_bind (hash256_try_from tx hex) (\<lambda>h.
     res_bind (parse_hash256_vec tx hs) (\<lambda>t. Inr (h # t)))"

definition parse_hex_to_data_bytes :: "text_ops \<Rightarrow> string \<Rightarrow> core_error + bytes" where
  "parse_hex_to_data_bytes tx hex = data_bytes_from_hex_str tx hex"

definition parse_hex_quantity_to_data_bytes :: "text_ops \<Rightarrow> string \<Rightarrow> core_error + bytes" where
  "parse_hex_quantity_to_data_bytes tx hex =
     (let clean = trim_0x hex;
          normalized = (if clean = [] then ''0'' else clean);
          padded = (if length normalized mod 2 = 0 then normalized else CHR ''0'' # normalized)
      in ok_or (hex_decode tx padded) FromHexError)"

definition default_zero_u256 :: u256 where "default_zero_u256 = 0"
definition default_minimum_gas_price :: "u256 option" where "default_minimum_gas_price = Some 0"
definition default_logs_bloom_bytes :: bytes where "default_logs_bloom_bytes = replicate 256 0"
definition default_gas_limit_bytes :: bytes where "default_gas_limit_bytes = [0]"
definition default_empty_data_bytes :: bytes where "default_empty_data_bytes = []"
definition default_merged_mining_header_bytes :: bytes where
  "default_merged_mining_header_bytes = replicate 80 0"

section \<open>Blocks and logs\<close>

record core_block =
  cb_number :: u64
  cb_hash :: h256
  cb_parent_hash :: h256
  cb_timestamp :: u64
  cb_difficulty :: u256
  cb_total_difficulty :: u256
  cb_pow :: h256
  cb_uncles :: "h256 list"
  cb_uncles_hash :: h256
  cb_miner :: h160
  cb_state_root :: h256
  cb_transactions_root :: h256
  cb_receipts_root :: h256
  cb_logs_bloom :: bytes
  cb_gas_limit :: bytes
  cb_gas_used :: u64
  cb_extra_data :: bytes
  cb_paid_fees :: u256
  cb_minimum_gas_price :: "u256 option"
  cb_bitcoin_merged_mining_header :: bytes
  cb_rsk_pte_edges :: "u16 list option"

definition core_block_new ::
  "u64 \<Rightarrow> h256 \<Rightarrow> h256 \<Rightarrow> u64 \<Rightarrow> u256 \<Rightarrow> u256 \<Rightarrow> h256 \<Rightarrow> h256 list \<Rightarrow> core_block" where
  "core_block_new number hash parent_hash timestamp difficulty total_difficulty pow uncles =
     \<lparr> cb_number = number, cb_hash = hash, cb_parent_hash = parent_hash, cb_timestamp = timestamp,
       cb_difficulty = difficulty, cb_total_difficulty = total_difficulty, cb_pow = pow,
       cb_uncles = uncles, cb_uncles_hash = 0, cb_miner = 0, cb_state_root = 0,
       cb_transactions_root = 0, cb_receipts_root = 0, cb_logs_bloom = replicate 256 0,
       cb_gas_limit = [0], cb_gas_used = 0, cb_extra_data = [], cb_paid_fees = 0,
       cb_minimum_gas_price = Some 0, cb_bitcoin_merged_mining_header = replicate 80 0,
       cb_rsk_pte_edges = None \<rparr>"

text \<open>Equality of blocks in the code is equality of their hashes.\<close>

definition core_block_eq :: "core_block \<Rightarrow> core_block \<Rightarrow> bool" where
  "core_block_eq a b \<longleftrightarrow> cb_hash a = cb_hash b"

record rsk_rpc_block =
  rp_number :: u64
  rp_hash :: h256
  rp_parent_hash :: h256
  rp_timestamp :: u64
  rp_difficulty :: u256
  rp_total_difficulty :: u256
  rp_uncles_hash :: h256
  rp_miner :: h160
  rp_state_root :: h256
  rp_transactions_root :: h256
  rp_receipts_root :: h256
  rp_logs_bloom :: bytes
  rp_gas_limit :: bytes
  rp_gas_used :: u64
  rp_extra_data :: bytes
  rp_paid_fees :: u256
  rp_minimum_gas_price :: "u256 option"
  rp_bitcoin_merged_mining :: rsk_rpc_bitcoin_merged_mining
  rp_uncles :: "h256 list"
  rp_rsk_pte_edges :: "u16 list option"

definition core_block_from_rpc :: "rsk_rpc_block \<Rightarrow> core_block" where
  "core_block_from_rpc r =
     \<lparr> cb_number = rp_number r, cb_hash = rp_hash r, cb_parent_hash = rp_parent_hash r,
       cb_timestamp = rp_timestamp r, cb_difficulty = rp_difficulty r,
       cb_total_difficulty = rp_total_difficulty r, cb_pow = mm_pow (rp_bitcoin_merged_mining r),
       cb_uncles = rp_uncles r, cb_uncles_hash = rp_uncles_hash r, cb_miner = rp_miner r,
       cb_state_root = rp_state_root r, cb_transactions_root = rp_transactions_root r,
       cb_receipts_root = rp_receipts_root r, cb_logs_bloom = rp_logs_bloom r,
       cb_gas_limit = rp_gas_limit r, cb_gas_used = rp_gas_used r,
       cb_extra_data = rp_extra_data r, cb_paid_fees = rp_paid_fees r,
       cb_minimum_gas_price = rp_minimum_gas_price r,
       cb_bitcoin_merged_mining_header = mm_header (rp_bitcoin_merged_mining r),
       cb_rsk_pte_edges = rp_rsk_pte_edges r \<rparr>"

record log_info =
  li_address :: h160
  li_block_hash :: h256
  li_block_number :: u64
  li_tx_hash :: h256
  li_log_index :: u64
  li_removed :: bool

record log_event =
  le_data :: bytes
  le_topics :: "h256 list"

record rsk_log =
  lg_info :: log_info
  lg_event :: log_event

record rsk_rpc_log =
  rl_address :: h160
  rl_block_hash :: h256
  rl_block_number :: u64
  rl_tx_hash :: h256
  rl_log_index :: u64
  rl_data :: bytes
  rl_topics :: "h256 list"

definition rsk_log_from_rpc :: "rsk_rpc_log \<Rightarrow> rsk_log" where
  "rsk_log_from_rpc r =
     \<lparr> lg_info = \<lparr> li_address = rl_address r, li_block_hash = rl_block_hash r,
         li_block_number = rl_block_number r, li_tx_hash = rl_tx_hash r,
         li_log_index = rl_log_index r, li_removed = False \<rparr>,
       lg_event = \<lparr> le_data = rl_data r, le_topics = rl_topics r \<rparr> \<rparr>"

record block_and_uncles =
  bu_block :: core_block
  bu_uncles :: "core_block list"

definition new_no_uncles :: "core_block \<Rightarrow> block_and_uncles" where
  "new_no_uncles b = \<lparr> bu_block = b, bu_uncles = [] \<rparr>"

definition bu_hash :: "block_and_uncles \<Rightarrow> h256" where "bu_hash b = cb_hash (bu_block b)"
definition bu_parent :: "block_and_uncles \<Rightarrow> h256" where "bu_parent b = cb_parent_hash (bu_block b)"
definition bu_number :: "block_and_uncles \<Rightarrow> u64" where "bu_number b = cb_number (bu_block b)"

section \<open>Reading back what was written\<close>

lemma hex_val_hex_char: "d < 16 \<Longrightarrow> hex_val (hex_char d) = Some d"
  by (auto simp: hex_val_def hex_char_def Let_def)

lemma hex_char_not_plus: "d < 16 \<Longrightarrow> hex_char d \<noteq> CHR ''+''"
  using hex_val_hex_char[of d] by (auto simp: hex_val_def)

lemma trim_0x_digits: "CHR ''x'' \<notin> set s \<Longrightarrow> trim_0x s = s"
  by (induction s rule: trim_0x.induct) auto

lemma trim_0x_prefix: "CHR ''x'' \<notin> set s \<Longrightarrow> trim_0x (''0x'' @ s) = s"
  by (simp add: trim_0x_digits)

lemma hex_of_nat_ne: "hex_of_nat n \<noteq> []"
  by (subst hex_of_nat.simps) simp

lemma hex_of_nat_chars: "c \<in> set (hex_of_nat n) \<Longrightarrow> \<exists>d < 16. c = hex_char d"
proof (induction n rule: hex_of_nat.induct)
  case (1 n)
  show ?case
  proof (cases "n < 16")
    case True
    with "1.prems" show ?thesis by (auto simp: hex_of_nat.simps[of n])
  next
    case False
    with "1.prems" have "c \<in> set (hex_of_nat (n div 16)) \<or> c = hex_char (n mod 16)"
      by (auto simp: hex_of_nat.simps[of n])
    then show ?thesis using "1.IH"[OF False] by (auto intro: exI[of _ "n mod 16"])
  qed
qed

lemma hex_char_not_x: "d < 16 \<Longrightarrow> hex_char d \<noteq> CHR ''x''"
  using hex_val_hex_char[of d] by (auto simp: hex_val_def)

lemma radix16_append:
  "radix16_loop a (xs @ ys) = res_bind (radix16_loop a xs) (\<lambda>b. radix16_loop b ys)"
  by (induction xs arbitrary: a) (auto split: option.splits)

lemma radix16_hex_of_nat: "n < 2 ^ 64 \<Longrightarrow> radix16_loop 0 (hex_of_nat n) = Inr n"
proof (induction n rule: hex_of_nat.induct)
  case (1 n)
  show ?case
  proof (cases "n < 16")
    case True
    then show ?thesis using "1.prems" by (simp add: hex_of_nat.simps[of n] hex_val_hex_char)
  next
    case False
    have "n div 16 < 2 ^ 64" using "1.prems" by simp
    with "1.IH"[OF False] False "1.prems" show ?thesis
      by (simp add: hex_of_nat.simps[of n] radix16_append hex_val_hex_char)
  qed
qed

text \<open>
  Block numbers survive the wire: the hexadecimal text the client sends for a block number
  is read back as the same number, for every 64-bit value.
\<close>

theorem block_number_hex_round_trip: "block_number_try_from (block_number_to_hex_string n) = Inr n"
proof -
  have nox: "CHR ''x'' \<notin> set (hex_of_nat (unat n))"
    using hex_of_nat_chars hex_char_not_x by metis
  have noplus: "hex_of_nat (unat n) \<noteq> CHR ''+'' # cs" for cs
    using hex_of_nat_chars[of "CHR ''+''" "unat n"] hex_char_not_plus by auto metis
  have "radix16_loop 0 (hex_of_nat (unat n)) = Inr (unat n)"
    using unat_lt[of n] by (intro radix16_hex_of_nat) simp
  then show ?thesis
    unfolding block_number_try_from_def str_hex_to_u64_def block_number_to_hex_string_def
      u64_from_str_radix16_def trim_0x_prefix[OF nox] Let_def
    using hex_of_nat_ne[of "unat n"] noplus by (auto split: list.splits)
qed

lemma radix16_bound: "radix16_loop a s = Inr n \<Longrightarrow> a < 2 ^ 64 \<Longrightarrow> n < 2 ^ 64"
  by (induction a s rule: radix16_loop.induct) (auto split: option.splits if_splits)

context hex_codec
begin

lemma trim_encode: "trim_0x (''0x'' @ hex_encode tx bs) = hex_encode tx bs"
  using encode_digits[of bs] by (intro trim_0x_prefix) (auto simp: hex_digits_def)

lemma data_bytes_round_trip:
  "data_bytes_from_hex_str tx (data_bytes_to_hex_string tx bs) = Inr bs"
  unfolding data_bytes_from_hex_str_def data_bytes_to_hex_string_def trim_encode
  by (simp add: decode_encode)

lemma hash256_round_trip: "hash256_try_from tx (hash256_display tx h) = Inr h"
  unfolding hash256_try_from_def hash256_display_def trim_encode
  by (simp add: decode_encode h256_from_slice_def be_simps)

lemma quantity_parity:
  "parse_hex_quantity_to_data_bytes tx hex = Inr bs \<Longrightarrow>
     length bs = (max 1 (length (trim_0x hex)) + 1) div 2"
  using decode_length
  by (fastforce simp: parse_hex_quantity_to_data_bytes_def Let_def res_simps Suc_le_eq max_def
      split: if_splits)

end

section \<open>A hexadecimal codec with the laws\<close>

text \<open>
  Lower-case hexadecimal as the \<^verbatim>\<open>hex\<close> crate documents it: two digits per byte, an odd number
  of characters or a character that is no digit is an error.
\<close>

definition std_hex_encode :: "bytes \<Rightarrow> string" where
  "std_hex_encode bs = concat (map (\<lambda>b. [hex_char (unat b div 16), hex_char (unat b mod 16)]) bs)"

fun std_hex_decode :: "string \<Rightarrow> bytes option" where
  "std_hex_decode [] = Some []"
| "std_hex_decode [c] = None"
| "std_hex_decode (a # b # s) =
     (case (hex_val a, hex_val b, std_hex_decode s) of
        (Some x, Some y, Some r) \<Rightarrow> Some (word_of_nat (16 * x + y) # r)
      | _ \<Rightarrow> None)"

definition std_text :: text_ops where
  "std_text = \<lparr> hex_decode = std_hex_decode, hex_encode = std_hex_encode,
     u256_from_hex = (\<lambda>s. map_option (\<lambda>bs. word_of_nat (be_val bs)) (std_hex_decode s)),
     btc_header_hash = (\<lambda>bs. Some (word_of_nat (be_val bs))) \<rparr>"

lemma std_hex_round_trip: "std_hex_decode (std_hex_encode bs) = Some bs"
proof (induction bs)
  case (Cons b bs)
  have "unat b div 16 < 16" using unat_lt[of b] by simp
  with Cons show ?case by (simp add: std_hex_encode_def hex_val_hex_char)
qed (simp add: std_hex_encode_def)

lemma std_hex_encode_length: "length (std_hex_encode bs) = 2 * length bs"
  by (induction bs) (simp_all add: std_hex_encode_def)

lemma hex_char_digit: "d < 16 \<Longrightarrow> hex_char d \<in> set hex_digits"
proof -
  have "\<forall>d \<in> set [0..<16]. hex_char d \<in> set hex_digits" by code_simp
  then show "d < 16 \<Longrightarrow> ?thesis" by simp
qed

lemma std_hex_encode_digits: "set (std_hex_encode bs) \<subseteq> set hex_digits"
proof -
  have "unat b div 16 < 16" for b :: u8 using unat_lt[of b] by simp
  then show ?thesis by (auto simp: std_hex_encode_def intro!: hex_char_digit)
qed

lemma std_hex_decode_length: "std_hex_decode s = Some bs \<Longrightarrow> length s = 2 * length bs"
  by (induction s arbitrary: bs rule: std_hex_decode.induct) (auto split: option.splits)

lemma hex_codec_std_text: "hex_codec std_text"
  by unfold_locales (simp_all add: std_text_def std_hex_round_trip std_hex_encode_length
      std_hex_encode_digits std_hex_decode_length)

interpretation std_hex: hex_codec std_text
  by (rule hex_codec_std_text)

text \<open>
  Byte strings and hashes survive their textual form: the prefixed hexadecimal text printed
  for them is read back as the same value, for every hexadecimal codec with the laws of the
  \<^verbatim>\<open>hex\<close> crate.
\<close>

theorem hex_text_round_trip:
  assumes "hex_codec tx"
  shows "data_bytes_from_hex_str tx (data_bytes_to_hex_string tx bs) = Inr bs \<and>
    hash256_try_from tx (hash256_display tx h) = Inr h"
  using hex_codec.data_bytes_round_trip[OF assms] hex_codec.hash256_round_trip[OF assms] by blast

theorem hex_text_round_trip_witness:
  "data_bytes_from_hex_str std_text (data_bytes_to_hex_string std_text [222, 173]) = Inr [222, 173] \<and>
   hash256_try_from std_text (hash256_display std_text 48879) = Inr 48879"
  using hex_text_round_trip[OF hex_codec_std_text, of "[222, 173]" 48879] by simp

text \<open>A well-formed hexadecimal string of the wrong length makes the fallible reader panic.\<close>

lemma hash256_wrong_length_panics: "hash256_try_from std_text ''0x00ff'' = Inl SlicePanic"
  by (simp add: hash256_try_from_def std_text_def h256_from_slice_def hex_val_def)

end
