(* ===== verification/Sorted_Map.thy ===== *)
theory Sorted_Map
  imports UB_Prelude
begin

text \<open>
  Ordered maps (\<^verbatim>\<open>std::collections::BTreeMap\<close>) as association lists with strictly increasing
  keys: insertion, the two halves of a map at a key, and the facts that reduce every other
  operation to list operations.
\<close>

definition bt_ok :: "('k::linorder \<times> 'v) list \<Rightarrow> bool" where
  "bt_ok m \<longleftrightarrow> sorted_wrt (<) (map fst m)"

fun bt_insert :: "'k::linorder \<Rightarrow> 'v \<Rightarrow> ('k \<times> 'v) list \<Rightarrow> ('k \<times> 'v) list" where
  "bt_insert k v [] = [(k, v)]"
| "bt_insert k v (p # m) =
     (if k < fst p then (k, v) # p # m
      else if k = fst p then (k, v) # m
      else p # bt_insert k v m)"

definition bt_below :: "'k::linorder \<Rightarrow> ('k \<times> 'v) list \<Rightarrow> ('k \<times> 'v) list" where
  "bt_below k m = filter (\<lambda>p. fst p < k) m"

definition bt_from :: "'k::linorder \<Rightarrow> ('k \<times> 'v) list \<Rightarrow> ('k \<times> 'v) list" where
  "bt_from k m = filter (\<lambda>p. k \<le> fst p) m"

definition bt_above :: "'k::linorder \<Rightarrow> ('k \<times> 'v) list \<Rightarrow> ('k \<times> 'v) list" where
  "bt_above k m = filter (\<lambda>p. k < fst p) m"

definition last_opt :: "'a list \<Rightarrow> 'a option" where
  "last_opt xs = (if xs = [] then None else Some (last xs))"

lemma bt_ok_Nil [simp]: "bt_ok []"
  by (simp add: bt_ok_def)

lemma bt_ok_Cons: "bt_ok (p # m) \<longleftrightarrow> (\<forall>q \<in> set m. fst p < fst q) \<and> bt_ok m"
  by (auto simp: bt_ok_def)

lemma bt_ok_append:
  "bt_ok (m @ n) \<longleftrightarrow> bt_ok m \<and> bt_ok n \<and> (\<forall>p \<in> set m. \<forall>q \<in> set n. fst p < fst q)"
  by (auto simp: bt_ok_def sorted_wrt_append)

lemma bt_ok_filter: "bt_ok m \<Longrightarrow> bt_ok (filter P m)"
  by (induction m) (auto simp: bt_ok_Cons)

lemma bt_ok_parts [intro]: "bt_ok m \<Longrightarrow> bt_ok (bt_below k m)" "bt_ok m \<Longrightarrow> bt_ok (bt_from k m)"
  "bt_ok m \<Longrightarrow> bt_ok (bt_above k m)"
  by (simp_all add: bt_below_def bt_from_def bt_above_def bt_ok_filter)

lemma bt_ok_distinct: "bt_ok m \<Longrightarrow> distinct (map fst m)"
  by (induction m) (auto simp: bt_ok_Cons)

lemma bt_get_iff [btree_simps]: "bt_ok m \<Longrightarrow> map_of m k = Some v \<longleftrightarrow> (k, v) \<in> set m"
  by (simp add: bt_ok_distinct)

lemma bt_split [btree_simps]: "bt_ok m \<Longrightarrow> bt_below k m @ bt_from k m = m"
proof (induction m)
  case (Cons p m)
  show ?case
  proof (cases "fst p < k")
    case True
    with Cons show ?thesis by (simp add: bt_below_def bt_from_def bt_ok_Cons)
  next
    case False
    with Cons.prems have "\<forall>q \<in> set m. k \<le> fst q" by (auto simp: bt_ok_Cons)
    then have "bt_below k m = [] \<and> bt_from k m = m"
      by (auto simp: bt_below_def bt_from_def filter_empty_conv not_less)
    with False show ?thesis by (simp add: bt_below_def bt_from_def)
  qed
qed (simp add: bt_below_def bt_from_def)

lemma bt_insert_split: "bt_ok m \<Longrightarrow> bt_insert k v m = bt_below k m @ (k, v) # bt_above k m"
proof (induction m)
  case (Cons p m)
  show ?case
  proof (cases "fst p < k")
    case True
    with Cons show ?thesis by (auto simp: bt_below_def bt_above_def bt_ok_Cons)
  next
    case False
    with Cons.prems have "\<forall>q \<in> set m. k < fst q" by (auto simp: bt_ok_Cons)
    then have "bt_below k m = [] \<and> bt_above k m = m"
      by (auto simp: bt_below_def bt_above_def filter_empty_conv not_less dest: less_imp_le)
    with False show ?thesis by (auto simp: bt_below_def bt_above_def)
  qed
qed (simp add: bt_below_def bt_above_def)

lemma bt_ok_insert: "bt_ok m \<Longrightarrow> bt_ok (bt_insert k v m)"
  by (auto simp: bt_insert_split bt_ok_append bt_ok_Cons bt_ok_parts)
     (auto simp: bt_below_def bt_above_def)

lemma bt_get_insert: "bt_ok m \<Longrightarrow> map_of (bt_insert k v m) j = (if j = k then Some v else map_of m j)"
  by (induction m) (auto simp: bt_ok_Cons)

lemma bt_last_max: "bt_ok m \<Longrightarrow> p \<in> set m \<Longrightarrow> fst p \<le> fst (last m)"
  by (induction m) (auto simp: bt_ok_Cons dest: less_imp_le)

lemma bt_below_all: "\<forall>p \<in> set m. fst p < k \<Longrightarrow> bt_below k m = m \<and> bt_above k m = []"
  by (auto simp: bt_below_def bt_above_def filter_empty_conv filter_id_conv)

lemma last_opt_simps [simp]: "last_opt [] = None" "last_opt (xs @ [x]) = Some x"
  by (simp_all add: last_opt_def)

lemma last_opt_Some: "last_opt xs = Some x \<longleftrightarrow> xs \<noteq> [] \<and> last xs = x"
  by (auto simp: last_opt_def)

end
