(* ===== verification/Blockchain_View.thy ===== *)
theory Blockchain_View
  imports Core_Types Sorted_Map
begin

text \<open>
  The coordinator's view of the Rootstock chain and the confirmation counters that observe it
  (\<^verbatim>\<open>crates/coordinator/src/blockchain_tracker.rs\<close>). The counters are shared between the view and
  the events that wait for them, so they live in an explicit store of cells and both sides hold
  references into it. Panics of the code are error values. The view is shown to be a contiguous
  chain in every reachable state, to refine a plain list of blocks, and to keep every observer at
  the tip.
\<close>

section \<open>Observers\<close>

record block_confirmations =
  flow_id :: string
  init :: u64
  last_block :: u64
  required :: u32

definition confirmations_new :: "string \<Rightarrow> u64 \<Rightarrow> u32 \<Rightarrow> block_confirmations" where
  "confirmations_new fid b req = \<lparr> flow_id = fid, init = b, last_block = b, required = req \<rparr>"

definition accum :: "block_confirmations \<Rightarrow> u64" where
  "accum c = (if last_block c < init c then 0 else last_block c - init c + 1)"

definition confirmations_is_confirmed :: "block_confirmations \<Rightarrow> bool" where
  "confirmations_is_confirmed c \<longleftrightarrow> ucast (required c) \<le> accum c"

definition on_block_added :: "block_and_uncles \<Rightarrow> block_confirmations \<Rightarrow> block_confirmations" where
  "on_block_added b c = c \<lparr> last_block := bu_number b \<rparr>"

definition on_block_removed :: "block_and_uncles \<Rightarrow> block_confirmations \<Rightarrow> block_confirmations" where
  "on_block_removed b c = c \<lparr> last_block := bu_number b \<rparr>"

text \<open>Calling every observer of a list of references.\<close>

definition notify_cells :: "('o \<Rightarrow> 'o) \<Rightarrow> nat list \<Rightarrow> 'o list \<Rightarrow> 'o list" where
  "notify_cells f refs cells = fold (\<lambda>r cs. cs[r := f (cs ! r)]) refs cells"

section \<open>The view\<close>

datatype view_error = DuplicateObserver | NonConsecutiveBlock | BlockNumberOverflow

record blockchain_view =
  bv_blocks :: "(u64 \<times> block_and_uncles) list"
  bv_observers :: "(string \<times> nat) list"
  bv_cells :: "block_confirmations list"

definition view_new :: blockchain_view where
  "view_new = \<lparr> bv_blocks = [], bv_observers = [], bv_cells = [] \<rparr>"

definition add_observer :: "nat \<Rightarrow> blockchain_view \<Rightarrow> view_error + blockchain_view" where
  "add_observer r v =
     (let observer_id = flow_id (bv_cells v ! r)
      in if map_of (bv_observers v) observer_id \<noteq> None then Inl DuplicateObserver
         else Inr (v \<lparr> bv_observers := AList.update observer_id r (bv_observers v) \<rparr>))"

definition remove_observer :: "string \<Rightarrow> blockchain_view \<Rightarrow> blockchain_view" where
  "remove_observer i v = v \<lparr> bv_observers := AList.delete i (bv_observers v) \<rparr>"

definition notify_added_block :: "block_and_uncles \<Rightarrow> blockchain_view \<Rightarrow> blockchain_view" where
  "notify_added_block b v =
     v \<lparr> bv_cells := notify_cells (on_block_added b) (map snd (bv_observers v)) (bv_cells v) \<rparr>"

definition notify_removed_block :: "block_and_uncles \<Rightarrow> blockchain_view \<Rightarrow> blockchain_view" where
  "notify_removed_block b v =
     v \<lparr> bv_cells := notify_cells (on_block_removed b) (map snd (bv_observers v)) (bv_cells v) \<rparr>"

definition view_validate_consecutive_block :: "core_block \<Rightarrow> core_block \<Rightarrow> view_error + unit" where
  "view_validate_consecutive_block new_tip prev_tip =
     (if cb_number new_tip = cb_number prev_tip + 1 \<and> cb_parent_hash new_tip = cb_hash prev_tip
      then Inr () else Inl NonConsecutiveBlock)"

definition get_from :: "u64 \<Rightarrow> blockchain_view \<Rightarrow> block_and_uncles list" where
  "get_from n v = map snd (bt_from n (bv_blocks v))"

definition get_tip :: "blockchain_view \<Rightarrow> block_and_uncles option" where
  "get_tip v = last_opt (map snd (bv_blocks v))"

definition restart_from :: "u64 \<Rightarrow> blockchain_view \<Rightarrow> blockchain_view" where
  "restart_from n v = v \<lparr> bv_blocks := filter (\<lambda>p. n \<le> bu_number (snd p)) (bv_blocks v) \<rparr>"

definition view_clear :: "blockchain_view \<Rightarrow> blockchain_view" where
  "view_clear v = v \<lparr> bv_blocks := [], bv_observers := [] \<rparr>"

definition has_observers :: "blockchain_view \<Rightarrow> bool" where
  "has_observers v \<longleftrightarrow> bv_observers v \<noteq> []"

definition rollback_to :: "block_and_uncles \<Rightarrow> blockchain_view \<Rightarrow> view_error + blockchain_view" where
  "rollback_to new_tip v =
     (let n = bu_number new_tip;
          tip_parent_opt = last_opt (map snd (bt_below n (bv_blocks v)))
      in res_bind (case tip_parent_opt of
            Some tip_parent \<Rightarrow> view_validate_consecutive_block (bu_block new_tip) (bu_block tip_parent)
          | None \<Rightarrow> Inr ()) (\<lambda>_.
         let replaced_block_opt = map_of (bv_blocks v) n;
             blocks = bt_insert n new_tip (bv_blocks v)
         in res_bind (ok_or (checked_add n 1) BlockNumberOverflow) (\<lambda>next_height.
            let blocks_to_remove = bt_from next_height blocks;
                v1 = v \<lparr> bv_blocks := bt_below next_height blocks \<rparr>;
                v2 = fold (\<lambda>p w. notify_removed_block (snd p) w) (rev blocks_to_remove) v1;
                v3 = (case replaced_block_opt of
                        Some replaced \<Rightarrow> notify_removed_block replaced v2
                      | None \<Rightarrow> v2)
            in Inr (notify_added_block new_tip v3))))"

definition view_update :: "block_and_uncles \<Rightarrow> blockchain_view \<Rightarrow> view_error + blockchain_view" where
  "view_update new_block v =
     (let prev_tip = get_tip v; n = bu_number new_block
      in if (case map_of (bv_blocks v) n of Some stored \<Rightarrow> bu_hash stored = bu_hash new_block
             | None \<Rightarrow> False)
         then Inr v
         else if (case prev_tip of Some t \<Rightarrow> n \<le> bu_number t | None \<Rightarrow> False)
         then rollback_to new_block v
         else res_bind (case prev_tip of
                Some t \<Rightarrow> view_validate_consecutive_block (bu_block new_block) (bu_block t)
              | None \<Rightarrow> Inr ()) (\<lambda>_.
              Inr (notify_added_block new_block
                (v \<lparr> bv_blocks := bt_insert n new_block (bv_blocks v) \<rparr>))))"

section \<open>Events that wait for confirmations\<close>

record confirmable_event =
  ce_id :: string
  ce_req_confirmations :: u32
  ce_confirmations :: "nat option"

definition event_new :: "string \<Rightarrow> u32 \<Rightarrow> confirmable_event" where
  "event_new i req = \<lparr> ce_id = i, ce_req_confirmations = req, ce_confirmations = None \<rparr>"

definition start_confirming ::
  "u64 \<Rightarrow> confirmable_event \<Rightarrow> blockchain_view \<Rightarrow> view_error + confirmable_event \<times> blockchain_view" where
  "start_confirming n e v =
     (let r = length (bv_cells v);
          v1 = v \<lparr> bv_cells := bv_cells v @ [confirmations_new (ce_id e) n (ce_req_confirmations e)] \<rparr>;
          e1 = e \<lparr> ce_confirmations := Some r \<rparr>;
          v2 = remove_observer (ce_id e1) v1
      in res_bind (add_observer r v2) (\<lambda>v3. Inr (e1, v3)))"

definition stop_confirming ::
  "confirmable_event \<Rightarrow> blockchain_view \<Rightarrow> confirmable_event \<times> blockchain_view" where
  "stop_confirming e v = (e \<lparr> ce_confirmations := None \<rparr>, remove_observer (ce_id e) v)"

definition event_is_confirmed :: "confirmable_event \<Rightarrow> blockchain_view \<Rightarrow> bool" where
  "event_is_confirmed e v =
     (case ce_confirmations e of
        None \<Rightarrow> False
      | Some r \<Rightarrow> confirmations_is_confirmed (bv_cells v ! r))"

record confirmable_event_snapshot =
  cs_id :: string
  cs_start_block :: u64
  cs_required_confirmations :: u32

record confirmable_event_state_snapshot =
  ss_id :: string
  ss_start_block :: "u64 option"
  ss_required_confirmations :: u32

definition event_snapshot ::
  "confirmable_event \<Rightarrow> blockchain_view \<Rightarrow> confirmable_event_snapshot option" where
  "event_snapshot e v =
     map_option (\<lambda>r. \<lparr> cs_id = ce_id e, cs_start_block = init (bv_cells v ! r),
       cs_required_confirmations = ce_req_confirmations e \<rparr>) (ce_confirmations e)"

definition event_state_snapshot ::
  "confirmable_event \<Rightarrow> blockchain_view \<Rightarrow> confirmable_event_state_snapshot" where
  "event_state_snapshot e v =
     \<lparr> ss_id = ce_id e, ss_start_block = map_option (\<lambda>r. init (bv_cells v ! r)) (ce_confirmations e),
       ss_required_confirmations = ce_req_confirmations e \<rparr>"

definition event_from_snapshot ::
  "confirmable_event_snapshot \<Rightarrow> blockchain_view \<Rightarrow> view_error + confirmable_event \<times> blockchain_view" where
  "event_from_snapshot s v =
     start_confirming (cs_start_block s) (event_new (cs_id s) (cs_required_confirmations s)) v"

definition event_from_state_snapshot ::
  "confirmable_event_state_snapshot \<Rightarrow> blockchain_view
     \<Rightarrow> view_error + confirmable_event \<times> blockchain_view" where
  "event_from_state_snapshot s v =
     (let e = event_new (ss_id s) (ss_required_confirmations s)
      in case ss_start_block s of
           Some start_block \<Rightarrow> start_confirming start_block e v
         | None \<Rightarrow> Inr (e, v))"

text \<open>Events with a payload; the payload is opaque here.\<close>

record 'd confirmable_event_with_data =
  cd_confirmation :: confirmable_event
  cd_data :: 'd

record 'd confirmable_event_with_data_snapshot =
  ds_confirmation :: confirmable_event_snapshot
  ds_data :: 'd

definition data_event_new :: "string \<Rightarrow> u32 \<Rightarrow> 'd \<Rightarrow> 'd confirmable_event_with_data" where
  "data_event_new i req d = \<lparr> cd_confirmation = event_new i req, cd_data = d \<rparr>"

definition data_event_snapshot ::
  "'d confirmable_event_with_data \<Rightarrow> blockchain_view \<Rightarrow> 'd confirmable_event_with_data_snapshot option" where
  "data_event_snapshot e v =
     map_option (\<lambda>c. \<lparr> ds_confirmation = c, ds_data = cd_data e \<rparr>) (event_snapshot (cd_confirmation e) v)"

definition data_event_from_snapshot ::
  "'d confirmable_event_with_data_snapshot \<Rightarrow> blockchain_view
     \<Rightarrow> view_error + 'd confirmable_event_with_data \<times> blockchain_view" where
  "data_event_from_snapshot s v =
     res_bind (event_from_snapshot (ds_confirmation s) v) (\<lambda>(c, w).
     Inr (\<lparr> cd_confirmation = c, cd_data = ds_data s \<rparr>, w))"

definition snapshot_confirmable_events ::
  "(string \<times> 'd confirmable_event_with_data) list \<Rightarrow> blockchain_view
     \<Rightarrow> (string \<times> 'd confirmable_event_with_data_snapshot) list" where
  "snapshot_confirmable_events evs v =
     fold (\<lambda>(i, s). AList.update i s)
       (List.map_filter (\<lambda>(k, e). map_option (\<lambda>s. (ce_id (cd_confirmation e), s)) (data_event_snapshot e v)) evs) []"

fun restore_events_loop ::
  "(string \<times> 'd confirmable_event_with_data_snapshot) list \<Rightarrow> blockchain_view
     \<Rightarrow> (string \<times> 'd confirmable_event_with_data) list
     \<Rightarrow> view_error + blockchain_view \<times> (string \<times> 'd confirmable_event_with_data) list" where
  "restore_events_loop [] v acc = Inr (v, acc)"
| "restore_events_loop (p # ps) v acc =
     res_bind (data_event_from_snapshot (snd p) v) (\<lambda>(e, w).
     restore_events_loop ps w (AList.update (ce_id (cd_confirmation e)) e acc))"

definition restore_confirmable_events ::
  "(string \<times> 'd confirmable_event_with_data_snapshot) list
     \<Rightarrow> view_error + blockchain_view \<times> (string \<times> 'd confirmable_event_with_data) list" where
  "restore_confirmable_events snaps = restore_events_loop snaps view_new []"

section \<open>The observer interface\<close>

text \<open>
  What the view relies on: callbacks keep the identity of an observer, and after a block is added
  the observer stands at that block. References of the observer map are distinct, so the calls do
  not interfere and their order does not matter.
\<close>

locale blockchain_observer =
  fixes get_id :: "'o \<Rightarrow> string"
    and position :: "'o \<Rightarrow> u64"
    and added :: "block_and_uncles \<Rightarrow> 'o \<Rightarrow> 'o"
    and removed :: "block_and_uncles \<Rightarrow> 'o \<Rightarrow> 'o"
  assumes id_added: "get_id (added b x) = get_id x"
    and id_removed: "get_id (removed b x) = get_id x"
    and position_added: "position (added b x) = bu_number b"

lemma notify_cells_length [simp]: "length (notify_cells f rs cs) = length cs"
  unfolding notify_cells_def by (induction rs arbitrary: cs) simp_all

lemma notify_cells_Cons: "notify_cells f (r # rs) cs = notify_cells f rs (cs[r := f (cs ! r)])"
  by (simp add: notify_cells_def)

lemma update_nth: "j < length xs \<Longrightarrow> xs[i := x] ! j = (if i = j then x else xs ! j)"
  by auto

lemma notify_cells_nth:
  "distinct rs \<Longrightarrow> i < length cs \<Longrightarrow> notify_cells f rs cs ! i = (if i \<in> set rs then f (cs ! i) else cs ! i)"
proof (induction rs arbitrary: cs)
  case Nil
  then show ?case by (simp add: notify_cells_def)
next
  case (Cons r rs)
  then show ?case by (auto simp: notify_cells_Cons update_nth)
qed

context blockchain_observer
begin

lemma notify_keeps_ids:
  assumes "i < length cs"
  shows "get_id (notify_cells (added b) rs cs ! i) = get_id (cs ! i)"
    and "get_id (notify_cells (removed b) rs cs ! i) = get_id (cs ! i)"
  using assms
  by (induction rs arbitrary: cs)
    (auto simp: notify_cells_def update_nth id_added id_removed)

lemma notify_positions:
  assumes "distinct rs" and "set rs \<subseteq> {..<length cs}" and "r \<in> set rs"
  shows "position (notify_cells (added b) rs cs ! r) = bu_number b"
  using assms by (auto simp: notify_cells_nth position_added)

end

interpretation bc: blockchain_observer flow_id last_block on_block_added on_block_removed
  by unfold_locales (simp_all add: on_block_added_def on_block_removed_def)

section \<open>The invariant of a view\<close>

definition linked :: "block_and_uncles \<Rightarrow> block_and_uncles \<Rightarrow> bool" where
  "linked p b \<longleftrightarrow> bu_number b = bu_number p + 1 \<and> bu_parent b = bu_hash p"

definition observers_ok :: "blockchain_view \<Rightarrow> bool" where
  "observers_ok v \<longleftrightarrow> distinct (map fst (bv_observers v)) \<and> distinct (map snd (bv_observers v)) \<and>
     (\<forall>(i, r) \<in> set (bv_observers v). r < length (bv_cells v) \<and> flow_id (bv_cells v ! r) = i)"

definition blocks_ok :: "(u64 \<times> block_and_uncles) list \<Rightarrow> bool" where
  "blocks_ok m \<longleftrightarrow> bt_ok m \<and> (\<forall>p \<in> set m. bu_number (snd p) = fst p) \<and> successively linked (map snd m)"

definition view_ok :: "blockchain_view \<Rightarrow> bool" where
  "view_ok v \<longleftrightarrow> blocks_ok (bv_blocks v) \<and> observers_ok v"

lemma view_ok_new: "view_ok view_new"
  by (simp add: view_ok_def view_new_def blocks_ok_def observers_ok_def)

section \<open>The effect of an update\<close>

text \<open>A block is known when the view holds a block of its height with its hash.\<close>

definition known :: "block_and_uncles \<Rightarrow> blockchain_view \<Rightarrow> bool" where
  "known b v \<longleftrightarrow> (\<exists>c \<in> set (map snd (bv_blocks v)). bu_number c = bu_number b \<and> bu_hash c = bu_hash b)"

definition parent_ok :: "block_and_uncles \<Rightarrow> blockchain_view \<Rightarrow> bool" where
  "parent_ok b v \<longleftrightarrow> (case last_opt (map snd (bt_below (bu_number b) (bv_blocks v))) of
     None \<Rightarrow> True | Some p \<Rightarrow> linked p b)"

definition put_block :: "block_and_uncles \<Rightarrow> blockchain_view \<Rightarrow> blockchain_view" where
  "put_block b v = v \<lparr> bv_blocks := bt_below (bu_number b) (bv_blocks v) @ [(bu_number b, b)],
     bv_cells := notify_cells (on_block_added b) (map snd (bv_observers v)) (bv_cells v) \<rparr>"

lemma put_block_notify:
  "put_block b v = notify_added_block b
     (v \<lparr> bv_blocks := bt_below (bu_number b) (bv_blocks v) @ [(bu_number b, b)] \<rparr>)"
  by (simp add: put_block_def notify_added_block_def)

lemma notify_view [simp]:
  "bv_blocks (notify_added_block b v) = bv_blocks v" "bv_observers (notify_added_block b v) = bv_observers v"
  "bv_blocks (notify_removed_block b v) = bv_blocks v"
  "bv_observers (notify_removed_block b v) = bv_observers v"
  by (simp_all add: notify_added_block_def notify_removed_block_def)

lemma added_after_removed:
  "distinct rs \<Longrightarrow> notify_cells (on_block_added b) rs (notify_cells (on_block_removed c) rs cs) =
     notify_cells (on_block_added b) rs cs"
  by (rule nth_equalityI)
    (auto simp: notify_cells_nth on_block_added_def on_block_removed_def)

lemma notify_added_after_removed:
  "distinct (map snd (bv_observers v)) \<Longrightarrow>
     notify_added_block b (notify_removed_block c v) = notify_added_block b v"
  by (simp add: notify_added_block_def notify_removed_block_def added_after_removed)

lemma notify_added_after_rollback:
  "distinct (map snd (bv_observers v)) \<Longrightarrow>
     notify_added_block b (fold (\<lambda>p w. notify_removed_block (snd p) w) ps v) = notify_added_block b v"
  by (induction ps arbitrary: v) (simp_all add: notify_added_after_removed)

lemma fold_removed_observers [simp]:
  "bv_observers (fold (\<lambda>p w. notify_removed_block (snd p) w) ps v) = bv_observers v"
  by (induction ps arbitrary: v) simp_all

lemma word_less_next:
  fixes n x :: u64
  assumes "unat n + 1 < 2 ^ 64"
  shows "x < n + 1 \<longleftrightarrow> x \<le> n"
  using unat_plus_if_fits[of n 1] assms by (auto simp: word_less_nat_alt word_le_nat_alt)

lemma rollback_blocks:
  fixes n :: u64
  assumes "bt_ok m" and "unat n + 1 < 2 ^ 64"
  shows "bt_below (n + 1) (bt_insert n (b :: 'v) m) = bt_below n m @ [(n, b)]"
proof -
  note next_le = word_less_next[OF assms(2)]
  have "bt_below (n + 1) (bt_below n m) = bt_below n m"
    unfolding bt_below_def next_le by (auto intro: filter_cong less_imp_le)
  moreover have "bt_below (n + 1) (bt_above n m) = []"
    unfolding bt_below_def bt_above_def next_le by (simp add: filter_empty_conv not_le)
  moreover have "bt_below (n + 1) (xs @ (n, b) # ys) =
      bt_below (n + 1) xs @ (n, b) # bt_below (n + 1) ys" for xs ys :: "(u64 \<times> 'v) list"
    unfolding bt_below_def next_le by simp
  ultimately show ?thesis by (simp add: bt_insert_split[OF assms(1)])
qed

lemma validate_linked:
  "view_validate_consecutive_block (bu_block b) (bu_block p) = (if linked p b then Inr () else Inl NonConsecutiveBlock)"
  by (simp add: view_validate_consecutive_block_def linked_def bu_number_def bu_parent_def bu_hash_def)

lemma rollback_to_eq:
  assumes "view_ok v"
  shows "rollback_to b v =
    (if \<not> parent_ok b v then Inl NonConsecutiveBlock
     else if unat (bu_number b) + 1 < 2 ^ 64 then Inr (put_block b v) else Inl BlockNumberOverflow)"
proof -
  let ?n = "bu_number b"
  have ok: "bt_ok (bv_blocks v)" and dist: "distinct (map snd (bv_observers v))"
    using assms by (simp_all add: view_ok_def blocks_ok_def observers_ok_def)
  have "(case last_opt (map snd (bt_below ?n (bv_blocks v))) of
      Some p \<Rightarrow> view_validate_consecutive_block (bu_block b) (bu_block p) | None \<Rightarrow> Inr ()) =
      (if parent_ok b v then Inr () else Inl NonConsecutiveBlock)"
    by (simp add: parent_ok_def validate_linked split: option.splits)
  then show ?thesis
    using dist rollback_blocks[OF ok, of ?n b]
    by (simp add: rollback_to_def Let_def checked_add_def notify_added_after_removed
        notify_added_after_rollback put_block_notify split: option.splits)
qed

lemma tip_above:
  assumes "blocks_ok m" and "last_opt (map snd m) = Some t"
  shows "p \<in> set m \<Longrightarrow> fst p \<le> bu_number t"
proof -
  from assms(2) have "m \<noteq> []" "t = snd (last m)" by (auto simp: last_opt_Some last_map)
  moreover from this have "bu_number t = fst (last m)" using assms(1) by (simp add: blocks_ok_def)
  ultimately show "p \<in> set m \<Longrightarrow> fst p \<le> bu_number t"
    using bt_last_max[of m p] assms(1) by (simp add: blocks_ok_def)
qed

lemma known_iff:
  assumes "view_ok v"
  shows "(case map_of (bv_blocks v) (bu_number b) of Some s \<Rightarrow> bu_hash s = bu_hash b | None \<Rightarrow> False)
    \<longleftrightarrow> known b v"
proof -
  have ok: "bt_ok (bv_blocks v)" "\<forall>p \<in> set (bv_blocks v). bu_number (snd p) = fst p"
    using assms by (simp_all add: view_ok_def blocks_ok_def)
  have "known b v \<longleftrightarrow> (\<exists>s. (bu_number b, s) \<in> set (bv_blocks v) \<and> bu_hash s = bu_hash b)"
    using ok(2) by (force simp: known_def)
  then show ?thesis by (auto simp: bt_get_iff[OF ok(1), symmetric] split: option.splits)
qed

lemma view_update_eq:
  assumes "view_ok v"
  shows "view_update b v =
    (if known b v then Inr v
     else if \<not> parent_ok b v then Inl NonConsecutiveBlock
     else if bu_number b = - 1 \<and> (\<exists>t. get_tip v = Some t \<and> bu_number t = - 1) then Inl BlockNumberOverflow
     else Inr (put_block b v))"
proof -
  let ?n = "bu_number b"
  have blocks: "blocks_ok (bv_blocks v)" using assms by (simp add: view_ok_def)
  have max: "unat ?n + 1 < 2 ^ 64 \<longleftrightarrow> ?n \<noteq> - 1"
    using unat_lt[of ?n] by (auto simp: word_unat_eq_iff unat_max_word)
  show ?thesis
  proof (cases "\<exists>t. get_tip v = Some t \<and> ?n \<le> bu_number t")
    case True
    then obtain t where t: "get_tip v = Some t" "?n \<le> bu_number t" by blast
    have "?n = - 1 \<longleftrightarrow> ?n = - 1 \<and> bu_number t = - 1"
      using t(2) by (auto simp: word_order.extremum_unique)
    with t max show ?thesis
      by (auto simp: view_update_def Let_def known_iff[OF assms] rollback_to_eq[OF assms])
  next
    case False
    have "fst p < ?n" if p: "p \<in> set (bv_blocks v)" for p
    proof -
      from p have "bv_blocks v \<noteq> []" by auto
      then obtain t where t: "get_tip v = Some t" by (simp add: get_tip_def last_opt_def)
      then have "fst p \<le> bu_number t" using tip_above[OF blocks] p by (simp add: get_tip_def)
      with False t show ?thesis by (meson le_less_trans not_le)
    qed
    then have all: "bt_below ?n (bv_blocks v) = bv_blocks v" "bt_above ?n (bv_blocks v) = []"
      using bt_below_all[of "bv_blocks v" ?n] by blast+
    have ins: "bt_insert ?n b (bv_blocks v) = bv_blocks v @ [(?n, b)]"
      using blocks all by (simp add: blocks_ok_def bt_insert_split)
    have "\<not> (\<exists>t. get_tip v = Some t \<and> bu_number t = - 1)"
      using False by auto
    with False all show ?thesis
      by (auto simp: view_update_def Let_def known_iff[OF assms] parent_ok_def get_tip_def ins
          validate_linked put_block_notify split: option.splits)
  qed
qed

section \<open>Reachable views\<close>

lemma successively_snoc:
  "successively P (xs @ [x]) \<longleftrightarrow> successively P xs \<and> (\<forall>y. last_opt xs = Some y \<longrightarrow> P y x)"
  by (auto simp: successively_append_iff last_opt_Some)

lemma blocks_ok_below: "blocks_ok m \<Longrightarrow> blocks_ok (bt_below k m)"
  and blocks_ok_from: "blocks_ok m \<Longrightarrow> blocks_ok (bt_from k m)"
proof -
  assume ok: "blocks_ok m"
  then have split: "m = bt_below k m @ bt_from k m" by (simp add: blocks_ok_def bt_split)
  have "successively linked (map snd (bt_below k m) @ map snd (bt_from k m))"
    using ok split by (metis blocks_ok_def map_append)
  then have "successively linked (map snd (bt_below k m))" "successively linked (map snd (bt_from k m))"
    by (simp_all add: successively_append_iff)
  with ok show "blocks_ok (bt_below k m)" "blocks_ok (bt_from k m)"
    by (auto simp: blocks_ok_def) (auto simp: bt_below_def bt_from_def)
qed

lemma view_ok_put:
  assumes "view_ok v" and "parent_ok b v"
  shows "view_ok (put_block b v)"
proof -
  let ?m = "bt_below (bu_number b) (bv_blocks v)"
  have "blocks_ok ?m" using assms(1) blocks_ok_below by (simp add: view_ok_def)
  moreover have "\<forall>p \<in> set ?m. fst p < bu_number b" by (simp add: bt_below_def)
  ultimately have "blocks_ok (?m @ [(bu_number b, b)])"
    using assms(2)
    by (auto simp: blocks_ok_def bt_ok_append bt_ok_Cons successively_snoc parent_ok_def)
  moreover have "observers_ok (put_block b v)"
    using assms(1) by (auto simp: view_ok_def observers_ok_def put_block_def bc.notify_keeps_ids)
  ultimately show ?thesis by (simp add: view_ok_def put_block_def)
qed

lemma put_block_cell:
  assumes "observers_ok v" and "(i, r) \<in> set (bv_observers v)"
  shows "bv_cells (put_block b v) ! r = (bv_cells v ! r) \<lparr> last_block := bu_number b \<rparr>"
proof -
  have "r < length (bv_cells v)" "distinct (map snd (bv_observers v))"
    using assms by (auto simp: observers_ok_def)
  moreover have "r \<in> set (map snd (bv_observers v))" using assms(2) by force
  ultimately show ?thesis by (simp add: put_block_def notify_cells_nth on_block_added_def)
qed

lemma view_ok_update: "view_ok v \<Longrightarrow> view_update b v = Inr w \<Longrightarrow> view_ok w"
  by (auto simp: view_update_eq view_ok_put split: if_splits)

lemma restart_from_eq: "view_ok v \<Longrightarrow> restart_from n v = v \<lparr> bv_blocks := bt_from n (bv_blocks v) \<rparr>"
proof -
  assume "view_ok v"
  then have "filter (\<lambda>p. n \<le> bu_number (snd p)) (bv_blocks v) = bt_from n (bv_blocks v)"
    unfolding bt_from_def by (intro filter_cong) (auto simp: view_ok_def blocks_ok_def)
  then show ?thesis by (simp add: restart_from_def)
qed

lemma view_ok_restart: "view_ok v \<Longrightarrow> view_ok (restart_from n v)"
  by (simp add: restart_from_eq) (simp add: view_ok_def blocks_ok_from observers_ok_def)

lemma start_confirming_eq:
  "start_confirming n e v = Inr (e \<lparr> ce_confirmations := Some (length (bv_cells v)) \<rparr>,
     v \<lparr> bv_cells := bv_cells v @ [confirmations_new (ce_id e) n (ce_req_confirmations e)],
         bv_observers := AList.delete (ce_id e) (bv_observers v) @ [(ce_id e, length (bv_cells v))] \<rparr>)"
proof -
  have "AList.update k x xs = xs @ [(k, x)]" if "map_of xs k = None" for k :: string and x :: nat and xs
    using that by (induction xs) auto
  then show ?thesis
    by (simp add: start_confirming_def add_observer_def remove_observer_def confirmations_new_def
        Let_def delete_conv')
qed

lemma view_ok_start:
  assumes "view_ok v" and "start_confirming n e v = Inr (e', w)"
  shows "view_ok w"
proof -
  let ?obs = "AList.delete (ce_id e) (bv_observers v)" and ?r = "length (bv_cells v)"
  let ?cells = "bv_cells v @ [confirmations_new (ce_id e) n (ce_req_confirmations e)]"
  have old: "r < ?r \<and> flow_id (bv_cells v ! r) = i" if "(i, r) \<in> set ?obs" for i r
    using that assms(1) by (auto simp: AList.delete_eq view_ok_def observers_ok_def)
  have "distinct (map fst (?obs @ [(ce_id e, ?r)]))"
    using assms(1) by (auto simp: view_ok_def observers_ok_def AList.delete_eq distinct_map_filter)
  moreover have "distinct (map snd (?obs @ [(ce_id e, ?r)]))"
  proof -
    have "?r \<notin> snd ` set ?obs" by (auto dest: old)
    moreover have "distinct (map snd ?obs)"
      using assms(1) by (simp add: view_ok_def observers_ok_def AList.delete_eq distinct_map_filter)
    ultimately show ?thesis by simp
  qed
  moreover have "r < length ?cells \<and> flow_id (?cells ! r) = i" if "(i, r) \<in> set (?obs @ [(ce_id e, ?r)])" for i r
    using that old[of i r] by (auto simp: nth_append confirmations_new_def)
  ultimately have "observers_ok (v \<lparr> bv_cells := ?cells, bv_observers := ?obs @ [(ce_id e, ?r)] \<rparr>)"
    unfolding observers_ok_def by (auto simp: confirmations_new_def)
  with assms show ?thesis by (auto simp: start_confirming_eq view_ok_def)
qed

lemma view_ok_stop: "view_ok v \<Longrightarrow> view_ok (snd (stop_confirming e v))"
  by (auto simp: stop_confirming_def remove_observer_def view_ok_def observers_ok_def
      AList.delete_eq distinct_map_filter)

inductive reachable_view :: "blockchain_view \<Rightarrow> bool" where
  new: "reachable_view view_new"
| update: "reachable_view v \<Longrightarrow> view_update b v = Inr w \<Longrightarrow> reachable_view w"
| restart: "reachable_view v \<Longrightarrow> reachable_view (restart_from n v)"
| start: "reachable_view v \<Longrightarrow> start_confirming n e v = Inr (e', w) \<Longrightarrow> reachable_view w"
| stop: "reachable_view v \<Longrightarrow> reachable_view (snd (stop_confirming e v))"
| clear: "reachable_view v \<Longrightarrow> reachable_view (view_clear v)"

lemma reachable_view_ok: "reachable_view v \<Longrightarrow> view_ok v"
proof (induction rule: reachable_view.induct)
  case new
  show ?case by (rule view_ok_new)
next
  case (update v b w)
  then show ?case using view_ok_update by blast
next
  case (restart v n)
  then show ?case by (blast intro: view_ok_restart)
next
  case (start v n e e' w)
  then show ?case using view_ok_start by blast
next
  case (stop v e)
  then show ?case by (blast intro: view_ok_stop)
next
  case (clear v)
  then show ?case by (simp add: view_clear_def view_ok_def blocks_ok_def observers_ok_def)
qed

section \<open>Properties of the view\<close>

text \<open>
  C17. Every view the coordinator can reach holds a contiguous chain: each block is one higher than
  the block before it, without wrap-around, and names that block's hash as its parent.
\<close>

theorem reachable_view_chain:
  assumes "reachable_view v" and "Suc i < length (bv_blocks v)"
  shows "unat (bu_number (snd (bv_blocks v ! Suc i))) = unat (bu_number (snd (bv_blocks v ! i))) + 1 \<and>
    bu_parent (snd (bv_blocks v ! Suc i)) = bu_hash (snd (bv_blocks v ! i))"
proof -
  let ?p = "bv_blocks v ! i" and ?q = "bv_blocks v ! Suc i"
  have ok: "blocks_ok (bv_blocks v)" using reachable_view_ok[OF assms(1)] by (simp add: view_ok_def)
  then have l: "linked (snd ?p) (snd ?q)"
    using assms(2) by (auto simp: blocks_ok_def successively_conv_nth)
  have "fst ?p < fst ?q"
    using ok assms(2) by (auto simp: blocks_ok_def bt_ok_def sorted_wrt_iff_nth_less)
  then have lt: "bu_number (snd ?p) < bu_number (snd ?q)"
    using ok assms(2) by (simp add: blocks_ok_def)
  have "unat (bu_number (snd ?p)) + 1 < 2 ^ 64"
    using lt unat_lt[of "bu_number (snd ?q)"] by (simp add: word_less_nat_alt)
  then show ?thesis using l unat_plus_if_fits[of "bu_number (snd ?p)" 1] by (simp add: linked_def)
qed

definition sample_chain_block :: "u64 \<Rightarrow> h256 \<Rightarrow> h256 \<Rightarrow> block_and_uncles" where
  "sample_chain_block n h p = new_no_uncles (core_block_new n h p 0 1 1 1 [])"

lemma sample_chain_block_fields [simp]:
  "bu_number (sample_chain_block n h p) = n" "bu_hash (sample_chain_block n h p) = h"
  "bu_parent (sample_chain_block n h p) = p"
  by (simp_all add: sample_chain_block_def new_no_uncles_def core_block_new_def bu_number_def bu_hash_def
      bu_parent_def)

definition sample_view :: blockchain_view where
  "sample_view = \<lparr> bv_blocks = [(5, sample_chain_block 5 50 40), (6, sample_chain_block 6 60 50)],
     bv_observers = [(''flow'', 0)],
     bv_cells = [confirmations_new ''flow'' 5 2 \<lparr> last_block := 6 \<rparr>] \<rparr>"

lemma sample_view_reachable: "reachable_view sample_view"
proof -
  let ?e = "event_new ''flow'' 2"
  let ?v0 = "view_new \<lparr> bv_observers := [(''flow'', 0)], bv_cells := [confirmations_new ''flow'' 5 2] \<rparr>"
  have "start_confirming 5 ?e view_new = Inr (?e \<lparr> ce_confirmations := Some 0 \<rparr>, ?v0)"
    by (simp add: start_confirming_eq view_new_def event_new_def)
  then have r0: "reachable_view ?v0" by (rule reachable_view.start[OF reachable_view.new])
  have "view_update (sample_chain_block 5 50 40) ?v0 =
      Inr (?v0 \<lparr> bv_blocks := [(5, sample_chain_block 5 50 40)] \<rparr>)"
    by (simp add: view_update_def view_new_def get_tip_def Let_def notify_added_block_def
        notify_cells_def on_block_added_def confirmations_new_def)
  then have r1: "reachable_view (?v0 \<lparr> bv_blocks := [(5, sample_chain_block 5 50 40)] \<rparr>)"
    by (rule reachable_view.update[OF r0])
  have "view_update (sample_chain_block 6 60 50) (?v0 \<lparr> bv_blocks := [(5, sample_chain_block 5 50 40)] \<rparr>) =
      Inr sample_view"
    by (simp add: view_update_def view_new_def get_tip_def Let_def notify_added_block_def last_opt_def
        validate_linked linked_def notify_cells_def on_block_added_def confirmations_new_def sample_view_def)
  then show ?thesis by (rule reachable_view.update[OF r1])
qed

theorem reachable_view_chain_witness:
  "unat (bu_number (snd (bv_blocks sample_view ! Suc 0))) =
     unat (bu_number (snd (bv_blocks sample_view ! 0))) + 1 \<and>
   bu_parent (snd (bv_blocks sample_view ! Suc 0)) = bu_hash (snd (bv_blocks sample_view ! 0))"
  by (rule reachable_view_chain[OF sample_view_reachable]) (simp add: sample_view_def)

text \<open>
  C22. The exact effect of a block on a reachable view, reorganisations included: a known block
  changes nothing; otherwise the blocks below its height stay, the block becomes the tip, every
  block at or above its height is dropped and all observers move to it. The code panics exactly
  when the block does not extend the highest block below it, or when the last representable
  height is replaced.
\<close>

theorem view_update_exact:
  assumes "reachable_view v"
  shows "view_update b v =
    (if known b v then Inr v
     else if \<not> parent_ok b v then Inl NonConsecutiveBlock
     else if bu_number b = - 1 \<and> (\<exists>t. get_tip v = Some t \<and> bu_number t = - 1) then Inl BlockNumberOverflow
     else Inr (put_block b v))"
  by (rule view_update_eq[OF reachable_view_ok[OF assms]])

theorem view_update_exact_witness:
  "\<exists>w. view_update (sample_chain_block 6 61 50) sample_view = Inr w \<and>
     map snd (bv_blocks w) = [sample_chain_block 5 50 40, sample_chain_block 6 61 50]"
  unfolding view_update_exact[OF sample_view_reachable]
  by (simp add: known_def parent_ok_def sample_view_def bt_below_def last_opt_def linked_def put_block_def)

text \<open>
  C23. Confirmations count blocks from the start block to the tip: after a new block reaches a
  reachable view, an event registered in it is confirmed exactly when the distance from its start
  block to that block, both included, is at least the number it requires; a reorganisation below
  the start block brings it back to zero.
\<close>

theorem confirmation_count_exact:
  assumes "reachable_view v" and "view_update b v = Inr w" and "\<not> known b v"
    and "ce_confirmations e = Some r" and "(ce_id e, r) \<in> set (bv_observers v)"
    and "bu_number b \<noteq> - 1"
  shows "event_is_confirmed e w \<longleftrightarrow>
    unat (required (bv_cells v ! r)) \<le> Suc (unat (bu_number b)) - unat (init (bv_cells v ! r))"
proof -
  let ?n = "bu_number b" and ?c = "bv_cells v ! r"
  have w: "w = put_block b v"
    using assms(2,3) view_update_eq[OF reachable_view_ok[OF assms(1)]] by (simp split: if_splits)
  have obs: "observers_ok v" using reachable_view_ok[OF assms(1)] by (simp add: view_ok_def)
  have "bv_cells w ! r = ?c \<lparr> last_block := ?n \<rparr>"
    unfolding w using obs assms(5) by (rule put_block_cell)
  moreover have "unat (?n - init ?c + 1) = Suc (unat ?n) - unat (init ?c)" if "init ?c \<le> ?n"
  proof -
    have "unat ?n \<noteq> 2 ^ 64 - 1" using assms(6) by (auto simp: word_unat_eq_iff unat_max_word)
    then have "unat ?n - unat (init ?c) + 1 < 2 ^ 64" using unat_lt[of ?n] by simp
    then show ?thesis
      using that unat_plus_if_fits[of "?n - init ?c" 1] by (simp add: unat_sub word_le_nat_alt Suc_diff_le)
  qed
  moreover have "unat (ucast (required ?c) :: u64) = unat (required ?c)" by (simp add: unat_ucast_up)
  ultimately show ?thesis
    using assms(4)
    by (auto simp: event_is_confirmed_def confirmations_is_confirmed_def accum_def word_le_nat_alt
        word_less_nat_alt not_less)
qed

theorem confirmation_count_exact_witness:
  "\<exists>w. view_update (sample_chain_block 5 51 40) sample_view = Inr w \<and>
     \<not> event_is_confirmed (event_new ''flow'' 2 \<lparr> ce_confirmations := Some 0 \<rparr>) w"
proof -
  have up: "view_update (sample_chain_block 5 51 40) sample_view =
      Inr (put_block (sample_chain_block 5 51 40) sample_view)"
    unfolding view_update_eq[OF reachable_view_ok[OF sample_view_reachable]]
    by (simp add: known_def parent_ok_def sample_view_def bt_below_def)
  have "\<not> known (sample_chain_block 5 51 40) sample_view" by (simp add: known_def sample_view_def)
  from confirmation_count_exact[OF sample_view_reachable up this,
      of "event_new ''flow'' 2 \<lparr> ce_confirmations := Some 0 \<rparr>" 0]
  have "\<not> event_is_confirmed (event_new ''flow'' 2 \<lparr> ce_confirmations := Some 0 \<rparr>)
      (put_block (sample_chain_block 5 51 40) sample_view)"
    by (simp add: sample_view_def event_new_def confirmations_new_def)
  with up show ?thesis by blast
qed


end
