(* ===== verification/Flow_Monad.thy ===== *)
theory Flow_Monad
  imports UB_Prelude
begin

text \<open>
  Methods on \<^verbatim>\<open>&mut self\<close> that return a \<^verbatim>\<open>Result\<close>: a function from the state to an outcome and
  a state. What was assigned before an error stays assigned, as in the code. Preservation of a
  predicate, on success and on error alike, is established by the rules of \<open>keeps_intros\<close>.
\<close>

named_theorems keeps_intros
named_theorems flow_simps

definition fret :: "'a \<Rightarrow> 's \<Rightarrow> ('e + 'a) \<times> 's" where
  "fret x s = (Inr x, s)"

definition ffail :: "'e \<Rightarrow> 's \<Rightarrow> ('e + 'a) \<times> 's" where
  "ffail e s = (Inl e, s)"

definition fbind ::
  "('s \<Rightarrow> ('e + 'a) \<times> 's) \<Rightarrow> ('a \<Rightarrow> 's \<Rightarrow> ('e + 'b) \<times> 's) \<Rightarrow> 's \<Rightarrow> ('e + 'b) \<times> 's" where
  "fbind m f s = (case m s of (Inl e, t) \<Rightarrow> (Inl e, t) | (Inr x, t) \<Rightarrow> f x t)"

definition fseq ::
  "('s \<Rightarrow> ('e + 'a) \<times> 's) \<Rightarrow> ('s \<Rightarrow> ('e + 'b) \<times> 's) \<Rightarrow> 's \<Rightarrow> ('e + 'b) \<times> 's" where
  "fseq m k = fbind m (\<lambda>_. k)"

definition fget :: "('s \<Rightarrow> 'a) \<Rightarrow> 's \<Rightarrow> ('e + 'a) \<times> 's" where
  "fget g s = (Inr (g s), s)"

definition fmod :: "('s \<Rightarrow> 's) \<Rightarrow> 's \<Rightarrow> ('e + unit) \<times> 's" where
  "fmod g s = (Inr (), g s)"

definition fok_or :: "'a option \<Rightarrow> 'e \<Rightarrow> 's \<Rightarrow> ('e + 'a) \<times> 's" where
  "fok_or x e s = (ok_or x e, s)"

definition fensure :: "bool \<Rightarrow> 'e \<Rightarrow> 's \<Rightarrow> ('e + unit) \<times> 's" where
  "fensure b e s = (ensure b e, s)"

definition lift_res :: "'e + 'a \<Rightarrow> 's \<Rightarrow> ('e + 'a) \<times> 's" where
  "lift_res r s = (r, s)"

lemmas flow_defs = fret_def ffail_def fbind_def fseq_def fget_def fmod_def fok_or_def fensure_def

lemma flow_run [flow_simps]:
  "fret x s = (Inr x, s)" "ffail e s = (Inl e, s)" "fget g s = (Inr (g s), s)"
  "fmod h s = (Inr (), h s)" "fok_or (Some y) e s = (Inr y, s)" "fok_or None e s = (Inl e, s)"
  "fensure True e s = (Inr (), s)" "fensure False e s = (Inl e, s)"
  by (simp_all add: flow_defs ensure_def)

lemma fbind_Inr: "m s = (Inr x, t) \<Longrightarrow> fbind m f s = f x t"
  and fbind_Inl: "m s = (Inl e, t) \<Longrightarrow> fbind m f s = (Inl e, t)"
  by (simp_all add: fbind_def)

lemma fbind_run [flow_simps]:
  "fbind (fret x) f s = f x s" "fbind (ffail e) f s = (Inl e, s)" "fbind (fget g) f s = f (g s) s"
  "fbind (fmod h) k s = k () (h s)" "fbind (fok_or (Some y) e) f s = f y s"
  "fbind (fok_or None e) f s = (Inl e, s)" "fbind (fensure True e) k s = k () s"
  "fbind (fensure False e) k s = (Inl e, s)"
  by (simp_all add: flow_defs ensure_def)

lemma fseq_run [flow_simps]:
  "fseq (fret x) m s = m s" "fseq (ffail e) m s = (Inl e, s)"
  "fseq (fmod h) m s = m (h s)" "fseq (fensure True e) m s = m s"
  "fseq (fensure False e) m s = (Inl e, s)"
  by (simp_all add: flow_defs ensure_def)

lemma fbind_fseq [flow_simps]: "fbind (fseq m k) f = fseq m (fbind k f)"
  by (rule ext) (simp add: fseq_def fbind_def split: prod.splits sum.splits)

section \<open>Preserved predicates\<close>

definition keeps :: "('s \<Rightarrow> bool) \<Rightarrow> ('s \<Rightarrow> ('e + 'a) \<times> 's) \<Rightarrow> bool" where
  "keeps P m \<longleftrightarrow> (\<forall>s. P s \<longrightarrow> P (snd (m s)))"

lemma keepsD: "keeps P m \<Longrightarrow> P s \<Longrightarrow> P (snd (m s))"
  by (simp add: keeps_def)

lemma keeps_ret [keeps_intros]: "keeps P (fret x)"
  and keeps_fail [keeps_intros]: "keeps P (ffail e)"
  and keeps_get [keeps_intros]: "keeps P (fget g)"
  and keeps_ok_or [keeps_intros]: "keeps P (fok_or y e)"
  and keeps_ensure [keeps_intros]: "keeps P (fensure b e)"
  by (simp_all add: keeps_def flow_defs)

lemma keeps_mod [keeps_intros]: "(\<And>s. P s \<Longrightarrow> P (g s)) \<Longrightarrow> keeps P (fmod g)"
  by (simp add: keeps_def flow_defs)

lemma keeps_bind [keeps_intros]:
  assumes "keeps P m" and "\<And>x. keeps P (f x)"
  shows "keeps P (fbind m f)"
  unfolding keeps_def
proof (intro allI impI)
  fix s
  assume "P s"
  then have "P (snd (m s))" using assms(1) by (simp add: keeps_def)
  then show "P (snd (fbind m f s))"
    using assms(2) by (auto simp: fbind_def keeps_def split: prod.splits sum.splits)
qed

lemma keeps_seq [keeps_intros]: "keeps P m \<Longrightarrow> keeps P k \<Longrightarrow> keeps P (fseq m k)"
  unfolding fseq_def by (rule keeps_bind)

lemma keeps_if [keeps_intros]: "keeps P m \<Longrightarrow> keeps P k \<Longrightarrow> keeps P (if b then m else k)"
  by simp

lemma keeps_option [keeps_intros]:
  "keeps P m \<Longrightarrow> (\<And>x. keeps P (f x)) \<Longrightarrow> keeps P (case y of None \<Rightarrow> m | Some x \<Rightarrow> f x)"
  by (simp split: option.splits)

lemma keeps_sum [keeps_intros]:
  "(\<And>e. keeps P (g e)) \<Longrightarrow> (\<And>x. keeps P (f x)) \<Longrightarrow> keeps P (case y of Inl e \<Rightarrow> g e | Inr x \<Rightarrow> f x)"
  by (simp split: sum.splits)

section \<open>Outcomes of operations\<close>

text \<open>
  \<open>wp m Q E s\<close>: run from \<open>s\<close>, the operation returns a value and a state with \<open>Q\<close> or fails with an
  error and a state with \<open>E\<close>. The rules of \<open>wp_simps\<close> compute it through the combinators.
\<close>

named_theorems wp_simps

definition wp ::
  "('s \<Rightarrow> ('e + 'a) \<times> 's) \<Rightarrow> ('a \<Rightarrow> 's \<Rightarrow> bool) \<Rightarrow> ('e \<Rightarrow> 's \<Rightarrow> bool) \<Rightarrow> 's \<Rightarrow> bool" where
  "wp m Q E s = (case m s of (Inr x, t) \<Rightarrow> Q x t | (Inl e, t) \<Rightarrow> E e t)"

lemma wp_basic [wp_simps]:
  "wp (fret x) Q E = Q x" "wp (ffail e) Q E = E e" "wp (fget g) Q E = (\<lambda>s. Q (g s) s)"
  "wp (fmod h) Q' E = (\<lambda>s. Q' () (h s))"
  by (simp_all add: fun_eq_iff wp_def flow_defs)

lemma wp_ok_or [wp_simps]: "wp (fok_or y e) Q E = (case y of None \<Rightarrow> E e | Some x \<Rightarrow> Q x)"
  by (simp add: fun_eq_iff wp_def flow_defs split: option.splits)

lemma wp_ensure [wp_simps]: "wp (fensure b e) Q E = (if b then Q () else E e)"
  by (simp add: fun_eq_iff wp_def flow_defs ensure_def)

lemma wp_bind [wp_simps]: "wp (fbind m f) Q E = wp m (\<lambda>x. wp (f x) Q E) E"
  by (simp add: fun_eq_iff wp_def fbind_def split: prod.splits sum.splits)

lemma wp_seq [wp_simps]: "wp (fseq m k) Q E = wp m (\<lambda>_. wp k Q E) E"
  by (simp add: fseq_def wp_bind)

lemma wp_lift_res [wp_simps]: "wp (lift_res r) Q E s = (case r of Inl e \<Rightarrow> E e s | Inr x \<Rightarrow> Q x s)"
  by (simp add: wp_def lift_res_def split: sum.splits)

lemma wp_if [wp_simps]: "wp (if b then m else k) Q E = (if b then wp m Q E else wp k Q E)"
  by simp

lemma wp_Let [wp_simps]: "wp (let y = v in m y) Q E = wp (m v) Q E"
  by (simp add: Let_def)

lemma wp_mono:
  "wp m Q E s \<Longrightarrow> (\<And>x t. Q x t \<Longrightarrow> Q' x t) \<Longrightarrow> (\<And>e t. E e t \<Longrightarrow> E' e t) \<Longrightarrow> wp m Q' E' s"
  by (auto simp: wp_def split: prod.splits sum.splits)

lemma wp_conj: "wp m Q E s \<Longrightarrow> wp m Q' E' s \<Longrightarrow> wp m (\<lambda>x t. Q x t \<and> Q' x t) (\<lambda>e t. E e t \<and> E' e t) s"
  by (auto simp: wp_def split: prod.splits sum.splits)

lemma wp_state: "wp m (\<lambda>_. P) (\<lambda>_. P) s \<longleftrightarrow> P (snd (m s))"
  by (auto simp: wp_def split: prod.splits sum.splits)

lemma wp_okD: "wp m Q E s \<Longrightarrow> m s = (Inr x, t) \<Longrightarrow> Q x t"
  and wp_errorD: "wp m Q E s \<Longrightarrow> m s = (Inl e, t) \<Longrightarrow> E e t"
  by (simp_all add: wp_def)

section \<open>Loops\<close>

text \<open>A loop over a list whose body may return early with an error.\<close>

fun ffor :: "('a \<Rightarrow> 's \<Rightarrow> ('e + unit) \<times> 's) \<Rightarrow> 'a list \<Rightarrow> 's \<Rightarrow> ('e + unit) \<times> 's" where
  "ffor f [] = fret ()"
| "ffor f (x # xs) = fseq (f x) (ffor f xs)"

lemma keeps_for [keeps_intros]: "(\<And>x. keeps P (f x)) \<Longrightarrow> keeps P (ffor f xs)"
  by (induction xs) (auto intro: keeps_intros)

lemma keeps_lift [keeps_intros]: "keeps P (lift_res r)"
  by (simp add: keeps_def lift_res_def)

lemma keeps_wp: "(\<And>s. P s \<Longrightarrow> wp m (\<lambda>_. P) (\<lambda>_. P) s) \<Longrightarrow> keeps P m"
  by (simp add: keeps_def wp_state)

lemma wp_for:
  assumes "I s" and "\<And>x t. x \<in> set xs \<Longrightarrow> I t \<Longrightarrow> wp (f x) (\<lambda>_. I) E t"
  shows "wp (ffor f xs) (\<lambda>_. I) E s"
  using assms
proof (induction xs arbitrary: s)
  case (Cons x xs)
  from Cons.prems(2) [of x s] Cons.prems(1) have "wp (f x) (\<lambda>_. I) E s" by simp
  then have "wp (f x) (\<lambda>_. wp (ffor f xs) (\<lambda>_. I) E) E s"
    by (rule wp_mono) (use Cons in auto)
  then show ?case by (simp add: wp_seq)
qed (simp add: wp_basic)

end
