(* ===== verification/Rsk_Events.thy ===== *)
theory Rsk_Events
  imports Core_Types
begin

text \<open>
  The contract events the coordinator handles and their decoder
  (\<^verbatim>\<open>crates/coordinator/src/types.rs\<close>). The contract bindings are generated outside the
  repository: their payloads are one type parameter, and reading a log as an event of one of the
  seven contracts is a parameter of the decoder. Events with no handler are one constructor of
  each contract.
\<close>

section \<open>Events\<close>

record 'a event_with_block =
  ev_inner :: 'a
  ev_block_number :: u64
  ev_block_hash :: h256
  ev_removed :: bool
  ev_tx_hash :: h256

datatype 'p rsk_peg_manager_events =
    PeginRequested "'p event_with_block"
  | PeginAccepted "'p event_with_block"
  | PegoutRegistered "'p event_with_block"
  | PegoutRequested "'p event_with_block"
  | OperatorTakeTriggered "'p event_with_block"
  | AdvanceFundsRegistered "'p event_with_block"
  | ReimbursementKickoffRegistered "'p event_with_block"
  | RemoveRegisteredPeginRequest "'p event_with_block"
  | AllNoncesReady "h256 event_with_block"
  | AllSignaturesReady "h256 event_with_block"
  | AllOperatorTakeTxidsAdded "'p event_with_block"
  | NewCommitteePending "'p event_with_block"
  | NewCommitteeReady "'p event_with_block"
  | AllCommunicationDataReady "'p event_with_block"
  | MemberInfoDeposited "'p event_with_block"
  | IgnoredEvent
  | UnknownEvent

datatype 'p pegin_manager_events = PinRequested 'p | PinAccepted 'p | PinOther
datatype 'p pegout_manager_events = PoutRegistered 'p | PoutRequested 'p | PoutTakeTriggered 'p
  | PoutAdvanceFunds 'p | PoutKickoff 'p | PoutOther
datatype 'p committee_registry_events = CrNewPendingCommittee 'p | CrNewCommittee 'p
  | CrAllCommunicationDataReady 'p | CrOther
datatype 'p signature_manager_events = SmAllNoncesReady h256 | SmAllSignaturesReady h256
  | SmAllOperatorTakeTxidsAdded 'p | SmOther

record 'p decoders =
  dec_pegin :: "h256 list \<Rightarrow> bytes \<Rightarrow> 'p pegin_manager_events option"
  dec_pegout :: "h256 list \<Rightarrow> bytes \<Rightarrow> 'p pegout_manager_events option"
  dec_committee :: "h256 list \<Rightarrow> bytes \<Rightarrow> 'p committee_registry_events option"
  dec_member :: "h256 list \<Rightarrow> bytes \<Rightarrow> bool"
  dec_stream :: "h256 list \<Rightarrow> bytes \<Rightarrow> bool"
  dec_signature :: "h256 list \<Rightarrow> bytes \<Rightarrow> 'p signature_manager_events option"
  dec_bitcoin :: "h256 list \<Rightarrow> bytes \<Rightarrow> bool"

section \<open>The decoder\<close>

definition extract_log_fields :: "rsk_log \<Rightarrow> h256 list \<times> bytes \<times> u64 \<times> h256 \<times> bool \<times> h256" where
  "extract_log_fields log =
     (le_topics (lg_event log), le_data (lg_event log), li_block_number (lg_info log),
      li_block_hash (lg_info log), li_removed (lg_info log), li_tx_hash (lg_info log))"

definition at_block :: "u64 \<Rightarrow> h256 \<Rightarrow> bool \<Rightarrow> h256 \<Rightarrow> 'a \<Rightarrow> 'a event_with_block" where
  "at_block n h r t x = \<lparr> ev_inner = x, ev_block_number = n, ev_block_hash = h, ev_removed = r, ev_tx_hash = t \<rparr>"

fun convert_pegin_manager_event ::
  "'p pegin_manager_events \<Rightarrow> u64 \<Rightarrow> h256 \<Rightarrow> bool \<Rightarrow> h256 \<Rightarrow> 'p rsk_peg_manager_events" where
  "convert_pegin_manager_event (PinRequested x) n h r t = PeginRequested (at_block n h r t x)"
| "convert_pegin_manager_event (PinAccepted x) n h r t = PeginAccepted (at_block n h r t x)"
| "convert_pegin_manager_event PinOther n h r t = IgnoredEvent"

fun convert_pegout_manager_event ::
  "'p pegout_manager_events \<Rightarrow> u64 \<Rightarrow> h256 \<Rightarrow> bool \<Rightarrow> h256 \<Rightarrow> 'p rsk_peg_manager_events" where
  "convert_pegout_manager_event (PoutRegistered x) n h r t = PegoutRegistered (at_block n h r t x)"
| "convert_pegout_manager_event (PoutRequested x) n h r t = PegoutRequested (at_block n h r t x)"
| "convert_pegout_manager_event (PoutTakeTriggered x) n h r t = OperatorTakeTriggered (at_block n h r t x)"
| "convert_pegout_manager_event (PoutAdvanceFunds x) n h r t = AdvanceFundsRegistered (at_block n h r t x)"
| "convert_pegout_manager_event (PoutKickoff x) n h r t = ReimbursementKickoffRegistered (at_block n h r t x)"
| "convert_pegout_manager_event PoutOther n h r t = IgnoredEvent"

fun convert_committee_registry_event ::
  "'p committee_registry_events \<Rightarrow> u64 \<Rightarrow> h256 \<Rightarrow> bool \<Rightarrow> h256 \<Rightarrow> 'p rsk_peg_manager_events" where
  "convert_committee_registry_event (CrNewPendingCommittee x) n h r t = NewCommitteePending (at_block n h r t x)"
| "convert_committee_registry_event (CrNewCommittee x) n h r t = NewCommitteeReady (at_block n h r t x)"
| "convert_committee_registry_event (CrAllCommunicationDataReady x) n h r t =
     AllCommunicationDataReady (at_block n h r t x)"
| "convert_committee_registry_event CrOther n h r t = IgnoredEvent"

fun convert_signature_manager_event ::
  "'p signature_manager_events \<Rightarrow> u64 \<Rightarrow> h256 \<Rightarrow> bool \<Rightarrow> h256 \<Rightarrow> 'p rsk_peg_manager_events" where
  "convert_signature_manager_event (SmAllNoncesReady x) n h r t = AllNoncesReady (at_block n h r t x)"
| "convert_signature_manager_event (SmAllSignaturesReady x) n h r t = AllSignaturesReady (at_block n h r t x)"
| "convert_signature_manager_event (SmAllOperatorTakeTxidsAdded x) n h r t =
     AllOperatorTakeTxidsAdded (at_block n h r t x)"
| "convert_signature_manager_event SmOther n h r t = IgnoredEvent"

definition try_pegin_manager_events :: "'p decoders \<Rightarrow> rsk_log \<Rightarrow> 'p rsk_peg_manager_events option" where
  "try_pegin_manager_events dec log = (case extract_log_fields log of (topics, data, n, h, r, t) \<Rightarrow>
     map_option (\<lambda>e. convert_pegin_manager_event e n h r t) (dec_pegin dec topics data))"

definition try_pegout_manager_events :: "'p decoders \<Rightarrow> rsk_log \<Rightarrow> 'p rsk_peg_manager_events option" where
  "try_pegout_manager_events dec log = (case extract_log_fields log of (topics, data, n, h, r, t) \<Rightarrow>
     map_option (\<lambda>e. convert_pegout_manager_event e n h r t) (dec_pegout dec topics data))"

definition try_committee_registry_events :: "'p decoders \<Rightarrow> rsk_log \<Rightarrow> 'p rsk_peg_manager_events option" where
  "try_committee_registry_events dec log = (case extract_log_fields log of (topics, data, n, h, r, t) \<Rightarrow>
     map_option (\<lambda>e. convert_committee_registry_event e n h r t) (dec_committee dec topics data))"

definition try_member_registry_events :: "'p decoders \<Rightarrow> rsk_log \<Rightarrow> 'p rsk_peg_manager_events option" where
  "try_member_registry_events dec log = (case extract_log_fields log of (topics, data, n, h, r, t) \<Rightarrow>
     if dec_member dec topics data then Some IgnoredEvent else None)"

definition try_stream_manager_events :: "'p decoders \<Rightarrow> rsk_log \<Rightarrow> 'p rsk_peg_manager_events option" where
  "try_stream_manager_events dec log = (case extract_log_fields log of (topics, data, n, h, r, t) \<Rightarrow>
     if dec_stream dec topics data then Some IgnoredEvent else None)"

definition try_signature_manager_events :: "'p decoders \<Rightarrow> rsk_log \<Rightarrow> 'p rsk_peg_manager_events option" where
  "try_signature_manager_events dec log = (case extract_log_fields log of (topics, data, n, h, r, t) \<Rightarrow>
     map_option (\<lambda>e. convert_signature_manager_event e n h r t) (dec_signature dec topics data))"

definition try_bitcoin_manager_events :: "'p decoders \<Rightarrow> rsk_log \<Rightarrow> 'p rsk_peg_manager_events option" where
  "try_bitcoin_manager_events dec log = (case extract_log_fields log of (topics, data, n, h, r, t) \<Rightarrow>
     if dec_bitcoin dec topics data then Some IgnoredEvent else None)"

definition decode :: "'p decoders \<Rightarrow> rsk_log \<Rightarrow> 'p rsk_peg_manager_events" where
  "decode dec log =
     (if le_topics (lg_event log) = [] then UnknownEvent
      else case try_pegin_manager_events dec log of Some e \<Rightarrow> e | None \<Rightarrow>
      (case try_pegout_manager_events dec log of Some e \<Rightarrow> e | None \<Rightarrow>
      (case try_committee_registry_events dec log of Some e \<Rightarrow> e | None \<Rightarrow>
      (case try_member_registry_events dec log of Some e \<Rightarrow> e | None \<Rightarrow>
      (case try_stream_manager_events dec log of Some e \<Rightarrow> e | None \<Rightarrow>
      (case try_signature_manager_events dec log of Some e \<Rightarrow> e | None \<Rightarrow>
      (case try_bitcoin_manager_events dec log of Some e \<Rightarrow> e | None \<Rightarrow> UnknownEvent)))))))"

section \<open>Where a decoded event comes from\<close>

fun event_origin :: "'p rsk_peg_manager_events \<Rightarrow> (u64 \<times> h256 \<times> bool \<times> h256) option" where
  "event_origin (AllNoncesReady e) = Some (ev_block_number e, ev_block_hash e, ev_removed e, ev_tx_hash e)"
| "event_origin (AllSignaturesReady e) = Some (ev_block_number e, ev_block_hash e, ev_removed e, ev_tx_hash e)"
| "event_origin IgnoredEvent = None"
| "event_origin UnknownEvent = None"
| "event_origin (PeginRequested e) = Some (ev_block_number e, ev_block_hash e, ev_removed e, ev_tx_hash e)"
| "event_origin (PeginAccepted e) = Some (ev_block_number e, ev_block_hash e, ev_removed e, ev_tx_hash e)"
| "event_origin (PegoutRegistered e) = Some (ev_block_number e, ev_block_hash e, ev_removed e, ev_tx_hash e)"
| "event_origin (PegoutRequested e) = Some (ev_block_number e, ev_block_hash e, ev_removed e, ev_tx_hash e)"
| "event_origin (OperatorTakeTriggered e) = Some (ev_block_number e, ev_block_hash e, ev_removed e, ev_tx_hash e)"
| "event_origin (AdvanceFundsRegistered e) = Some (ev_block_number e, ev_block_hash e, ev_removed e, ev_tx_hash e)"
| "event_origin (ReimbursementKickoffRegistered e) = Some (ev_block_number e, ev_block_hash e, ev_removed e, ev_tx_hash e)"
| "event_origin (RemoveRegisteredPeginRequest e) = Some (ev_block_number e, ev_block_hash e, ev_removed e, ev_tx_hash e)"
| "event_origin (AllOperatorTakeTxidsAdded e) = Some (ev_block_number e, ev_block_hash e, ev_removed e, ev_tx_hash e)"
| "event_origin (NewCommitteePending e) = Some (ev_block_number e, ev_block_hash e, ev_removed e, ev_tx_hash e)"
| "event_origin (NewCommitteeReady e) = Some (ev_block_number e, ev_block_hash e, ev_removed e, ev_tx_hash e)"
| "event_origin (AllCommunicationDataReady e) = Some (ev_block_number e, ev_block_hash e, ev_removed e, ev_tx_hash e)"
| "event_origin (MemberInfoDeposited e) = Some (ev_block_number e, ev_block_hash e, ev_removed e, ev_tx_hash e)"

definition log_origin :: "rsk_log \<Rightarrow> u64 \<times> h256 \<times> bool \<times> h256" where
  "log_origin log = (li_block_number (lg_info log), li_block_hash (lg_info log),
     li_removed (lg_info log), li_tx_hash (lg_info log))"

definition from_origin :: "(u64 \<times> h256 \<times> bool \<times> h256) \<Rightarrow> 'p rsk_peg_manager_events \<Rightarrow> bool" where
  "from_origin orig e \<longleftrightarrow> event_origin e \<in> {None, Some orig}"

lemma from_origin_pegin: "from_origin (n, h, r, t) (convert_pegin_manager_event a n h r t)"
  by (cases a) (simp_all add: from_origin_def at_block_def)

lemma from_origin_pegout: "from_origin (n, h, r, t) (convert_pegout_manager_event a n h r t)"
  by (cases a) (simp_all add: from_origin_def at_block_def)

lemma from_origin_committee: "from_origin (n, h, r, t) (convert_committee_registry_event a n h r t)"
  by (cases a) (simp_all add: from_origin_def at_block_def)

lemma from_origin_signature: "from_origin (n, h, r, t) (convert_signature_manager_event a n h r t)"
  by (cases a) (simp_all add: from_origin_def at_block_def)

lemma from_origin_none: "from_origin orig IgnoredEvent" "from_origin orig UnknownEvent"
  by (simp_all add: from_origin_def)

lemmas from_origins = from_origin_pegin from_origin_pegout from_origin_committee from_origin_signature
  from_origin_none

lemma decode_from_origin: "from_origin (log_origin log) (decode dec log)"
  unfolding decode_def log_origin_def
  by (simp add: try_pegin_manager_events_def try_pegout_manager_events_def
      try_committee_registry_events_def try_signature_manager_events_def try_member_registry_events_def
      try_stream_manager_events_def try_bitcoin_manager_events_def extract_log_fields_def from_origins
      split: option.splits)

text \<open>
  Every handled event the decoder produces carries the block number, block hash, removal flag
  and transaction of its own log, and a log without topics is never taken for an event.
\<close>

theorem decode_origin:
  "event_origin (decode dec log) \<in> {None, Some (log_origin log)} \<and>
   (decode dec (log \<lparr> lg_event := (lg_event log) \<lparr> le_topics := [] \<rparr> \<rparr>) = UnknownEvent)"
  using decode_from_origin[of log dec] by (simp add: from_origin_def decode_def)

end
