(* ===== verification/Bitvmx_Types.thy ===== *)
theory Bitvmx_Types
  imports UB_Prelude
begin

text \<open>
  What the coordinator exchanges with the BitVMX client
  (\<^verbatim>\<open>crates/common/bitvmx/src/bitvmx_types.rs\<close>): messages, roles, the derivation of program ids and
  the communication data of a committee; with the flow ids of
  \<^verbatim>\<open>crates/coordinator/src/flows/common/context.rs\<close> and the transaction id order of
  \<^verbatim>\<open>crates/common/core/src/types.rs\<close>. SHA-256 and the reader of socket addresses are parameters.
  Keys, signatures and scripts of the Bitcoin crates are their serialised bytes. Ids are shown to
  be derived from preimages that never coincide for different programs.
\<close>

section \<open>Bitcoin and BitVMX data\<close>

type_synonym uuid = "128 word"
type_synonym txid = h256
type_synonym usize = "64 word"
type_synonym public_key = bytes
type_synonym pub_nonce = bytes
type_synonym maybe_scalar = bytes
type_synonym pub_key_hash = string

record tx_in =
  ti_txid :: txid
  ti_vout :: u32
  ti_sequence :: u32
  ti_script_sig :: bytes
  ti_witness :: "bytes list"

record tx_out =
  to_value :: u64
  to_script_pubkey :: bytes

record btc_tx =
  bt_version :: u32
  bt_lock_time :: u32
  bt_input :: "tx_in list"
  bt_output :: "tx_out list"

datatype ip_addr = IpV4 u32 | IpV6 u128

record socket_addr =
  sa_ip :: ip_addr
  sa_port :: u16

record comms_address =
  ca_address :: socket_addr
  ca_pubkey_hash :: pub_key_hash

datatype transaction_blockchain_status = Orphan | Confirmed | Finalized

record block_info =
  bi_height :: u32
  bi_hash :: h256
  bi_prev_hash :: h256
  bi_txs :: "btc_tx list"

record transaction_status =
  ts_tx_id :: txid
  ts_tx :: btc_tx
  ts_block_info :: "block_info option"
  ts_confirmations :: u32
  ts_status :: transaction_blockchain_status

record btc_tx_spv_proof =
  sp_block_hash :: string
  sp_tx :: btc_tx
  sp_merkle_branch_path :: string
  sp_merkle_branch_hashes :: "bytes list"

datatype participant_role = Prover | Verifier

definition participant_role_to_u8 :: "participant_role \<Rightarrow> u8" where
  "participant_role_to_u8 r = (case r of Prover \<Rightarrow> 1 | Verifier \<Rightarrow> 2)"

definition participant_role_try_from :: "u8 \<Rightarrow> participant_role option" where
  "participant_role_try_from n = (if n = 1 then Some Prover else if n = 2 then Some Verifier else None)"

record pegin_accepted_message =
  pm_committee_id :: uuid
  pm_accept_pegin_txid :: txid
  pm_accept_pegin_sighash :: bytes
  pm_accept_pegin_nonce :: pub_nonce
  pm_accept_pegin_signature :: maybe_scalar
  pm_operator_take_sighash :: "bytes option"
  pm_operator_won_sighash :: "bytes option"

record pegout_accepted =
  pa_committee_id :: uuid
  pa_user_take_txid :: txid
  pa_user_take_sighash :: bytes
  pa_user_take_nonce :: pub_nonce
  pa_user_take_signature :: maybe_scalar

text \<open>The outputs of a partial UTXO, with the scripts that lock them.\<close>

datatype amount_type = AmountValue u64 | AmountReturn | AmountAuto | AmountRecover | AmountNone

datatype winternitz_type = SHA256 | HASH160
datatype key_type = EcdsaKey | XOnlyKey | WinternitzKey winternitz_type
datatype sign_mode = Skip | Single | Aggregate

record script_key =
  sk_name :: string
  sk_key_type :: key_type
  sk_key_position :: u32
  sk_derivation_index :: u32

datatype stack_item = SchnorrSig bool | EcdsaSig bool | WinternitzSig usize | RawItem usize

record protocol_script =
  ps_script :: bytes
  ps_keys :: "(string \<times> script_key) list"
  ps_verifying_key :: "public_key option"
  ps_sign_mode :: sign_mode
  ps_items :: "stack_item list"

datatype output_type =
    Taproot amount_type public_key bytes "protocol_script list"
  | SegwitPublicKey amount_type bytes public_key
  | SegwitScript amount_type bytes protocol_script
  | SegwitUnspendable amount_type bytes
  | ExternalUnknown bytes

type_synonym partial_utxo = "txid \<times> u32 \<times> u64 option \<times> output_type option"

record utxo =
  ut_txid :: txid
  ut_vout :: u32
  ut_amount :: u64
  ut_pub_key :: public_key

datatype variable_types =
  VSecret bytes | VPubKey public_key | VUtxo partial_utxo | VNumber u32 | VString string | VInput bytes

record winternitz_signature =
  ws_hashes :: "bytes list"
  ws_digits :: bytes
  ws_message_length :: usize

datatype witness_types = WSecret bytes | Winternitz winternitz_signature

datatype destination =
    ToAddress string u64
  | P2WPKH public_key u64
  | Batch "destination list"
  | P2TR bytes "protocol_script list" u64

datatype incoming_bitvmx_api_messages =
    Ping uuid
  | SetVar uuid string variable_types
  | SetWitness uuid string witness_types
  | SetFundingUtxo utxo
  | GetVar uuid string
  | GetWitness uuid string
  | GetCommInfo uuid
  | GetTransaction uuid txid
  | GetTransactionInfoByName uuid string
  | GetHashedMessage uuid string u32 u32
  | Setup uuid string "comms_address list" u16
  | SubscribeToTransaction uuid txid
  | SubscribeUTXO uuid
  | SubscribeToRskPegin "u32 option"
  | GetSPVProof txid
  | DispatchTransaction uuid btc_tx
  | DispatchTransactionName uuid string
  | SetupKey uuid "comms_address list" "public_key list option" u16
  | GetAggregatedPubkey uuid
  | GetKeyPair uuid
  | GetEvenPubKey uuid
  | GetPubKey uuid bool
  | SignMessage uuid bytes public_key
  | GenerateZKP uuid bytes string
  | ProofReady uuid
  | GetZKPExecutionResult uuid
  | GetFundingAddress uuid
  | GetFundingBalance uuid
  | SendFunds uuid destination "u64 option"

section \<open>Transaction ids\<close>

definition fb_32_to_txid :: "h256 \<Rightarrow> txid" where
  "fb_32_to_txid b = word_of_nat (be_val (rev (be_word 32 b)))"

definition txid_to_fb_32 :: "txid \<Rightarrow> h256" where
  "txid_to_fb_32 t = word_of_nat (be_val (rev (be_word 32 t)))"

section \<open>Program ids and flow ids\<close>

text \<open>\<^verbatim>\<open>str::as_bytes\<close> of the ASCII salts.\<close>

definition str_bytes :: "string \<Rightarrow> bytes" where
  "str_bytes s = map (\<lambda>c. word_of_nat (of_char c)) s"

definition uuid_from_bytes :: "bytes \<Rightarrow> uuid" where
  "uuid_from_bytes bs = word_of_nat (be_val bs)"

definition finalize_protocol_id :: "(bytes \<Rightarrow> h256) \<Rightarrow> bytes \<Rightarrow> uuid" where
  "finalize_protocol_id sha256 updated = uuid_from_bytes (take 16 (be_word 32 (sha256 updated)))"

definition derive_protocol_id :: "(bytes \<Rightarrow> h256) \<Rightarrow> uuid \<Rightarrow> usize \<Rightarrow> string \<Rightarrow> uuid" where
  "derive_protocol_id sha256 committee_id slot_index salt =
     finalize_protocol_id sha256 (be_word 16 committee_id @ be_word 8 slot_index @ str_bytes salt)"

definition accept_pegin_protocol_id :: "(bytes \<Rightarrow> h256) \<Rightarrow> uuid \<Rightarrow> usize \<Rightarrow> uuid" where
  "accept_pegin_protocol_id sha256 c i = derive_protocol_id sha256 c i ''accept_pegin''"

definition user_take_protocol_id :: "(bytes \<Rightarrow> h256) \<Rightarrow> uuid \<Rightarrow> usize \<Rightarrow> uuid" where
  "user_take_protocol_id sha256 c i = derive_protocol_id sha256 c i ''user_take''"

definition advance_funds_protocol_id :: "(bytes \<Rightarrow> h256) \<Rightarrow> uuid \<Rightarrow> usize \<Rightarrow> uuid" where
  "advance_funds_protocol_id sha256 c i = derive_protocol_id sha256 c i ''advance_funds''"

definition dispute_core_protocol_id :: "(bytes \<Rightarrow> h256) \<Rightarrow> uuid \<Rightarrow> public_key \<Rightarrow> uuid" where
  "dispute_core_protocol_id sha256 c pubkey =
     finalize_protocol_id sha256 (be_word 16 c @ pubkey @ str_bytes ''dispute_core'')"

definition dispute_channel_protocol_id :: "(bytes \<Rightarrow> h256) \<Rightarrow> uuid \<Rightarrow> usize \<Rightarrow> usize \<Rightarrow> uuid" where
  "dispute_channel_protocol_id sha256 c op_index wt_index =
     finalize_protocol_id sha256
       (be_word 16 c @ be_word 8 op_index @ be_word 8 wt_index @ str_bytes ''dispute_channel'')"

definition pairwise_aggregated_key_protocol_id ::
  "(bytes \<Rightarrow> h256) \<Rightarrow> uuid \<Rightarrow> usize \<Rightarrow> usize \<Rightarrow> uuid" where
  "pairwise_aggregated_key_protocol_id sha256 c idx_a idx_b =
     (let (min_i, max_i) = (if idx_a \<le> idx_b then (idx_a, idx_b) else (idx_b, idx_a))
      in finalize_protocol_id sha256
           (be_word 16 c @ be_word 8 min_i @ be_word 8 max_i @ str_bytes ''pairwise_aggregated_key''))"

definition full_penalization_protocol_id :: "(bytes \<Rightarrow> h256) \<Rightarrow> uuid \<Rightarrow> uuid" where
  "full_penalization_protocol_id sha256 c =
     finalize_protocol_id sha256 (be_word 16 c @ str_bytes ''full_penalization'')"

definition take_aggregated_key_protocol_id :: "(bytes \<Rightarrow> h256) \<Rightarrow> uuid \<Rightarrow> uuid" where
  "take_aggregated_key_protocol_id sha256 c =
     finalize_protocol_id sha256 (be_word 16 c @ str_bytes ''take_aggregated_key'')"

definition dispute_aggregated_key_protocol_id :: "(bytes \<Rightarrow> h256) \<Rightarrow> uuid \<Rightarrow> uuid" where
  "dispute_aggregated_key_protocol_id sha256 c =
     finalize_protocol_id sha256 (be_word 16 c @ str_bytes ''dispute_aggregated_key'')"

definition flow_id_from_tx :: "(bytes \<Rightarrow> h256) \<Rightarrow> string \<Rightarrow> bytes \<Rightarrow> uuid" where
  "flow_id_from_tx sha256 salt tx_id_or_hash =
     uuid_from_bytes (take 16 (be_word 32 (sha256 (tx_id_or_hash @ str_bytes salt))))"

section \<open>Communication data of a committee\<close>

datatype comms_error = InconsistentCommitteeSize nat nat | InvalidCommsAddress

fun comms_loop ::
  "(string \<Rightarrow> socket_addr option) \<Rightarrow> string \<Rightarrow> (string \<times> pub_key_hash) list
     \<Rightarrow> comms_address list \<Rightarrow> comms_error + comms_address list" where
  "comms_loop parse_addr my_p2p_address [] acc = Inr acc"
| "comms_loop parse_addr my_p2p_address ((committee_address, pubkey_hash) # rest) acc =
     (let addr = (if committee_address = [] then my_p2p_address else committee_address)
      in res_bind (ok_or (parse_addr addr) InvalidCommsAddress) (\<lambda>address.
         comms_loop parse_addr my_p2p_address rest
           (acc @ [\<lparr> ca_address = address, ca_pubkey_hash = pubkey_hash \<rparr>])))"

definition build_communication_data ::
  "(string \<Rightarrow> socket_addr option) \<Rightarrow> string \<Rightarrow> string list \<Rightarrow> pub_key_hash list
     \<Rightarrow> comms_error + comms_address list" where
  "build_communication_data parse_addr my_p2p_address addresses hashes =
     (if length addresses \<noteq> length hashes
      then Inl (InconsistentCommitteeSize (length addresses) (length hashes))
      else comms_loop parse_addr my_p2p_address (zip addresses hashes) [])"

section \<open>Distinct programs have distinct preimages\<close>

text \<open>What an id can stand for: the nine programs of BitVMX and the three flows keyed by a transaction.\<close>

datatype id_source =
    AcceptPeginProgram uuid usize
  | UserTakeProgram uuid usize
  | AdvanceFundsProgram uuid usize
  | DisputeCoreProgram uuid public_key
  | DisputeChannelProgram uuid usize usize
  | PairwiseKeyProgram uuid usize usize
  | FullPenalizationProgram uuid
  | TakeKeyProgram uuid
  | DisputeKeyProgram uuid
  | PeginFlowOf h256
  | PegoutFlowOf h256
  | OperatorTakeFlowOf h256

fun id_of :: "(bytes \<Rightarrow> h256) \<Rightarrow> id_source \<Rightarrow> uuid" where
  "id_of sha256 (AcceptPeginProgram c i) = accept_pegin_protocol_id sha256 c i"
| "id_of sha256 (UserTakeProgram c i) = user_take_protocol_id sha256 c i"
| "id_of sha256 (AdvanceFundsProgram c i) = advance_funds_protocol_id sha256 c i"
| "id_of sha256 (DisputeCoreProgram c k) = dispute_core_protocol_id sha256 c k"
| "id_of sha256 (DisputeChannelProgram c i j) = dispute_channel_protocol_id sha256 c i j"
| "id_of sha256 (PairwiseKeyProgram c i j) = pairwise_aggregated_key_protocol_id sha256 c i j"
| "id_of sha256 (FullPenalizationProgram c) = full_penalization_protocol_id sha256 c"
| "id_of sha256 (TakeKeyProgram c) = take_aggregated_key_protocol_id sha256 c"
| "id_of sha256 (DisputeKeyProgram c) = dispute_aggregated_key_protocol_id sha256 c"
| "id_of sha256 (PeginFlowOf t) = flow_id_from_tx sha256 ''pegin_flow'' (be_word 32 t)"
| "id_of sha256 (PegoutFlowOf t) = flow_id_from_tx sha256 ''pegout_flow'' (be_word 32 t)"
| "id_of sha256 (OperatorTakeFlowOf t) = flow_id_from_tx sha256 ''operator_take_flow'' (be_word 32 t)"

text \<open>The two members of a pairwise key are not ordered.\<close>

fun canonical_source :: "id_source \<Rightarrow> id_source" where
  "canonical_source (PairwiseKeyProgram c i j) = PairwiseKeyProgram c (min i j) (max i j)"
| "canonical_source p = p"

text \<open>A serialised public key has 33 bytes, or 65 if it is not compressed.\<close>

fun keys_serialised :: "id_source \<Rightarrow> bool" where
  "keys_serialised (DisputeCoreProgram c k) \<longleftrightarrow> length k = 33 \<or> length k = 65"
| "keys_serialised p \<longleftrightarrow> True"

fun id_preimage :: "id_source \<Rightarrow> bytes" where
  "id_preimage (AcceptPeginProgram c i) = be_word 16 c @ be_word 8 i @ str_bytes ''accept_pegin''"
| "id_preimage (UserTakeProgram c i) = be_word 16 c @ be_word 8 i @ str_bytes ''user_take''"
| "id_preimage (AdvanceFundsProgram c i) = be_word 16 c @ be_word 8 i @ str_bytes ''advance_funds''"
| "id_preimage (DisputeCoreProgram c k) = be_word 16 c @ k @ str_bytes ''dispute_core''"
| "id_preimage (DisputeChannelProgram c i j) =
     be_word 16 c @ be_word 8 i @ be_word 8 j @ str_bytes ''dispute_channel''"
| "id_preimage (PairwiseKeyProgram c i j) =
     be_word 16 c @ be_word 8 (min i j) @ be_word 8 (max i j) @ str_bytes ''pairwise_aggregated_key''"
| "id_preimage (FullPenalizationProgram c) = be_word 16 c @ str_bytes ''full_penalization''"
| "id_preimage (TakeKeyProgram c) = be_word 16 c @ str_bytes ''take_aggregated_key''"
| "id_preimage (DisputeKeyProgram c) = be_word 16 c @ str_bytes ''dispute_aggregated_key''"
| "id_preimage (PeginFlowOf t) = be_word 32 t @ str_bytes ''pegin_flow''"
| "id_preimage (PegoutFlowOf t) = be_word 32 t @ str_bytes ''pegout_flow''"
| "id_preimage (OperatorTakeFlowOf t) = be_word 32 t @ str_bytes ''operator_take_flow''"

lemma id_of_preimage: "id_of sha256 p = finalize_protocol_id sha256 (id_preimage p)"
  by (cases p) (simp_all add: accept_pegin_protocol_id_def user_take_protocol_id_def
      advance_funds_protocol_id_def derive_protocol_id_def dispute_core_protocol_id_def
      dispute_channel_protocol_id_def pairwise_aggregated_key_protocol_id_def
      full_penalization_protocol_id_def take_aggregated_key_protocol_id_def
      dispute_aggregated_key_protocol_id_def flow_id_from_tx_def finalize_protocol_id_def min_def max_def)

lemma length_str_bytes [simp]: "length (str_bytes s) = length s"
  by (simp add: str_bytes_def)

lemma be_word_inj128_iff [simp]: "be_word 16 (w :: 128 word) = be_word 16 v \<longleftrightarrow> w = v"
  using be_word_inj [where 'a = 128 and n = 16, simplified] by blast

fun id_kind :: "id_source \<Rightarrow> nat" where
  "id_kind (AcceptPeginProgram c i) = 36"
| "id_kind (UserTakeProgram c i) = 33"
| "id_kind (AdvanceFundsProgram c i) = 37"
| "id_kind (DisputeCoreProgram c k) = 28 + length k"
| "id_kind (DisputeChannelProgram c i j) = 47"
| "id_kind (PairwiseKeyProgram c i j) = 55"
| "id_kind (FullPenalizationProgram c) = 33"
| "id_kind (TakeKeyProgram c) = 35"
| "id_kind (DisputeKeyProgram c) = 38"
| "id_kind (PeginFlowOf t) = 42"
| "id_kind (PegoutFlowOf t) = 43"
| "id_kind (OperatorTakeFlowOf t) = 50"

lemma length_id_preimage: "length (id_preimage p) = id_kind p"
  by (cases p) simp_all

lemma user_take_not_full_penalization:
  "be_word 16 c @ be_word 8 i @ str_bytes ''user_take'' \<noteq> be_word 16 d @ str_bytes ''full_penalization''"
proof
  assume "be_word 16 c @ be_word 8 i @ str_bytes ''user_take'' = be_word 16 d @ str_bytes ''full_penalization''"
  then have "drop 24 (be_word 16 c @ be_word 8 i @ str_bytes ''user_take'') =
      drop 24 (be_word 16 d @ str_bytes ''full_penalization'')" by simp
  then show False by (simp add: str_bytes_def)
qed

lemma id_preimage_inj:
  assumes same: "id_preimage p = id_preimage q" and "keys_serialised p" and "keys_serialised q"
  shows "canonical_source p = canonical_source q"
proof -
  have "id_kind p = id_kind q" using arg_cong [OF same, of length] by (simp only: length_id_preimage)
  with assms show ?thesis
    by (cases p; cases q)
      (auto simp: user_take_not_full_penalization user_take_not_full_penalization [symmetric])
qed

lemma id_preimage_canonical: "canonical_source p = canonical_source q \<Longrightarrow> id_preimage p = id_preimage q"
  by (cases p; cases q) simp_all

lemma be_word_of_be_val: "length bs = 32 \<Longrightarrow> be_word 32 (word_of_nat (be_val bs) :: h256) = bs"
proof -
  assume len: "length bs = 32"
  have "be_val bs < 256 ^ 32" using be_val_bound [of bs] by (simp only: len)
  also have "(256 :: nat) ^ 32 = 2 ^ 256" by simp
  finally have "unat (word_of_nat (be_val bs) :: h256) = be_val bs" by (simp add: unat_of_nat)
  then show ?thesis using be_nat_be_val [of bs] by (simp add: be_word_def len)
qed

lemma uuid_from_bytes_inj:
  assumes "uuid_from_bytes xs = uuid_from_bytes ys" and "length xs = 16" and "length ys = 16"
  shows "xs = ys"
proof -
  have "be_val xs < 2 ^ 128" and "be_val ys < 2 ^ 128"
    using be_val_bound [of xs] be_val_bound [of ys] assms(2,3) by simp_all
  then have "be_val xs = be_val ys"
    using arg_cong [OF assms(1), of unat] by (simp add: uuid_from_bytes_def unat_of_nat)
  then show ?thesis using be_nat_be_val [of xs] be_nat_be_val [of ys] assms(2,3) by metis
qed

lemma finalize_separates:
  assumes "\<And>sha256. finalize_protocol_id sha256 x = finalize_protocol_id sha256 y"
  shows "x = y"
proof (rule ccontr)
  assume "x \<noteq> y"
  let ?h = "\<lambda>b. word_of_nat (be_val (replicate 32 (if b = x then 0 else 1))) :: h256"
  have "take 16 (be_word 32 (?h x)) = take 16 (be_word 32 (?h y))"
    by (rule uuid_from_bytes_inj) (use assms [of ?h] in \<open>simp_all add: finalize_protocol_id_def\<close>)
  with \<open>x \<noteq> y\<close> show False by (simp add: be_word_of_be_val)
qed

text \<open>
  C39. Two ids agree for every hash function exactly when they stand for the same program or flow:
  committee, slot, member keys, the order of operator and watchtower and the kind of program all
  count, the order of the two members of a pairwise key does not. No two derivations ever hash the
  same bytes, so ids only meet through a collision of the truncated SHA-256.
\<close>

theorem ids_name_programs:
  assumes "keys_serialised p" and "keys_serialised q"
  shows "(\<forall>sha256. id_of sha256 p = id_of sha256 q) \<longleftrightarrow> canonical_source p = canonical_source q"
proof
  assume "\<forall>sha256. id_of sha256 p = id_of sha256 q"
  then have "id_preimage p = id_preimage q" using finalize_separates by (simp only: id_of_preimage)
  then show "canonical_source p = canonical_source q" by (rule id_preimage_inj [OF _ assms])
next
  assume "canonical_source p = canonical_source q"
  then have "id_preimage p = id_preimage q" by (rule id_preimage_canonical)
  then show "\<forall>sha256. id_of sha256 p = id_of sha256 q" by (simp only: id_of_preimage) simp
qed

theorem ids_name_programs_witness:
  "(\<forall>sha256. id_of sha256 (PairwiseKeyProgram 7 2 1) = id_of sha256 (PairwiseKeyProgram 7 1 2)) \<and>
   \<not> (\<forall>sha256. id_of sha256 (DisputeChannelProgram 7 2 1) = id_of sha256 (DisputeChannelProgram 7 1 2)) \<and>
   \<not> (\<forall>sha256. id_of sha256 (DisputeCoreProgram 7 (replicate 33 2)) = id_of sha256 (UserTakeProgram 7 1))"
  using ids_name_programs [of "PairwiseKeyProgram 7 2 1" "PairwiseKeyProgram 7 1 2"]
    ids_name_programs [of "DisputeChannelProgram 7 2 1" "DisputeChannelProgram 7 1 2"]
    ids_name_programs [of "DisputeCoreProgram 7 (replicate 33 2)" "UserTakeProgram 7 1"]
  by simp

section \<open>Transaction ids and communication data\<close>

lemma reverse_twice:
  "(word_of_nat (be_val (rev (be_word 32 (word_of_nat (be_val (rev (be_word 32 t))) :: h256)))) :: h256) = t"
  by (simp add: be_word_of_be_val be_val_be_word)

text \<open>
  The byte order of the contracts and that of the Bitcoin crate are converted back and forth
  without loss, and a contract id has the reversed bytes of the transaction id it names.
\<close>

theorem txid_order_round_trip:
  "fb_32_to_txid (txid_to_fb_32 t) = t \<and> txid_to_fb_32 (fb_32_to_txid b) = b \<and>
   be_word 32 (txid_to_fb_32 t) = rev (be_word 32 t)"
  by (simp only: fb_32_to_txid_def txid_to_fb_32_def reverse_twice) (simp add: be_word_of_be_val)

definition comms_entry :: "(string \<Rightarrow> socket_addr option) \<Rightarrow> string \<Rightarrow> string \<times> pub_key_hash \<Rightarrow> comms_address option"
  where "comms_entry parse_addr mine e =
    map_option (\<lambda>a. \<lparr> ca_address = a, ca_pubkey_hash = snd e \<rparr>) (parse_addr (if fst e = [] then mine else fst e))"

lemma comms_loop_exact:
  "comms_loop parse_addr mine es acc = Inr out \<longleftrightarrow>
     (\<exists>new. out = acc @ new \<and> map (comms_entry parse_addr mine) es = map Some new)"
proof (induction es arbitrary: acc)
  case (Cons e es)
  obtain a h where e: "e = (a, h)" by (cases e)
  show ?case
  proof (cases "parse_addr (if a = [] then mine else a)")
    case None
    then show ?thesis by (auto simp: e comms_entry_def Let_def)
  next
    case (Some x)
    then have "comms_loop parse_addr mine (e # es) acc =
        comms_loop parse_addr mine es (acc @ [\<lparr> ca_address = x, ca_pubkey_hash = h \<rparr>])"
      and "comms_entry parse_addr mine e = Some \<lparr> ca_address = x, ca_pubkey_hash = h \<rparr>"
      by (simp_all add: e Let_def comms_entry_def split: if_splits)
    then show ?thesis by (auto simp: Cons.IH Cons_eq_map_conv)
  qed
qed auto

text \<open>
  The communication data of a committee is built exactly when both lists have the same length
  and every address is readable, my own address standing in for each empty one. It then has one
  entry per member, in order, with that member's key hash.
\<close>

theorem build_communication_data_exact:
  "build_communication_data parse_addr mine addresses hashes = Inr out \<longleftrightarrow>
     length addresses = length hashes \<and>
     map (comms_entry parse_addr mine) (zip addresses hashes) = map Some out"
  by (simp add: build_communication_data_def comms_loop_exact)

end
