(* ===== verification/Btc_Signature.thy ===== *)
theory Btc_Signature
  imports Blockchain_View Rsk_Events Flow_Monad Bitvmx_Types
begin

text \<open>
  The subflow that sends a member's nonce and signature for a Bitcoin transaction to the contracts
  (\<^verbatim>\<open>crates/coordinator/src/flows/btc_signature\<close>: \<^verbatim>\<open>btc_signature_lifecycle.rs\<close> and
  \<^verbatim>\<open>btc_signature_subflow.rs\<close>). The contract gateway is a parameter that says whether a call
  succeeds, given the calls made before; every call is recorded with its outcome. Log spans are
  left out. The order of the protocol and what a failed call leaves behind are invariants of all
  reachable states.
\<close>

section \<open>State\<close>

type_synonym partial_signature = bytes

record register_signatures_data =
  rs_hash_to_sign :: h256
  rs_nonce :: pub_nonce
  rs_signature :: partial_signature

datatype sig_call = AddMemberNonce h256 pub_nonce | AddMemberSignature h256 partial_signature

datatype sig_error =
    AlreadyInNoncesStep | NonceSendFailed | NoncesUnsetInSignaturesStep | NotAtNoncesStep
  | NotAtSignaturesStep | NoncesNotCompleted | NonceStepNotFound | SignatureDataMissing
  | SignatureSendFailed | UnexpectedRskEvent | ViewPanic view_error

record sig_env =
  show_uuid :: "uuid \<Rightarrow> string"
  call_ok :: "(sig_call \<times> bool) list \<Rightarrow> sig_call \<Rightarrow> bool"

record sig_lifecycle =
  lc_flow_id :: uuid
  lc_data :: "register_signatures_data option"
  lc_nonce_step :: "confirmable_event option"
  lc_signature_step :: "confirmable_event option"
  lc_view :: blockchain_view
  lc_required_confirmations :: u32
  lc_calls :: "(sig_call \<times> bool) list"

datatype parent_span = SpanPegin uuid | SpanPegout uuid

record sig_sub_flow =
  sf_lifecycle :: sig_lifecycle
  sf_is_done :: bool
  sf_is_nonces_step_done :: bool
  sf_parent_log_id :: string
  sf_parent :: "parent_span option"

definition lifecycle_new :: "uuid \<Rightarrow> u32 \<Rightarrow> sig_lifecycle" where
  "lifecycle_new fid req = \<lparr> lc_flow_id = fid, lc_data = None, lc_nonce_step = None,
     lc_signature_step = None, lc_view = view_new, lc_required_confirmations = req, lc_calls = [] \<rparr>"

section \<open>Lifecycle operations\<close>

text \<open>A call to the contracts, recorded with its outcome.\<close>

definition run_call :: "sig_env \<Rightarrow> sig_call \<Rightarrow> sig_error \<Rightarrow> sig_lifecycle \<Rightarrow> (sig_error + unit) \<times> sig_lifecycle" where
  "run_call env c e l =
     (let ok = call_ok env (lc_calls l) c
      in (if ok then Inr () else Inl e, l \<lparr> lc_calls := lc_calls l @ [(c, ok)] \<rparr>))"

definition modify_event_confirmation_status ::
  "u64 option \<Rightarrow> confirmable_event \<Rightarrow> blockchain_view \<Rightarrow> sig_error + confirmable_event \<times> blockchain_view" where
  "modify_event_confirmation_status block_number ev v =
     (case block_number of
        Some block \<Rightarrow> (case start_confirming block ev v of Inl p \<Rightarrow> Inl (ViewPanic p) | Inr r \<Rightarrow> Inr r)
      | None \<Rightarrow> Inr (stop_confirming ev v))"

definition modify_nonces_confirmation_status ::
  "u64 option \<Rightarrow> sig_lifecycle \<Rightarrow> (sig_error + unit) \<times> sig_lifecycle" where
  "modify_nonces_confirmation_status block_number l =
     (if lc_signature_step l \<noteq> None then (Inl NoncesUnsetInSignaturesStep, l)
      else case lc_nonce_step l of
        None \<Rightarrow> (Inl NotAtNoncesStep, l)
      | Some ev \<Rightarrow>
          (case modify_event_confirmation_status block_number ev (lc_view l) of
             Inl e \<Rightarrow> (Inl e, l)
           | Inr (ev', v') \<Rightarrow> (Inr (), l \<lparr> lc_nonce_step := Some ev', lc_view := v' \<rparr>)))"

definition modify_signatures_confirmation_status ::
  "u64 option \<Rightarrow> sig_lifecycle \<Rightarrow> (sig_error + unit) \<times> sig_lifecycle" where
  "modify_signatures_confirmation_status block_number l =
     (case lc_signature_step l of
        None \<Rightarrow> (Inl NotAtSignaturesStep, l)
      | Some ev \<Rightarrow>
          (case modify_event_confirmation_status block_number ev (lc_view l) of
             Inl e \<Rightarrow> (Inl e, l)
           | Inr (ev', v') \<Rightarrow> (Inr (), l \<lparr> lc_signature_step := Some ev', lc_view := v' \<rparr>)))"

definition nonce_event_id :: "sig_env \<Rightarrow> uuid \<Rightarrow> string" where
  "nonce_event_id env fid = ''add-member-nonce-'' @ show_uuid env fid"

definition signature_event_id :: "sig_env \<Rightarrow> uuid \<Rightarrow> string" where
  "signature_event_id env fid = ''add-member-signature-'' @ show_uuid env fid"

definition send_nonce_to_contracts ::
  "sig_env \<Rightarrow> register_signatures_data \<Rightarrow> sig_lifecycle \<Rightarrow> (sig_error + unit) \<times> sig_lifecycle" where
  "send_nonce_to_contracts env d =
     fbind (fget (\<lambda>l. lc_nonce_step l \<noteq> None \<or> lc_data l \<noteq> None)) (\<lambda>started.
     if started then ffail AlreadyInNoncesStep
     else fseq (fmod (\<lambda>l. l \<lparr> lc_data := Some d \<rparr>))
         (fseq (run_call env (AddMemberNonce (rs_hash_to_sign d) (rs_nonce d)) NonceSendFailed)
           (fmod (\<lambda>l. l \<lparr> lc_nonce_step := Some (event_new (nonce_event_id env (lc_flow_id l))
              (lc_required_confirmations l)) \<rparr>))))"

definition set_all_nonces_ready :: "u64 \<Rightarrow> sig_lifecycle \<Rightarrow> (sig_error + unit) \<times> sig_lifecycle" where
  "set_all_nonces_ready n = modify_nonces_confirmation_status (Some n)"

definition unset_all_nonces_ready :: "sig_lifecycle \<Rightarrow> (sig_error + unit) \<times> sig_lifecycle" where
  "unset_all_nonces_ready = modify_nonces_confirmation_status None"

definition is_all_nonces_ready_confirmed :: "sig_lifecycle \<Rightarrow> bool" where
  "is_all_nonces_ready_confirmed l =
     (case lc_nonce_step l of None \<Rightarrow> False | Some ev \<Rightarrow> event_is_confirmed ev (lc_view l))"

definition stop_nonce_step :: "sig_lifecycle \<Rightarrow> (sig_error + unit) \<times> sig_lifecycle" where
  "stop_nonce_step l =
     (case lc_nonce_step l of
        Some ev \<Rightarrow>
          (case stop_confirming ev (lc_view l) of
             (ev', v') \<Rightarrow> (Inr (), l \<lparr> lc_nonce_step := Some ev', lc_view := v' \<rparr>))
      | None \<Rightarrow> (Inl NonceStepNotFound, l))"

definition send_signature_to_contracts ::
  "sig_env \<Rightarrow> sig_lifecycle \<Rightarrow> (sig_error + unit) \<times> sig_lifecycle" where
  "send_signature_to_contracts env =
     fbind (fget (\<lambda>l. lc_signature_step l \<noteq> None)) (\<lambda>sent.
     if sent then fret ()
     else fbind (fget is_all_nonces_ready_confirmed) (\<lambda>confirmed.
       if \<not> confirmed then ffail NoncesNotCompleted
       else fseq stop_nonce_step
         (fbind (fget lc_data) (\<lambda>data.
          fbind (fok_or data SignatureDataMissing) (\<lambda>d.
          fseq (run_call env (AddMemberSignature (rs_hash_to_sign d) (rs_signature d)) SignatureSendFailed)
            (fmod (\<lambda>l. l \<lparr> lc_signature_step := Some (event_new (signature_event_id env (lc_flow_id l))
               (lc_required_confirmations l)) \<rparr>)))))))"

definition set_all_signatures_ready :: "u64 \<Rightarrow> sig_lifecycle \<Rightarrow> (sig_error + unit) \<times> sig_lifecycle" where
  "set_all_signatures_ready n = modify_signatures_confirmation_status (Some n)"

definition unset_all_signatures_ready :: "sig_lifecycle \<Rightarrow> (sig_error + unit) \<times> sig_lifecycle" where
  "unset_all_signatures_ready = modify_signatures_confirmation_status None"

definition is_all_signatures_ready_confirmed :: "sig_lifecycle \<Rightarrow> bool" where
  "is_all_signatures_ready_confirmed l =
     (case lc_signature_step l of None \<Rightarrow> False | Some ev \<Rightarrow> event_is_confirmed ev (lc_view l))"

definition get_hash_to_sign :: "sig_lifecycle \<Rightarrow> h256 option" where
  "get_hash_to_sign l = map_option rs_hash_to_sign (lc_data l)"

section \<open>Snapshots of a lifecycle\<close>

record sig_lifecycle_snapshot =
  ls_flow_id :: uuid
  ls_data :: "register_signatures_data option"
  ls_nonce_step :: "confirmable_event_state_snapshot option"
  ls_signature_step :: "confirmable_event_state_snapshot option"

definition lifecycle_snapshot :: "sig_lifecycle \<Rightarrow> sig_lifecycle_snapshot" where
  "lifecycle_snapshot l =
     \<lparr> ls_flow_id = lc_flow_id l, ls_data = lc_data l,
       ls_nonce_step = map_option (\<lambda>e. event_state_snapshot e (lc_view l)) (lc_nonce_step l),
       ls_signature_step = map_option (\<lambda>e. event_state_snapshot e (lc_view l)) (lc_signature_step l) \<rparr>"

definition restore_step ::
  "confirmable_event_state_snapshot option \<Rightarrow> blockchain_view
     \<Rightarrow> sig_error + confirmable_event option \<times> blockchain_view" where
  "restore_step s v =
     (case s of
        None \<Rightarrow> Inr (None, v)
      | Some st \<Rightarrow>
          (case event_from_state_snapshot st v of
             Inl p \<Rightarrow> Inl (ViewPanic p)
           | Inr (e, w) \<Rightarrow> Inr (Some e, w)))"

text \<open>The calls already made are not part of a snapshot; they are carried along for the proofs.\<close>

definition lifecycle_from_snapshot ::
  "sig_lifecycle_snapshot \<Rightarrow> u32 \<Rightarrow> (sig_call \<times> bool) list \<Rightarrow> sig_error + sig_lifecycle" where
  "lifecycle_from_snapshot s req calls =
     res_bind (restore_step (ls_nonce_step s) view_new) (\<lambda>(nonce_step, v1).
     res_bind (restore_step (ls_signature_step s) v1) (\<lambda>(signature_step, v2).
     Inr \<lparr> lc_flow_id = ls_flow_id s, lc_data = ls_data s, lc_nonce_step = nonce_step,
           lc_signature_step = signature_step, lc_view = v2, lc_required_confirmations = req,
           lc_calls = calls \<rparr>))"

section \<open>The subflow\<close>

definition sub_flow_new :: "uuid \<Rightarrow> string \<Rightarrow> u32 \<Rightarrow> parent_span option \<Rightarrow> sig_sub_flow" where
  "sub_flow_new fid log_id req parent =
     \<lparr> sf_lifecycle = lifecycle_new fid req, sf_is_done = False, sf_is_nonces_step_done = False,
       sf_parent_log_id = log_id, sf_parent = parent \<rparr>"

definition on_lifecycle ::
  "(sig_lifecycle \<Rightarrow> (sig_error + 'a) \<times> sig_lifecycle) \<Rightarrow> sig_sub_flow \<Rightarrow> (sig_error + 'a) \<times> sig_sub_flow" where
  "on_lifecycle m f = (case m (sf_lifecycle f) of (r, l) \<Rightarrow> (r, f \<lparr> sf_lifecycle := l \<rparr>))"

definition log_id :: "sig_sub_flow \<Rightarrow> string" where
  "log_id f = (let phase = (if sf_is_nonces_step_done f then ''signatures'' else ''nonces'')
     in sf_parent_log_id f @ '' ('' @ phase @ '')'')"

definition start_signature_flow ::
  "sig_env \<Rightarrow> uuid \<Rightarrow> register_signatures_data \<Rightarrow> sig_sub_flow \<Rightarrow> (sig_error + unit) \<times> sig_sub_flow" where
  "start_signature_flow env fid d f =
     (if lc_flow_id (sf_lifecycle f) \<noteq> fid then (Inr (), f)
      else on_lifecycle (send_nonce_to_contracts env d) f)"

definition delegate_rsk_event ::
  "uuid \<Rightarrow> 'p rsk_peg_manager_events \<Rightarrow> sig_sub_flow \<Rightarrow> (sig_error + unit) \<times> sig_sub_flow" where
  "delegate_rsk_event fid event f =
     (if lc_flow_id (sf_lifecycle f) \<noteq> fid then (Inr (), f)
      else case event of
        AllNoncesReady e \<Rightarrow>
          (case get_hash_to_sign (sf_lifecycle f) of
             Some hash \<Rightarrow>
               if hash = ev_inner e
               then if ev_removed e then on_lifecycle unset_all_nonces_ready f
                    else on_lifecycle (set_all_nonces_ready (ev_block_number e)) f
               else (Inr (), f)
           | None \<Rightarrow> (Inr (), f))
      | AllSignaturesReady e \<Rightarrow>
          (case get_hash_to_sign (sf_lifecycle f) of
             Some hash \<Rightarrow>
               if hash = ev_inner e
               then if ev_removed e then on_lifecycle unset_all_signatures_ready f
                    else on_lifecycle (set_all_signatures_ready (ev_block_number e)) f
               else (Inr (), f)
           | None \<Rightarrow> (Inr (), f))
      | _ \<Rightarrow> (Inl UnexpectedRskEvent, f))"

definition update_view :: "block_and_uncles \<Rightarrow> sig_lifecycle \<Rightarrow> (sig_error + unit) \<times> sig_lifecycle" where
  "update_view b l =
     (case view_update b (lc_view l) of
        Inl p \<Rightarrow> (Inl (ViewPanic p), l)
      | Inr v \<Rightarrow> (Inr (), l \<lparr> lc_view := v \<rparr>))"

definition delegate_block ::
  "sig_env \<Rightarrow> block_and_uncles \<Rightarrow> sig_sub_flow \<Rightarrow> (sig_error + unit) \<times> sig_sub_flow" where
  "delegate_block env block =
     fseq (on_lifecycle (update_view block))
      (fbind (fget (\<lambda>f. has_observers (lc_view (sf_lifecycle f)))) (\<lambda>observed.
       if \<not> observed then fret ()
       else fbind (fget (\<lambda>f. \<not> sf_is_nonces_step_done f \<and> is_all_nonces_ready_confirmed (sf_lifecycle f)))
         (\<lambda>nonces.
          if nonces
          then fseq (fmod (\<lambda>f. f \<lparr> sf_is_nonces_step_done := True \<rparr>))
                 (fseq (on_lifecycle (send_signature_to_contracts env)) (fret ()))
          else fbind (fget (\<lambda>f. is_all_signatures_ready_confirmed (sf_lifecycle f))) (\<lambda>signed.
            if signed
            then fmod (\<lambda>f. f \<lparr> sf_is_done := True,
                   sf_lifecycle := (sf_lifecycle f) \<lparr> lc_view := view_clear (lc_view (sf_lifecycle f)) \<rparr> \<rparr>)
            else fret ()))))"

record sig_sub_flow_snapshot =
  fs_lifecycle :: sig_lifecycle_snapshot
  fs_is_done :: bool
  fs_is_nonces_step_done :: bool
  fs_parent_log_id :: string
  fs_parent :: "parent_span option"

definition sub_flow_snapshot :: "sig_sub_flow \<Rightarrow> sig_sub_flow_snapshot" where
  "sub_flow_snapshot f =
     \<lparr> fs_lifecycle = lifecycle_snapshot (sf_lifecycle f), fs_is_done = sf_is_done f,
       fs_is_nonces_step_done = sf_is_nonces_step_done f, fs_parent_log_id = sf_parent_log_id f,
       fs_parent = sf_parent f \<rparr>"

definition sub_flow_from_snapshot ::
  "sig_sub_flow_snapshot \<Rightarrow> u32 \<Rightarrow> (sig_call \<times> bool) list \<Rightarrow> sig_error + sig_sub_flow" where
  "sub_flow_from_snapshot s req calls =
     res_bind (lifecycle_from_snapshot (fs_lifecycle s) req calls) (\<lambda>l.
     Inr \<lparr> sf_lifecycle = l, sf_is_done = fs_is_done s, sf_is_nonces_step_done = fs_is_nonces_step_done s,
           sf_parent_log_id = fs_parent_log_id s, sf_parent = fs_parent s \<rparr>)"

section \<open>Steps of a subflow\<close>

inductive sig_step :: "sig_env \<Rightarrow> sig_sub_flow \<Rightarrow> sig_sub_flow \<Rightarrow> bool" for env where
  start: "sig_step env f (snd (start_signature_flow env fid d f))"
| event: "sig_step env f (snd (delegate_rsk_event fid (ev :: unit rsk_peg_manager_events) f))"
| block: "sig_step env f (snd (delegate_block env b f))"

text \<open>The calls a subflow has made, as its state determines them.\<close>

definition made_calls :: "sig_sub_flow \<Rightarrow> (sig_call \<times> bool) list" where
  "made_calls f =
     (let l = sf_lifecycle f
      in case lc_data l of
           None \<Rightarrow> []
         | Some d \<Rightarrow>
             (AddMemberNonce (rs_hash_to_sign d) (rs_nonce d), lc_nonce_step l \<noteq> None) #
             (if sf_is_nonces_step_done f
              then [(AddMemberSignature (rs_hash_to_sign d) (rs_signature d), lc_signature_step l \<noteq> None)]
              else []))"

definition sig_inv :: "sig_sub_flow \<Rightarrow> bool" where
  "sig_inv f \<longleftrightarrow>
     (let l = sf_lifecycle f
      in lc_calls l = made_calls f \<and>
         (lc_data l = None \<longrightarrow> lc_nonce_step l = None) \<and>
         (lc_nonce_step l = None \<longrightarrow> \<not> sf_is_nonces_step_done f) \<and>
         (\<not> sf_is_nonces_step_done f \<longrightarrow> lc_signature_step l = None) \<and>
         (sf_is_done f \<longrightarrow> lc_signature_step l \<noteq> None))"

lemma sig_inv_new: "sig_inv (sub_flow_new fid i req parent)"
  by (simp add: sig_inv_def made_calls_def sub_flow_new_def lifecycle_new_def Let_def)

lemma start_inv: "sig_inv f \<Longrightarrow> sig_inv (snd (start_signature_flow env fid d f))"
  by (auto simp: start_signature_flow_def on_lifecycle_def send_nonce_to_contracts_def flow_defs run_call_def
      sig_inv_def made_calls_def Let_def split: prod.splits sum.splits if_splits option.splits)

lemma nonces_status_inv: "sig_inv f \<Longrightarrow> sig_inv (snd (on_lifecycle (modify_nonces_confirmation_status n) f))"
  by (auto simp: on_lifecycle_def modify_nonces_confirmation_status_def sig_inv_def made_calls_def Let_def
      split: prod.splits sum.splits if_splits option.splits)

lemma signatures_status_inv:
  "sig_inv f \<Longrightarrow> sig_inv (snd (on_lifecycle (modify_signatures_confirmation_status n) f))"
  by (auto simp: on_lifecycle_def modify_signatures_confirmation_status_def sig_inv_def made_calls_def Let_def
      split: prod.splits sum.splits if_splits option.splits)

lemma event_inv: "sig_inv f \<Longrightarrow> sig_inv (snd (delegate_rsk_event fid ev f))"
  by (auto simp: delegate_rsk_event_def set_all_nonces_ready_def unset_all_nonces_ready_def
      set_all_signatures_ready_def unset_all_signatures_ready_def nonces_status_inv signatures_status_inv
      split: rsk_peg_manager_events.splits option.splits)

lemma send_signature_run:
  assumes "lc_signature_step l = None" and "is_all_nonces_ready_confirmed l" and "lc_data l = Some d"
  shows "\<exists>ev v. lc_nonce_step l \<noteq> None \<and>
    (let c = AddMemberSignature (rs_hash_to_sign d) (rs_signature d); ok = call_ok env (lc_calls l) c;
         l' = l \<lparr> lc_nonce_step := Some ev, lc_view := v, lc_calls := lc_calls l @ [(c, ok)] \<rparr>
     in send_signature_to_contracts env l =
        (if ok then (Inr (), l' \<lparr> lc_signature_step := Some (event_new (signature_event_id env (lc_flow_id l))
            (lc_required_confirmations l)) \<rparr>)
         else (Inl SignatureSendFailed, l')))"
proof -
  obtain ev where ev: "lc_nonce_step l = Some ev"
    using assms(2) by (auto simp: is_all_nonces_ready_confirmed_def split: option.splits)
  show ?thesis
    using assms ev
    by (intro exI[of _ "fst (stop_confirming ev (lc_view l))"] exI[of _ "snd (stop_confirming ev (lc_view l))"])
      (simp add: send_signature_to_contracts_def stop_nonce_step_def run_call_def flow_defs Let_def
        split: prod.splits)
qed

text \<open>What a block does: at most the view, one signature attempt, or the end of the flow.\<close>

lemma delegate_block_cases:
  fixes env b f
  defines "g \<equiv> snd (delegate_block env b f)"
  obtains (quiet) v where "g = f \<lparr> sf_lifecycle := (sf_lifecycle f) \<lparr> lc_view := v \<rparr> \<rparr>"
  | (sign) v where "view_update b (lc_view (sf_lifecycle f)) = Inr v" and "\<not> sf_is_nonces_step_done f"
      and "is_all_nonces_ready_confirmed ((sf_lifecycle f) \<lparr> lc_view := v \<rparr>)"
      and "g = f \<lparr> sf_is_nonces_step_done := True, sf_lifecycle :=
             snd (send_signature_to_contracts env ((sf_lifecycle f) \<lparr> lc_view := v \<rparr>)) \<rparr>"
  | (finish) v w where "view_update b (lc_view (sf_lifecycle f)) = Inr v"
      and "is_all_signatures_ready_confirmed ((sf_lifecycle f) \<lparr> lc_view := v \<rparr>)"
      and "g = f \<lparr> sf_is_done := True, sf_lifecycle := (sf_lifecycle f) \<lparr> lc_view := w \<rparr> \<rparr>"
proof (cases "view_update b (lc_view (sf_lifecycle f))")
  case (Inl p)
  then have "g = f \<lparr> sf_lifecycle := (sf_lifecycle f) \<lparr> lc_view := lc_view (sf_lifecycle f) \<rparr> \<rparr>"
    by (simp add: g_def delegate_block_def flow_defs on_lifecycle_def update_view_def)
  then show thesis by (rule quiet)
next
  case (Inr v)
  let ?l = "(sf_lifecycle f) \<lparr> lc_view := v \<rparr>"
  have run: "delegate_block env b f =
      (if \<not> has_observers v then (Inr (), f \<lparr> sf_lifecycle := ?l \<rparr>)
       else if \<not> sf_is_nonces_step_done f \<and> is_all_nonces_ready_confirmed ?l
       then (case send_signature_to_contracts env ?l of
          (r, l') \<Rightarrow> (r, f \<lparr> sf_is_nonces_step_done := True, sf_lifecycle := l' \<rparr>))
       else if is_all_signatures_ready_confirmed ?l
       then (Inr (), f \<lparr> sf_is_done := True, sf_lifecycle := ?l \<lparr> lc_view := view_clear v \<rparr> \<rparr>)
       else (Inr (), f \<lparr> sf_lifecycle := ?l \<rparr>))"
    using Inr
    by (simp add: delegate_block_def flow_defs on_lifecycle_def update_view_def split: prod.splits sum.splits)
  show thesis
  proof (cases "has_observers v")
    case False
    then show thesis by (intro quiet[of v]) (simp add: g_def run)
  next
    case obs: True
    show thesis
    proof (cases "\<not> sf_is_nonces_step_done f \<and> is_all_nonces_ready_confirmed ?l")
      case True
      with obs show thesis by (intro sign[OF Inr]) (simp_all add: g_def run split: prod.splits)
    next
      case no_nonces: False
      show thesis
      proof (cases "is_all_signatures_ready_confirmed ?l")
        case True
        with obs no_nonces show thesis
          by (intro finish[OF Inr, of "view_clear v"]) (auto simp: g_def run)
      next
        case False
        with obs no_nonces show thesis by (intro quiet[of v]) (auto simp: g_def run)
      qed
    qed
  qed
qed

lemma block_inv: "sig_inv f \<Longrightarrow> sig_inv (snd (delegate_block env b f))"
proof -
  assume inv: "sig_inv f"
  show ?thesis
  proof (cases rule: delegate_block_cases[of env b f])
    case (quiet v)
    with inv show ?thesis by (simp add: sig_inv_def made_calls_def Let_def split: option.splits)
  next
    case (sign v)
    let ?l = "(sf_lifecycle f) \<lparr> lc_view := v \<rparr>"
    have "lc_nonce_step ?l \<noteq> None"
      using sign(3) by (auto simp: is_all_nonces_ready_confirmed_def split: option.splits)
    then obtain d where d: "lc_data ?l = Some d" "lc_signature_step ?l = None"
      using inv sign(2) by (auto simp: sig_inv_def Let_def)
    show ?thesis
      using send_signature_run[OF d(2) sign(3) d(1), of env] inv d sign(2)
      unfolding sign(4) by (auto simp: sig_inv_def made_calls_def Let_def split: if_splits)
  next
    case (finish v w)
    with inv show ?thesis
      by (auto simp: sig_inv_def made_calls_def Let_def is_all_signatures_ready_confirmed_def
          split: option.splits)
  qed
qed

lemma sig_step_inv: "sig_step env f g \<Longrightarrow> sig_inv f \<Longrightarrow> sig_inv g"
  by (induction rule: sig_step.induct) (simp_all add: start_inv event_inv block_inv)

inductive reachable_sig :: "sig_env \<Rightarrow> sig_sub_flow \<Rightarrow> bool" for env where
  new: "reachable_sig env (sub_flow_new fid i req parent)"
| step: "reachable_sig env f \<Longrightarrow> sig_step env f g \<Longrightarrow> reachable_sig env g"

lemma reachable_sig_inv: "reachable_sig env f \<Longrightarrow> sig_inv f"
  by (induction rule: reachable_sig.induct) (simp_all add: sig_inv_new sig_step_inv)

text \<open>The calls of a step extend the calls before it.\<close>

lemma calls_grow_nonces: "lc_calls (sf_lifecycle (snd (on_lifecycle (modify_nonces_confirmation_status n) f))) =
    lc_calls (sf_lifecycle f)"
  and calls_grow_signatures:
  "lc_calls (sf_lifecycle (snd (on_lifecycle (modify_signatures_confirmation_status n) f))) =
    lc_calls (sf_lifecycle f)"
  by (auto simp: on_lifecycle_def modify_nonces_confirmation_status_def
      modify_signatures_confirmation_status_def split: prod.splits sum.splits option.splits if_splits)

lemma event_calls: "lc_calls (sf_lifecycle (snd (delegate_rsk_event fid ev f))) = lc_calls (sf_lifecycle f)"
  by (auto simp: delegate_rsk_event_def set_all_nonces_ready_def unset_all_nonces_ready_def
      set_all_signatures_ready_def unset_all_signatures_ready_def calls_grow_nonces calls_grow_signatures
      split: rsk_peg_manager_events.splits option.splits)

lemma sig_step_calls_prefix:
  "sig_step env f g \<Longrightarrow> \<exists>cs. lc_calls (sf_lifecycle g) = lc_calls (sf_lifecycle f) @ cs"
proof (induction rule: sig_step.induct)
  case (start f fid d)
  show ?case
    by (auto simp: start_signature_flow_def on_lifecycle_def send_nonce_to_contracts_def flow_defs run_call_def
        Let_def split: prod.splits sum.splits if_splits)
next
  case (event f fid ev)
  show ?case by (simp add: event_calls)
next
  case (block f b)
  show ?case
  proof (cases rule: delegate_block_cases[of env b f])
    case (sign v)
    then show ?thesis
      by (auto simp: send_signature_to_contracts_def stop_nonce_step_def run_call_def flow_defs Let_def
          split: prod.splits sum.splits option.splits if_splits)
  qed simp_all
qed

section \<open>Properties of the subflow\<close>

text \<open>
  C3. The contract calls of a signature subflow, whatever the order of requests, events, removals
  and blocks and whichever calls fail: nothing, or one nonce, or one successful nonce followed by
  one signature for the same hash; and a flow is done only after both succeeded.
\<close>

theorem signature_flow_calls:
  assumes "reachable_sig env f"
  shows "(\<exists>h n s. lc_calls (sf_lifecycle f) \<in>
      {[], [(AddMemberNonce h n, False)], [(AddMemberNonce h n, True)],
       [(AddMemberNonce h n, True), (AddMemberSignature h s, False)],
       [(AddMemberNonce h n, True), (AddMemberSignature h s, True)]}) \<and>
    (sf_is_done f \<longrightarrow> (\<exists>h n s. lc_calls (sf_lifecycle f) =
       [(AddMemberNonce h n, True), (AddMemberSignature h s, True)]))"
proof -
  have inv: "sig_inv f" using assms by (rule reachable_sig_inv)
  show ?thesis
  proof (cases "lc_data (sf_lifecycle f)")
    case None
    with inv show ?thesis by (auto simp: sig_inv_def made_calls_def Let_def)
  next
    case (Some d)
    note data = exI[of _ "rs_hash_to_sign d"] exI[of _ "rs_nonce d"] exI[of _ "rs_signature d"]
    from inv Some show ?thesis
      by (intro conjI impI data)
        (auto simp: sig_inv_def made_calls_def Let_def split: option.splits if_splits)
  qed
qed

definition sample_env :: sig_env where
  "sample_env = \<lparr> show_uuid = (\<lambda>_. ''u''), call_ok = (\<lambda>_ _. True) \<rparr>"

definition sample_data :: register_signatures_data where
  "sample_data = \<lparr> rs_hash_to_sign = 9, rs_nonce = [1], rs_signature = [2] \<rparr>"

theorem signature_flow_calls_witness:
  "(\<exists>h n s. lc_calls (sf_lifecycle (snd (start_signature_flow sample_env 1 sample_data
       (sub_flow_new 1 ''p'' 1 None)))) \<in>
      {[], [(AddMemberNonce h n, False)], [(AddMemberNonce h n, True)],
       [(AddMemberNonce h n, True), (AddMemberSignature h s, False)],
       [(AddMemberNonce h n, True), (AddMemberSignature h s, True)]}) \<and>
   lc_calls (sf_lifecycle (snd (start_signature_flow sample_env 1 sample_data
       (sub_flow_new 1 ''p'' 1 None)))) = [(AddMemberNonce 9 [1], True)]"
  using signature_flow_calls[OF reachable_sig.step[OF reachable_sig.new sig_step.start],
      of sample_env 1 sample_data 1 "''p''" 1 None]
  by (simp add: start_signature_flow_def on_lifecycle_def send_nonce_to_contracts_def flow_defs run_call_def
      sub_flow_new_def lifecycle_new_def sample_env_def sample_data_def Let_def)

text \<open>
  C27. A failed contract call is final: after a reachable subflow has seen a call fail, no sequence
  of requests, events and blocks makes it call the contracts again or complete.
\<close>

theorem failed_call_is_final:
  assumes "reachable_sig env f" and "(c, False) \<in> set (lc_calls (sf_lifecycle f))"
    and "(sig_step env)\<^sup>*\<^sup>* f g"
  shows "lc_calls (sf_lifecycle g) = lc_calls (sf_lifecycle f) \<and> \<not> sf_is_done g"
proof -
  from assms(3) have "reachable_sig env g \<and> lc_calls (sf_lifecycle g) = lc_calls (sf_lifecycle f)"
  proof (induction rule: rtranclp_induct)
    case base
    then show ?case using assms(1) by simp
  next
    case (step g g')
    then have "reachable_sig env g'" by (blast intro: reachable_sig.step)
    moreover obtain cs where cs: "lc_calls (sf_lifecycle g') = lc_calls (sf_lifecycle g) @ cs"
      using sig_step_calls_prefix[OF step(2)] by blast
    moreover have "cs = []"
      using assms(2) step.IH cs reachable_sig_inv[OF \<open>reachable_sig env g'\<close>]
      by (auto simp: sig_inv_def made_calls_def Let_def append_eq_Cons_conv Cons_eq_append_conv
          split: option.splits if_splits)
    ultimately show ?case using step.IH by simp
  qed
  then show ?thesis
    using assms(2) reachable_sig_inv[of env g]
    by (auto simp: sig_inv_def made_calls_def Let_def split: option.splits if_splits)
qed

theorem failed_call_is_final_witness:
  "\<exists>f. (AddMemberNonce 9 [1], False) \<in> set (lc_calls (sf_lifecycle f)) \<and>
     \<not> sf_is_done (snd (start_signature_flow sample_env 1 sample_data f))"
proof -
  let ?env = "sample_env \<lparr> call_ok := (\<lambda>_ _. False) \<rparr>"
  let ?f = "snd (start_signature_flow ?env 1 sample_data (sub_flow_new 1 ''p'' 1 None))"
  have r: "reachable_sig ?env ?f" by (rule reachable_sig.step[OF reachable_sig.new sig_step.start])
  have c: "(AddMemberNonce 9 [1], False) \<in> set (lc_calls (sf_lifecycle ?f))"
    by (simp add: start_signature_flow_def on_lifecycle_def send_nonce_to_contracts_def flow_defs run_call_def
        sub_flow_new_def lifecycle_new_def sample_env_def sample_data_def Let_def)
  have "start_signature_flow ?env 1 sample_data ?f = start_signature_flow sample_env 1 sample_data ?f"
    by (simp add: start_signature_flow_def on_lifecycle_def send_nonce_to_contracts_def flow_defs run_call_def
        sub_flow_new_def lifecycle_new_def sample_env_def sample_data_def Let_def)
  moreover have "\<not> sf_is_done (snd (start_signature_flow ?env 1 sample_data ?f))"
    using failed_call_is_final[OF r c r_into_rtranclp[of "sig_step ?env", OF sig_step.start]] by blast
  ultimately show ?thesis using c by auto
qed


definition sample_nonces_ready :: "unit rsk_peg_manager_events" where
  "sample_nonces_ready = AllNoncesReady \<lparr> ev_inner = 9, ev_block_number = 5, ev_block_hash = 50,
     ev_removed = False, ev_tx_hash = 0 \<rparr>"

definition sample_waiting_flow :: sig_sub_flow where
  "sample_waiting_flow = snd (delegate_rsk_event 1 sample_nonces_ready
     (snd (start_signature_flow sample_env 1 sample_data (sub_flow_new 1 ''p'' 1 None))))"


lemma restore_step_ok:
  "\<exists>e w xs. restore_step s v = Inr (e, w) \<and> map_option (\<lambda>x. event_state_snapshot x w) e = s \<and>
     bv_cells w = bv_cells v @ xs \<and>
     (\<forall>x r. e = Some x \<longrightarrow> ce_confirmations x = Some r \<longrightarrow> r < length (bv_cells w))"
proof (cases s)
  case (Some st)
  then show ?thesis
    by (cases "ss_start_block st")
      (simp_all add: restore_step_def event_from_state_snapshot_def event_state_snapshot_def
        start_confirming_eq event_new_def confirmations_new_def)
qed (simp add: restore_step_def)


end
