(* ===== verification/Schedulers.thy ===== *)
theory Schedulers
  imports UB_Prelude
begin

text \<open>
  The schedulers of the coordinator (\<^verbatim>\<open>crates/coordinator/src/types.rs\<close>): delays counted in
  ticks, retries that carry their attempt number, and timeouts counted in block time. Hash maps
  are association lists with distinct keys; the order in which a map is walked is the order of
  the list, and the statements do not depend on it.
\<close>

section \<open>Ticks\<close>

record 'k tick_scheduler =
  ts_pending :: "('k \<times> u32) list"

definition tick_new :: "'k tick_scheduler" where
  "tick_new = \<lparr> ts_pending = [] \<rparr>"

definition tick_schedule :: "'k \<Rightarrow> u32 \<Rightarrow> 'k tick_scheduler \<Rightarrow> 'k tick_scheduler" where
  "tick_schedule i delay_ticks s = s \<lparr> ts_pending := AList.update i delay_ticks (ts_pending s) \<rparr>"

definition tick_cancel :: "'k \<Rightarrow> 'k tick_scheduler \<Rightarrow> 'k tick_scheduler" where
  "tick_cancel i s = s \<lparr> ts_pending := AList.delete i (ts_pending s) \<rparr>"

definition tick_is_scheduled :: "'k \<Rightarrow> 'k tick_scheduler \<Rightarrow> bool" where
  "tick_is_scheduled i s \<longleftrightarrow> map_of (ts_pending s) i \<noteq> None"

text \<open>The loop over the map counts down and collects; the second loop removes what is ready.\<close>

definition count_down :: "u32 \<Rightarrow> u32" where
  "count_down ticks = (if 0 < ticks then ticks - 1 else ticks)"

definition tick :: "'k tick_scheduler \<Rightarrow> 'k list \<times> 'k tick_scheduler" where
  "tick s =
     (let counted = map (\<lambda>(i, ticks). (i, count_down ticks)) (ts_pending s);
          ready = map fst (filter (\<lambda>(i, ticks). ticks = 0) counted)
      in (ready, s \<lparr> ts_pending := fold AList.delete ready counted \<rparr>))"

definition tick_is_empty :: "'k tick_scheduler \<Rightarrow> bool" where
  "tick_is_empty s \<longleftrightarrow> ts_pending s = []"

definition tick_clear :: "'k tick_scheduler \<Rightarrow> 'k tick_scheduler" where
  "tick_clear s = s \<lparr> ts_pending := [] \<rparr>"

section \<open>Retries\<close>

type_synonym i16 = "16 word"

record 'k retry_tracker =
  rt_attempts :: "('k \<times> i16) list"
  rt_scheduler :: "'k tick_scheduler"

definition retry_new :: "'k retry_tracker" where
  "retry_new = \<lparr> rt_attempts = [], rt_scheduler = tick_new \<rparr>"

definition retry_schedule :: "'k \<Rightarrow> i16 \<Rightarrow> u32 \<Rightarrow> 'k retry_tracker \<Rightarrow> 'k retry_tracker" where
  "retry_schedule i attempt delay_ticks r =
     r \<lparr> rt_attempts := AList.update i attempt (rt_attempts r),
         rt_scheduler := tick_schedule i delay_ticks (rt_scheduler r) \<rparr>"

fun take_attempts :: "'k list \<Rightarrow> ('k \<times> i16) list \<Rightarrow> ('k \<times> i16) list \<times> ('k \<times> i16) list" where
  "take_attempts [] m = ([], m)"
| "take_attempts (i # is) m =
     (case take_attempts is (AList.delete i m) of (out, m') \<Rightarrow>
       (case map_of m i of Some a \<Rightarrow> ((i, a) # out, m') | None \<Rightarrow> (out, m')))"

definition retry_tick :: "'k retry_tracker \<Rightarrow> ('k \<times> i16) list \<times> 'k retry_tracker" where
  "retry_tick r =
     (case tick (rt_scheduler r) of (ready, s) \<Rightarrow>
       (case take_attempts ready (rt_attempts r) of (out, m) \<Rightarrow>
         (out, r \<lparr> rt_attempts := m, rt_scheduler := s \<rparr>)))"

definition current_attempt :: "'k \<Rightarrow> 'k retry_tracker \<Rightarrow> i16" where
  "current_attempt i r = (case map_of (rt_attempts r) i of Some a \<Rightarrow> a | None \<Rightarrow> 0)"

definition retry_cancel :: "'k \<Rightarrow> 'k retry_tracker \<Rightarrow> 'k retry_tracker" where
  "retry_cancel i r = r \<lparr> rt_scheduler := tick_cancel i (rt_scheduler r),
     rt_attempts := AList.delete i (rt_attempts r) \<rparr>"

definition retry_is_empty :: "'k retry_tracker \<Rightarrow> bool" where
  "retry_is_empty r \<longleftrightarrow> tick_is_empty (rt_scheduler r)"

definition retry_clear :: "'k retry_tracker \<Rightarrow> 'k retry_tracker" where
  "retry_clear r = r \<lparr> rt_scheduler := tick_clear (rt_scheduler r), rt_attempts := [] \<rparr>"

section \<open>Timeouts\<close>

record 'k time_based_scheduler =
  tb_pending :: "('k \<times> u64) list"

definition time_new :: "'k time_based_scheduler" where
  "time_new = \<lparr> tb_pending = [] \<rparr>"

definition time_schedule :: "'k \<Rightarrow> u64 \<Rightarrow> u64 \<Rightarrow> 'k time_based_scheduler \<Rightarrow> 'k time_based_scheduler" where
  "time_schedule i current_timestamp timeout_seconds s =
     (let expiration_timestamp = current_timestamp + timeout_seconds
      in s \<lparr> tb_pending := AList.update i expiration_timestamp (tb_pending s) \<rparr>)"

definition time_cancel :: "'k \<Rightarrow> 'k time_based_scheduler \<Rightarrow> 'k time_based_scheduler" where
  "time_cancel i s = s \<lparr> tb_pending := AList.delete i (tb_pending s) \<rparr>"

definition time_is_scheduled :: "'k \<Rightarrow> 'k time_based_scheduler \<Rightarrow> bool" where
  "time_is_scheduled i s \<longleftrightarrow> map_of (tb_pending s) i \<noteq> None"

definition check_expired :: "u64 \<Rightarrow> 'k time_based_scheduler \<Rightarrow> 'k list \<times> 'k time_based_scheduler" where
  "check_expired current_timestamp s =
     (let expired = map fst (filter (\<lambda>(i, t). t \<le> current_timestamp) (tb_pending s))
      in (expired, s \<lparr> tb_pending := fold AList.delete expired (tb_pending s) \<rparr>))"

definition time_is_empty :: "'k time_based_scheduler \<Rightarrow> bool" where
  "time_is_empty s \<longleftrightarrow> tb_pending s = []"

definition time_clear :: "'k time_based_scheduler \<Rightarrow> 'k time_based_scheduler" where
  "time_clear s = s \<lparr> tb_pending := [] \<rparr>"

section \<open>Removing the entries that fired\<close>

lemma fold_delete: "fold AList.delete ks m = filter (\<lambda>p. fst p \<notin> set ks) m"
  by (induction ks arbitrary: m) (auto simp: AList.delete_eq filter_filter intro!: filter_cong)

lemma fold_delete_ready:
  assumes "distinct (map fst m)"
  shows "fold AList.delete (map fst (filter P m)) m = filter (\<lambda>p. \<not> P p) m"
  unfolding fold_delete
proof (rule filter_cong[OF refl])
  fix p
  assume p: "p \<in> set m"
  have "q = p" if "q \<in> set m" "fst q = fst p" for q
    using assms p that by (auto simp: distinct_map inj_on_def)
  with p show "(fst p \<notin> set (map fst (filter P m))) = (\<not> P p)" by force
qed

definition tick_ok :: "'k tick_scheduler \<Rightarrow> bool" where
  "tick_ok s \<longleftrightarrow> distinct (map fst (ts_pending s))"

lemma tick_eq:
  assumes "tick_ok s"
  shows "tick s = (map fst (filter (\<lambda>p. unat (snd p) \<le> 1) (ts_pending s)),
    s \<lparr> ts_pending := map (\<lambda>(i, t). (i, t - 1)) (filter (\<lambda>p. 1 < unat (snd p)) (ts_pending s)) \<rparr>)"
proof -
  let ?m = "ts_pending s" and ?c = "\<lambda>(i, t). (i, count_down t)"
  have z: "count_down t = 0 \<longleftrightarrow> unat t \<le> 1" for t
  proof -
    have "t - 1 = 0 \<longleftrightarrow> t = 1" by simp
    also have "\<dots> \<longleftrightarrow> unat t = 1" by (simp add: word_unat_eq_iff)
    finally have "t - 1 = 0 \<longleftrightarrow> unat t = 1" .
    then show ?thesis by (auto simp: count_down_def word_gt_0 unat_eq_0 le_Suc_eq)
  qed
  have comp: "(\<lambda>(i, t). t = 0) \<circ> ?c = (\<lambda>p. unat (snd p) \<le> 1)"
    by (auto simp: z)
  have "distinct (map fst (map ?c ?m))"
    using assms by (simp add: tick_ok_def case_prod_beta comp_def)
  note del = fold_delete_ready[OF this, of "\<lambda>(i, t). t = 0"]
  have ready: "map fst (filter (\<lambda>(i, t). t = 0) (map ?c ?m)) = map fst (filter (\<lambda>p. unat (snd p) \<le> 1) ?m)"
    unfolding filter_map comp by (simp add: case_prod_beta comp_def)
  have "filter (\<lambda>p. \<not> (case p of (i, t) \<Rightarrow> t = 0)) (map ?c ?m) =
      map ?c (filter (\<lambda>p. 1 < unat (snd p)) ?m)"
    unfolding filter_map by (rule arg_cong[of _ _ "map ?c"], rule filter_cong) (auto simp: z)
  also have "\<dots> = map (\<lambda>(i, t). (i, t - 1)) (filter (\<lambda>p. 1 < unat (snd p)) ?m)"
    by (rule map_cong) (auto simp: count_down_def word_gt_0 unat_eq_0)
  finally show ?thesis using del ready by (simp add: tick_def Let_def)
qed

lemma tick_ok_tick: "tick_ok s \<Longrightarrow> tick_ok (snd (tick s))"
  by (simp add: tick_eq) (simp add: tick_ok_def case_prod_beta comp_def distinct_map_filter)

lemma tick_ready_iff:
  assumes "tick_ok s"
  shows "i \<in> set (fst (tick s)) \<longleftrightarrow> (\<exists>t. map_of (ts_pending s) i = Some t \<and> unat t \<le> 1)"
  using assms by (force simp: tick_eq tick_ok_def map_of_eq_Some_iff)

lemma tick_lookup:
  assumes "tick_ok s"
  shows "map_of (ts_pending (snd (tick s))) i = (case map_of (ts_pending s) i of
     Some t \<Rightarrow> if 1 < unat t then Some (t - 1) else None | None \<Rightarrow> None)"
proof -
  have "map_of (map (\<lambda>(k, t). (k, t - 1)) (filter (\<lambda>p. 1 < unat (snd p)) m)) i =
      (case map_of m i of Some t \<Rightarrow> if 1 < unat t then Some (t - 1) else None | None \<Rightarrow> None)"
    if "distinct (map fst m)" for m :: "('a \<times> u32) list"
    using that
  proof (induction m)
    case (Cons p m)
    have "map_of m (fst p) = None" using Cons.prems by (simp add: map_of_eq_None_iff)
    with Cons show ?case by (cases p) (auto split: option.splits)
  qed simp
  with assms show ?thesis by (simp add: tick_eq tick_ok_def)
qed

abbreviation after_ticks :: "nat \<Rightarrow> 'k tick_scheduler \<Rightarrow> 'k tick_scheduler" where
  "after_ticks n s \<equiv> ((\<lambda>s. snd (tick s)) ^^ n) s"

lemma after_ticks_ok: "tick_ok s \<Longrightarrow> tick_ok (after_ticks n s)"
  by (induction n) (simp_all add: tick_ok_tick)

lemma after_ticks_lookup:
  assumes "tick_ok s" and "map_of (ts_pending s) i = Some d"
  shows "\<exists>t. (n < max 1 (unat d) \<longrightarrow> map_of (ts_pending (after_ticks n s)) i = Some t \<and> unat t = unat d - n) \<and>
    (max 1 (unat d) \<le> n \<longrightarrow> map_of (ts_pending (after_ticks n s)) i = None)"
proof (induction n)
  case 0
  then show ?case using assms(2) by auto
next
  case (Suc n)
  let ?s = "after_ticks n s"
  have next_step: "map_of (ts_pending (after_ticks (Suc n) s)) i = (case map_of (ts_pending ?s) i of
      Some t \<Rightarrow> if 1 < unat t then Some (t - 1) else None | None \<Rightarrow> None)"
    using tick_lookup[OF after_ticks_ok[OF assms(1)], of n i] by simp
  have dec: "unat (t - 1) = unat t - 1" if "1 < unat t" for t :: u32
    using that by (simp add: unat_sub word_le_nat_alt)
  show ?case
  proof (cases "n < max 1 (unat d)")
    case True
    then obtain t where t: "map_of (ts_pending ?s) i = Some t" "unat t = unat d - n" using Suc by auto
    show ?thesis
      using next_step t dec[of t] True by (intro exI[of _ "t - 1"]) auto
  next
    case False
    then have "map_of (ts_pending ?s) i = None" using Suc by auto
    with next_step False show ?thesis by auto
  qed
qed

text \<open>
  C28. A scheduled retry fires once and on time: with a delay of d ticks the entry is returned by
  the tick number d (by the first tick when d is zero), by no tick before it and by no later one,
  whatever else is scheduled.
\<close>

theorem tick_fires_on_time:
  assumes "tick_ok s"
  shows "i \<in> set (fst (tick (after_ticks n (tick_schedule i d s)))) \<longleftrightarrow> Suc n = max 1 (unat d)"
proof -
  let ?s = "tick_schedule i d s"
  have ok: "tick_ok ?s" using assms by (simp add: tick_ok_def tick_schedule_def distinct_update)
  have "map_of (ts_pending ?s) i = Some d" by (simp add: tick_schedule_def update_conv')
  from after_ticks_lookup[OF ok this, of n]
  show ?thesis
    unfolding tick_ready_iff[OF after_ticks_ok[OF ok]] by (cases "n < max 1 (unat d)") auto
qed

theorem tick_fires_on_time_witness:
  "''a'' \<in> set (fst (tick (after_ticks 2 (tick_schedule ''a'' 3 tick_new)))) \<and>
   ''a'' \<notin> set (fst (tick (after_ticks 1 (tick_schedule ''a'' 3 tick_new))))"
proof -
  have ok: "tick_ok (tick_new :: string tick_scheduler)" by (simp add: tick_ok_def tick_new_def)
  show ?thesis
    unfolding tick_fires_on_time[OF ok] by simp
qed

section \<open>Retries keep their attempt\<close>

definition retry_ok :: "'k retry_tracker \<Rightarrow> bool" where
  "retry_ok r \<longleftrightarrow> tick_ok (rt_scheduler r) \<and> distinct (map fst (rt_attempts r)) \<and>
     (\<forall>i. (map_of (rt_attempts r) i = None) = (map_of (ts_pending (rt_scheduler r)) i = None))"

inductive reachable_retry :: "'k retry_tracker \<Rightarrow> bool" where
  new: "reachable_retry retry_new"
| schedule: "reachable_retry r \<Longrightarrow> reachable_retry (retry_schedule i a d r)"
| tick: "reachable_retry r \<Longrightarrow> reachable_retry (snd (retry_tick r))"
| cancel: "reachable_retry r \<Longrightarrow> reachable_retry (retry_cancel i r)"
| clear: "reachable_retry r \<Longrightarrow> reachable_retry (retry_clear r)"

lemma take_attempts_eq:
  assumes "distinct is" and "\<forall>i \<in> set is. map_of m i \<noteq> None"
  shows "take_attempts is m = (map (\<lambda>i. (i, the (map_of m i))) is, filter (\<lambda>p. fst p \<notin> set is) m)"
  using assms
proof (induction "is" arbitrary: m)
  case (Cons j js)
  have other: "map_of (AList.delete j m) i = map_of m i" if "i \<in> set js" for i
    using that Cons.prems(1) by (auto simp: delete_conv')
  have "take_attempts js (AList.delete j m) =
      (map (\<lambda>i. (i, the (map_of (AList.delete j m) i))) js, filter (\<lambda>p. fst p \<notin> set js) (AList.delete j m))"
    using Cons other by auto
  moreover have "map (\<lambda>i. (i, the (map_of (AList.delete j m) i))) js = map (\<lambda>i. (i, the (map_of m i))) js"
    using other by simp
  moreover have "filter (\<lambda>p. fst p \<notin> set js) (AList.delete j m) = filter (\<lambda>p. fst p \<notin> set (j # js)) m"
    by (auto simp: AList.delete_eq filter_filter intro!: filter_cong)
  ultimately show ?case using Cons.prems(2) by auto
qed simp

lemma tick_ready_distinct: "tick_ok s \<Longrightarrow> distinct (fst (tick s))"
  by (simp add: tick_eq) (simp add: tick_ok_def distinct_map_filter)

lemma retry_tick_eq:
  assumes "retry_ok r"
  shows "retry_tick r = (map (\<lambda>i. (i, current_attempt i r)) (fst (tick (rt_scheduler r))),
    r \<lparr> rt_attempts := filter (\<lambda>p. fst p \<notin> set (fst (tick (rt_scheduler r)))) (rt_attempts r),
        rt_scheduler := snd (tick (rt_scheduler r)) \<rparr>)"
proof -
  have ok: "tick_ok (rt_scheduler r)" using assms by (simp add: retry_ok_def)
  have all: "\<forall>i \<in> set (fst (tick (rt_scheduler r))). map_of (rt_attempts r) i \<noteq> None"
    using assms by (auto simp: tick_ready_iff[OF ok] retry_ok_def)
  have "(i, the (map_of (rt_attempts r) i)) = (i, current_attempt i r)"
    if "i \<in> set (fst (tick (rt_scheduler r)))" for i
    using all that by (auto simp: current_attempt_def split: option.splits)
  then show ?thesis
    using take_attempts_eq[OF tick_ready_distinct[OF ok] all]
    by (auto simp: retry_tick_def split: prod.splits)
qed

lemma map_of_filter_keys: "map_of (filter (\<lambda>p. fst p \<notin> K) m) i = (if i \<in> K then None else map_of m i)"
  by (induction m) auto

lemma retry_ok_tick: "retry_ok r \<Longrightarrow> retry_ok (snd (retry_tick r))"
proof -
  assume r: "retry_ok r"
  then have ok: "tick_ok (rt_scheduler r)" by (simp add: retry_ok_def)
  have "(if i \<in> set (fst (tick (rt_scheduler r))) then None else map_of (rt_attempts r) i) = None \<longleftrightarrow>
      map_of (ts_pending (snd (tick (rt_scheduler r)))) i = None" for i
    using r by (auto simp: tick_lookup[OF ok] tick_ready_iff[OF ok] retry_ok_def split: option.splits if_splits)
  with r show ?thesis
    by (simp add: retry_tick_eq) (simp add: retry_ok_def tick_ok_tick distinct_map_filter map_of_filter_keys)
qed

lemma reachable_retry_ok: "reachable_retry r \<Longrightarrow> retry_ok r"
proof (induction rule: reachable_retry.induct)
  case (tick r)
  then show ?case by (simp add: retry_ok_tick)
qed (auto simp: retry_ok_def tick_ok_def retry_new_def tick_new_def retry_schedule_def tick_schedule_def
    retry_cancel_def tick_cancel_def retry_clear_def tick_clear_def distinct_update distinct_delete
    update_conv' delete_conv')

text \<open>
  C29. The documented invariant of the retry tracker: in every reachable state exactly the scheduled
  entries have an attempt counter, and a tick returns each matured entry once, with the attempt
  recorded for it, and forgets both its schedule and its counter.
\<close>

theorem retry_tracker_consistent:
  assumes "reachable_retry r"
  shows "(map_of (rt_attempts r) i \<noteq> None \<longleftrightarrow> tick_is_scheduled i (rt_scheduler r)) \<and>
    fst (retry_tick r) = map (\<lambda>i. (i, current_attempt i r)) (fst (tick (rt_scheduler r)))"
  using reachable_retry_ok[OF assms] retry_tick_eq[OF reachable_retry_ok[OF assms]]
  by (simp add: retry_ok_def tick_is_scheduled_def)

theorem retry_tracker_consistent_witness:
  "fst (retry_tick (retry_schedule ''a'' 4 1 retry_new)) = [(''a'', 4)]"
  using retry_tracker_consistent[OF reachable_retry.schedule[OF reachable_retry.new], of "''a''" 4 1]
  by (simp add: tick_def retry_schedule_def retry_new_def tick_new_def tick_schedule_def count_down_def
      current_attempt_def)

section \<open>Timeouts\<close>

text \<open>
  C36. Timeouts: a check at a block time returns exactly the entries whose expiry, the sum of the
  time they were scheduled at and their timeout modulo 64 bits, has been reached, and removes
  exactly those.
\<close>

theorem check_expired_exact:
  assumes "distinct (map fst (tb_pending s))"
  shows "(i \<in> set (fst (check_expired now (time_schedule i at timeout s))) \<longleftrightarrow>
      (unat at + unat timeout) mod 2 ^ 64 \<le> unat now) \<and>
    (time_is_scheduled i (snd (check_expired now (time_schedule i at timeout s))) \<longleftrightarrow>
      unat now < (unat at + unat timeout) mod 2 ^ 64)"
proof -
  let ?m = "AList.update i (at + timeout) (tb_pending s)"
  have dist: "distinct (map fst ?m)" using assms by (simp add: distinct_update)
  have look: "map_of ?m i = Some (at + timeout)" by (simp add: update_conv')
  have sum: "at + timeout \<le> now \<longleftrightarrow> (unat at + unat timeout) mod 2 ^ 64 \<le> unat now"
    by (simp add: word_le_nat_alt unat_word_ariths)
  have "(i, t) \<in> set ?m \<longleftrightarrow> t = at + timeout" for t
    using map_of_eq_Some_iff[OF dist, of i t] look by auto
  then have fires: "i \<in> set (fst (check_expired now (time_schedule i at timeout s))) \<longleftrightarrow>
      (unat at + unat timeout) mod 2 ^ 64 \<le> unat now"
    unfolding sum[symmetric] by (force simp: check_expired_def time_schedule_def Let_def)
  then have "i \<in> set (map fst (filter (\<lambda>(i, t). t \<le> now) ?m)) \<longleftrightarrow>
      (unat at + unat timeout) mod 2 ^ 64 \<le> unat now"
    by (simp add: check_expired_def time_schedule_def Let_def)
  then have "time_is_scheduled i (snd (check_expired now (time_schedule i at timeout s))) \<longleftrightarrow>
      unat now < (unat at + unat timeout) mod 2 ^ 64"
    using look
    by (simp add: time_is_scheduled_def check_expired_def time_schedule_def Let_def fold_delete
        map_of_filter_keys not_le)
  with fires show ?thesis by blast
qed

theorem check_expired_exact_witness:
  "''a'' \<in> set (fst (check_expired 15 (time_schedule ''a'' 10 5 time_new))) \<and>
   ''a'' \<in> set (fst (check_expired 15 (time_schedule ''a'' 20 (- 10) time_new)))"
proof -
  have d: "distinct (map fst (tb_pending (time_new :: string time_based_scheduler)))"
    by (simp add: time_new_def)
  have "unat (- 10 :: u64) = 2 ^ 64 - 10" by simp
  then show ?thesis
    using check_expired_exact[OF d, of "''a''" 15 10 5] check_expired_exact[OF d, of "''a''" 15 20 "- 10"]
    by simp
qed

end
