(* ===== verification/Gateway_Types.thy ===== *)
theory Gateway_Types
  imports Core_Types Bitvmx_Types
begin

text \<open>
  The data of the contract gateway (\<^verbatim>\<open>crates/transaction-dispatcher/src/types.rs\<close> and the
  \<^verbatim>\<open>DomainErrors\<close> of \<^verbatim>\<open>rsk_gateway.rs\<close>): the errors a contract call can give, Bitcoin
  transactions and SPV proofs as the contracts take them, and the packing of P2P addresses and key
  hashes into fixed arrays of 32-byte slots. The \<^verbatim>\<open>multiaddr\<close> and \<^verbatim>\<open>hex\<close> crates and the text of
  IP addresses are parameters.
\<close>

section \<open>Errors of the gateway\<close>

datatype domain_errors =
    PeginAlreadyRequested string
  | PeginAlreadyAccepted string
  | InvalidAddress string
  | InvalidBtcTxSpvProof string
  | InvalidCompressedPubKey string
  | InvalidPublicKey string
  | InvalidValue string
  | NotOwner string
  | PegoutRequestAmountExceedsUint64Limit string
  | StreamNotFoundByDenomination string
  | PacketOutOfBound string
  | InvalidRole string
  | CommitteeError string
  | MemberAlreadyDepositedCommunicationData string
  | MemberAlreadyRegisteredForStream string
  | MemberInfoAlreadyDeposited string
  | MemberRegistryError string
  | SignaturesError string
  | MissingConfirmationsOnNativeBridge string
  | InvalidSlotState u8 u8
  | PeginNotRequested string
  | ChallengeTxidNotMatch string
  | InvalidChallengeInputCount string
  | InvalidRevealedInputCount string
  | ReimbursementKickoffTxidNotMatch string
  | InvalidPegStatus u8
  | PegStatusAlreadyCompleted
  | MemberNotInCommittee string
  | AcceptPeginTxidNotFound string
  | TxidToSignNotFound string
  | UnhandledContractError string
  | NoRevertError string
  | UnknownContractError string
  | InternalServerError string

definition PEG_STATUS_COMPLETED :: u8 where
  "PEG_STATUS_COMPLETED = 9"

definition from_invalid_peg_status :: "u8 \<Rightarrow> domain_errors" where
  "from_invalid_peg_status actual =
     (if actual = PEG_STATUS_COMPLETED then PegStatusAlreadyCompleted else InvalidPegStatus actual)"

section \<open>Bitcoin transactions for the contracts\<close>

record bitcoin_transaction_in =
  gi_tx_id :: string
  gi_v_out :: u32
  gi_sequence :: u32
  gi_script_sig :: string

record bitcoin_transaction_out =
  go_amount :: u64
  go_script_pub_key :: string

record bitcoin_transaction =
  gt_version :: u32
  gt_inputs :: "bitcoin_transaction_in list"
  gt_outputs :: "bitcoin_transaction_out list"
  gt_lock_time :: u32

record btc_tx_spv_proof_input =
  gp_block_hash :: string
  gp_btc_tx :: bitcoin_transaction
  gp_merkle_branch_path :: string
  gp_merkle_branch_hashes :: "string list"

text \<open>\<^verbatim>\<open>Txid\<close> prints its bytes in reverse order.\<close>

definition txid_to_string :: "text_ops \<Rightarrow> txid \<Rightarrow> string" where
  "txid_to_string tx t = hex_encode tx (rev (be_word 32 t))"

definition from_tx_in :: "text_ops \<Rightarrow> tx_in \<Rightarrow> bitcoin_transaction_in" where
  "from_tx_in tx i =
     \<lparr> gi_tx_id = txid_to_string tx (ti_txid i), gi_v_out = ti_vout i, gi_sequence = ti_sequence i,
       gi_script_sig = hex_encode tx (ti_script_sig i) \<rparr>"

definition from_tx_out :: "text_ops \<Rightarrow> tx_out \<Rightarrow> bitcoin_transaction_out" where
  "from_tx_out tx out =
     \<lparr> go_amount = to_value out, go_script_pub_key = hex_encode tx (to_script_pubkey out) \<rparr>"

definition from_transaction :: "text_ops \<Rightarrow> btc_tx \<Rightarrow> bitcoin_transaction" where
  "from_transaction tx t =
     \<lparr> gt_version = bt_version t, gt_inputs = map (from_tx_in tx) (bt_input t),
       gt_outputs = map (from_tx_out tx) (bt_output t), gt_lock_time = bt_lock_time t \<rparr>"

definition from_spv_proof :: "text_ops \<Rightarrow> btc_tx_spv_proof \<Rightarrow> btc_tx_spv_proof_input" where
  "from_spv_proof tx proof =
     \<lparr> gp_block_hash = sp_block_hash proof, gp_btc_tx = from_transaction tx (sp_tx proof),
       gp_merkle_branch_path = sp_merkle_branch_path proof,
       gp_merkle_branch_hashes = map (hex_encode tx) (sp_merkle_branch_hashes proof) \<rparr>"

section \<open>Byte strings in arrays of slots\<close>

datatype pack_error = PayloadTooLarge | PayloadTooLargeForHeader | PackSlicePanic
  | BufferTooSmall | InvalidStoredLength | BadMultiaddr | NoIpAddress | NoPort
  | BadPubkeyHashHex | PubkeyHashNot32

type_synonym slots = "h256 list"

text \<open>\<^verbatim>\<open>copy_from_slice\<close> into \<^verbatim>\<open>buf[i..i + len]\<close>, and \<^verbatim>\<open>chunks_exact(32)\<close>.\<close>

definition copy_at :: "nat \<Rightarrow> bytes \<Rightarrow> bytes \<Rightarrow> bytes" where
  "copy_at i xs buf = take i buf @ xs @ drop (i + length xs) buf"

fun chunks_exact32 :: "bytes \<Rightarrow> bytes list" where
  "chunks_exact32 bs = (if length bs < 32 then [] else take 32 bs # chunks_exact32 (drop 32 bs))"

declare chunks_exact32.simps [simp del]

definition bytes_to_fb_array :: "nat \<Rightarrow> bytes \<Rightarrow> pack_error + slots" where
  "bytes_to_fb_array n bs =
     (let cap = n * 32
      in if cap - 2 < length bs then Inl PayloadTooLarge
         else if 65535 < length bs then Inl PayloadTooLargeForHeader
         else if cap < 2 then Inl PackSlicePanic
         else let buf = copy_at 2 bs (copy_at 0 (be_nat 2 (length bs)) (replicate cap 0))
              in Inr (map (\<lambda>chunk. word_of_nat (be_val chunk)) (chunks_exact32 buf)))"

definition fb_array_to_bytes :: "slots \<Rightarrow> pack_error + bytes" where
  "fb_array_to_bytes arr =
     (let buf = concat (map (be_word 32) arr)
      in if length buf < 2 then Inl BufferTooSmall
         else let len = be_val [buf ! 0, buf ! 1]
              in if length buf - 2 < len then Inl InvalidStoredLength
                 else Inr (take len (drop 2 buf)))"

section \<open>P2P addresses and key hashes\<close>

datatype multi_protocol = MIp4 u32 | MIp6 u128 | MTcp u16 | MUdp u16 | MOther bytes

type_synonym multiaddr = "multi_protocol list"

record net_ops =
  ma_from_str :: "string \<Rightarrow> multiaddr option"
  ma_to_string :: "multiaddr \<Rightarrow> string"
  ma_to_vec :: "multiaddr \<Rightarrow> bytes"
  ma_try_from :: "bytes \<Rightarrow> multiaddr option"
  show_ip4 :: "u32 \<Rightarrow> string"
  show_ip6 :: "u128 \<Rightarrow> string"
  show_port :: "u16 \<Rightarrow> string"

definition addr_to_contracts :: "net_ops \<Rightarrow> string \<Rightarrow> pack_error + slots" where
  "addr_to_contracts net address =
     res_bind (ok_or (ma_from_str net address) BadMultiaddr) (\<lambda>multi_addr.
     bytes_to_fb_array 8 (ma_to_vec net multi_addr))"

definition addr_from_contracts :: "net_ops \<Rightarrow> slots \<Rightarrow> pack_error + string" where
  "addr_from_contracts net comm_data =
     res_bind (fb_array_to_bytes comm_data) (\<lambda>bs.
     if bs = [] then Inr ''''
     else res_bind (ok_or (ma_try_from net bs) BadMultiaddr) (\<lambda>multi_addr.
          Inr (ma_to_string net multi_addr)))"

fun scan_protocols :: "multiaddr \<Rightarrow> ip_addr option \<Rightarrow> u16 option \<Rightarrow> ip_addr option \<times> u16 option" where
  "scan_protocols [] ip port = (ip, port)"
| "scan_protocols (p # ps) ip port =
     (case p of
        MIp4 addr \<Rightarrow> scan_protocols ps (Some (IpV4 addr)) port
      | MIp6 addr \<Rightarrow> scan_protocols ps (Some (IpV6 addr)) port
      | MTcp q \<Rightarrow> scan_protocols ps ip (Some q)
      | MUdp q \<Rightarrow> scan_protocols ps ip (Some q)
      | MOther _ \<Rightarrow> scan_protocols ps ip port)"

definition multiaddr_to_socket_addr :: "net_ops \<Rightarrow> string \<Rightarrow> pack_error + socket_addr" where
  "multiaddr_to_socket_addr net s =
     res_bind (ok_or (ma_from_str net s) BadMultiaddr) (\<lambda>multi_addr.
     let (ip, port) = scan_protocols multi_addr None None
     in res_bind (ok_or ip NoIpAddress) (\<lambda>ip.
        res_bind (ok_or port NoPort) (\<lambda>port. Inr \<lparr> sa_ip = ip, sa_port = port \<rparr>)))"

definition socket_addr_from_contracts :: "net_ops \<Rightarrow> slots \<Rightarrow> pack_error + socket_addr option" where
  "socket_addr_from_contracts net comm_data =
     res_bind (addr_from_contracts net comm_data) (\<lambda>s.
     if s = '''' then Inr None
     else res_bind (multiaddr_to_socket_addr net s) (\<lambda>a. Inr (Some a)))"

definition socket_addr_to_contracts :: "net_ops \<Rightarrow> socket_addr \<Rightarrow> pack_error + slots" where
  "socket_addr_to_contracts net addr =
     addr_to_contracts net
       (case sa_ip addr of
          IpV4 ip \<Rightarrow> ''/ip4/'' @ show_ip4 net ip @ ''/tcp/'' @ show_port net (sa_port addr)
        | IpV6 ip \<Rightarrow> ''/ip6/'' @ show_ip6 net ip @ ''/tcp/'' @ show_port net (sa_port addr))"

definition pubkey_hash_to_contracts :: "text_ops \<Rightarrow> string \<Rightarrow> pack_error + slots" where
  "pubkey_hash_to_contracts tx pubkey_hash =
     res_bind (ok_or (hex_decode tx pubkey_hash) BadPubkeyHashHex) (\<lambda>bs.
     if length bs \<noteq> 32 then Inl PubkeyHashNot32
     else Inr ((replicate 10 0) [0 := word_of_nat (be_val bs)]))"

definition pubkey_hash_from_member_contracts :: "text_ops \<Rightarrow> slots \<Rightarrow> pack_error + string" where
  "pubkey_hash_from_member_contracts tx rsa_public_key =
     Inr (hex_encode tx (be_word 32 (rsa_public_key ! 0)))"

section \<open>Packing loses nothing\<close>

lemma chunks_exact32_concat:
  "length bs = n * 32 \<Longrightarrow>
     concat (chunks_exact32 bs) = bs \<and> length (chunks_exact32 bs) = n \<and>
     (\<forall>c \<in> set (chunks_exact32 bs). length c = 32)"
proof (induction n arbitrary: bs)
  case 0
  then show ?case by (simp add: chunks_exact32.simps)
next
  case (Suc n)
  then have "length (drop 32 bs) = n * 32" by simp
  from Suc.IH [OF this] Suc.prems show ?case by (simp add: chunks_exact32.simps [of bs])
qed

lemma concat_slots:
  "\<forall>c \<in> set cs. length c = 32 \<Longrightarrow>
     concat (map (be_word 32) (map (\<lambda>chunk. word_of_nat (be_val chunk) :: h256) cs)) = concat cs"
  by (induction cs) (simp_all add: be_word_of_be_val)

lemma copy_header:
  assumes "length bs \<le> cap - 2" and "2 \<le> cap"
  shows "copy_at 2 bs (copy_at 0 (be_nat 2 (length bs)) (replicate cap 0)) =
    be_nat 2 (length bs) @ bs @ replicate (cap - 2 - length bs) 0"
  using assms by (simp add: copy_at_def)

lemma header_value: "k \<le> 65535 \<Longrightarrow> be_val (be_nat 2 k) = k"
  by (simp add: be_val_be_nat)

lemma be_nat_2: "be_nat 2 k = [word_of_nat (k div 256 mod 256), word_of_nat (k mod 256)]"
  by (simp add: numeral_2_eq_2)

lemma fb_array_of_padded:
  assumes "k = length bs" and "k \<le> 65535"
    and "concat (map (be_word 32) arr) = be_nat 2 k @ bs @ pad"
  shows "fb_array_to_bytes arr = Inr bs"
proof -
  have "be_val [(be_nat 2 k @ bs @ pad) ! 0, (be_nat 2 k @ bs @ pad) ! 1] = k"
    using header_value [OF assms(2)] by (simp add: be_nat_2)
  then show ?thesis
    unfolding fb_array_to_bytes_def assms(3) Let_def using assms(1) by simp
qed

lemma packs:
  assumes "0 < n" and fits: "length bs \<le> n * 32 - 2" "length bs \<le> 65535"
  shows "\<exists>arr. bytes_to_fb_array n bs = Inr arr \<and> length arr = n \<and> fb_array_to_bytes arr = Inr bs"
proof -
  let ?buf = "be_nat 2 (length bs) @ bs @ replicate (n * 32 - 2 - length bs) 0"
  let ?arr = "map (\<lambda>chunk. word_of_nat (be_val chunk) :: h256) (chunks_exact32 ?buf)"
  have pack: "bytes_to_fb_array n bs = Inr ?arr"
    using fits assms copy_header [of bs "n * 32"] by (simp add: bytes_to_fb_array_def Let_def)
  have "2 \<le> n * 32" using assms by simp
  then have "2 + (length bs + (n * 32 - 2 - length bs)) = n * 32" using fits(1) by linarith
  then have len: "length ?buf = n * 32" by (simp only: length_append length_be_nat length_replicate)
  have chunks: "concat (chunks_exact32 ?buf) = ?buf" "length (chunks_exact32 ?buf) = n"
      "\<forall>c \<in> set (chunks_exact32 ?buf). length c = 32"
    using chunks_exact32_concat [OF len] by blast+
  have "concat (map (be_word 32) ?arr) = ?buf" using concat_slots [OF chunks(3)] chunks(1) by (rule trans)
  then have "fb_array_to_bytes ?arr = Inr bs" using fits by (intro fb_array_of_padded) simp_all
  moreover have "length ?arr = n" by (simp only: length_map chunks(2))
  ultimately show ?thesis using pack by blast
qed

lemma be_zero: "be_nat n 0 = replicate n 0"
  by (induction n) (simp_all add: replicate_append_same)

text \<open>
  Packing a byte string into \<open>n\<close> slots succeeds exactly when it fits with its two byte length
  header, gives \<open>n\<close> slots, and reading the slots gives the same bytes back, trailing zeros included.
\<close>

theorem fb_array_round_trip:
  assumes "0 < n"
  shows "(length bs \<le> n * 32 - 2 \<and> length bs \<le> 65535 \<longrightarrow>
            (\<exists>arr. bytes_to_fb_array n bs = Inr arr \<and> length arr = n \<and> fb_array_to_bytes arr = Inr bs)) \<and>
         (n * 32 - 2 < length bs \<longrightarrow> bytes_to_fb_array n bs = Inl PayloadTooLarge) \<and>
         (length bs \<le> n * 32 - 2 \<and> 65535 < length bs \<longrightarrow> bytes_to_fb_array n bs = Inl PayloadTooLargeForHeader)"
proof (intro conjI impI)
  assume "length bs \<le> n * 32 - 2 \<and> length bs \<le> 65535"
  then show "\<exists>arr. bytes_to_fb_array n bs = Inr arr \<and> length arr = n \<and> fb_array_to_bytes arr = Inr bs"
    using packs [OF assms] by blast
qed (simp_all add: bytes_to_fb_array_def Let_def)

theorem fb_array_round_trip_witness:
  "\<exists>arr. bytes_to_fb_array 8 [4, 192, 168, 0, 0] = Inr arr \<and> length arr = 8 \<and>
     fb_array_to_bytes arr = Inr [4, 192, 168, 0, 0]"
  using fb_array_round_trip [of 8 "[4, 192, 168, 0, 0]"] by simp

section \<open>Addresses and key hashes survive the contracts\<close>

definition socket_multiaddr :: "socket_addr \<Rightarrow> multiaddr" where
  "socket_multiaddr a =
     [case sa_ip a of IpV4 ip \<Rightarrow> MIp4 ip | IpV6 ip \<Rightarrow> MIp6 ip, MTcp (sa_port a)]"

definition socket_text :: "net_ops \<Rightarrow> socket_addr \<Rightarrow> string" where
  "socket_text net addr =
     (case sa_ip addr of
        IpV4 ip \<Rightarrow> ''/ip4/'' @ show_ip4 net ip @ ''/tcp/'' @ show_port net (sa_port addr)
      | IpV6 ip \<Rightarrow> ''/ip6/'' @ show_ip6 net ip @ ''/tcp/'' @ show_port net (sa_port addr))"

lemma scan_socket: "scan_protocols (socket_multiaddr a) None None = (Some (sa_ip a), Some (sa_port a))"
  by (simp add: socket_multiaddr_def split: ip_addr.splits)

lemma concat_replicate_replicate: "concat (replicate n (replicate m x)) = replicate (n * m) x"
  by (induction n) (simp_all add: replicate_add)

lemma empty_slots: "fb_array_to_bytes (replicate 8 0) = Inr []"
proof (rule fb_array_of_padded [where k = 0 and pad = "replicate 254 0"])
  have "concat (map (be_word 32) (replicate 8 (0 :: h256))) = replicate (2 + 254) 0"
    by (simp add: be_word_def be_zero map_replicate concat_replicate_replicate)
  then show "concat (map (be_word 32) (replicate 8 (0 :: h256))) = be_nat 2 0 @ [] @ replicate 254 0"
    by (simp only: be_zero replicate_add append_Nil)
qed simp_all

text \<open>
  An address deposited as communication data is read back unchanged, and slots that were never
  written read as no address. Of the multiaddr crate this uses that it reads the text of an IP
  address and a TCP port as these two protocols, that its bytes and its text read back, and that
  the bytes of such an address are not empty and no longer than the 254 that fit.
\<close>

theorem socket_addr_contracts_round_trip:
  assumes reads: "ma_from_str net (socket_text net a) = Some (socket_multiaddr a)"
    and bytes: "ma_try_from net (ma_to_vec net (socket_multiaddr a)) = Some (socket_multiaddr a)"
    and prints: "ma_from_str net (ma_to_string net (socket_multiaddr a)) = Some (socket_multiaddr a)"
    and rejects: "ma_from_str net '''' = None"
    and size: "0 < length (ma_to_vec net (socket_multiaddr a))" "length (ma_to_vec net (socket_multiaddr a)) \<le> 254"
  shows "(\<exists>slots. socket_addr_to_contracts net a = Inr slots \<and> length slots = 8 \<and>
            socket_addr_from_contracts net slots = Inr (Some a)) \<and>
         socket_addr_from_contracts net (replicate 8 0) = Inr None"
proof
  let ?m = "socket_multiaddr a"
  obtain arr where arr: "bytes_to_fb_array 8 (ma_to_vec net ?m) = Inr arr" "length arr = 8"
      "fb_array_to_bytes arr = Inr (ma_to_vec net ?m)"
    using packs [of 8 "ma_to_vec net ?m"] size(2) by auto
  have "ma_to_string net ?m \<noteq> ''''" using prints rejects by auto
  then have "socket_addr_from_contracts net arr = Inr (Some a)"
    using arr(3) bytes prints size(1)
    by (simp add: socket_addr_from_contracts_def addr_from_contracts_def multiaddr_to_socket_addr_def
        scan_socket Let_def)
  moreover have "socket_addr_to_contracts net a = Inr arr"
    using arr(1) reads
    by (simp add: socket_addr_to_contracts_def addr_to_contracts_def flip: socket_text_def)
  ultimately show "\<exists>slots. socket_addr_to_contracts net a = Inr slots \<and> length slots = 8 \<and>
      socket_addr_from_contracts net slots = Inr (Some a)"
    using arr(2) by blast
  show "socket_addr_from_contracts net (replicate 8 0) = Inr None"
    by (simp add: socket_addr_from_contracts_def addr_from_contracts_def empty_slots)
qed

text \<open>A small multiaddr codec: text and bytes spell one IPv4 address and one port.\<close>

definition tiny_net :: net_ops where
  "tiny_net =
     \<lparr> ma_from_str = (\<lambda>s. if s = ''/ip4/10.0.0.1/tcp/80'' then Some [MIp4 167772161, MTcp 80] else None),
       ma_to_string = (\<lambda>m. ''/ip4/10.0.0.1/tcp/80''),
       ma_to_vec = (\<lambda>m. [4, 10, 0, 0, 1, 6, 0, 80]),
       ma_try_from = (\<lambda>bs. if bs = [4, 10, 0, 0, 1, 6, 0, 80] then Some [MIp4 167772161, MTcp 80] else None),
       show_ip4 = (\<lambda>ip. ''10.0.0.1''), show_ip6 = (\<lambda>ip. ''::1''), show_port = (\<lambda>p. ''80'') \<rparr>"

theorem socket_addr_contracts_round_trip_witness:
  "\<exists>slots. socket_addr_to_contracts tiny_net \<lparr> sa_ip = IpV4 167772161, sa_port = 80 \<rparr> = Inr slots \<and>
     socket_addr_from_contracts tiny_net slots = Inr (Some \<lparr> sa_ip = IpV4 167772161, sa_port = 80 \<rparr>)"
  using socket_addr_contracts_round_trip [of tiny_net "\<lparr> sa_ip = IpV4 167772161, sa_port = 80 \<rparr>"]
  by (auto simp: tiny_net_def socket_text_def socket_multiaddr_def)

text \<open>
  The hash of a communication key is stored and read back as the same lower-case text, and
  anything that is not 32 bytes in hexadecimal is refused.
\<close>

theorem pubkey_hash_round_trip:
  assumes "hex_codec tx"
  shows "(length bs = 32 \<longrightarrow>
            res_bind (pubkey_hash_to_contracts tx (hex_encode tx bs)) (pubkey_hash_from_member_contracts tx)
              = Inr (hex_encode tx bs)) \<and>
         (length s \<noteq> 64 \<longrightarrow> \<not> is_ok (pubkey_hash_to_contracts tx s))"
proof (intro conjI impI)
  assume "length bs = 32"
  then show "res_bind (pubkey_hash_to_contracts tx (hex_encode tx bs)) (pubkey_hash_from_member_contracts tx)
              = Inr (hex_encode tx bs)"
    using hex_codec.decode_encode [OF assms]
    by (simp add: pubkey_hash_to_contracts_def pubkey_hash_from_member_contracts_def be_word_of_be_val
        numeral_eq_Suc [of Num.One] nth_list_update)
next
  assume "length s \<noteq> 64"
  then show "\<not> is_ok (pubkey_hash_to_contracts tx s)"
    using hex_codec.decode_length [OF assms, of s]
    by (cases "hex_decode tx s") (auto simp: pubkey_hash_to_contracts_def)
qed

theorem pubkey_hash_round_trip_witness:
  "res_bind (pubkey_hash_to_contracts std_text (hex_encode std_text (replicate 32 171)))
     (pubkey_hash_from_member_contracts std_text) = Inr (hex_encode std_text (replicate 32 171)) \<and>
   \<not> is_ok (pubkey_hash_to_contracts std_text ''00ff'')"
  using pubkey_hash_round_trip [OF hex_codec_std_text, of "replicate 32 171" "''00ff''"] by simp

end
