(* ===== verification/Bridge_Verifier.thy ===== *)
theory Bridge_Verifier
  imports Gateway_Types Flow_Monad
begin

text \<open>
  Confirmations of Bitcoin transactions on the native bridge of Rootstock: the call of the
  precompiled contract with its ABI encoding and the reading of its answer
  (\<^verbatim>\<open>crates/transaction-dispatcher/src/contracts/native_bridge.rs\<close> and
  \<^verbatim>\<open>interactions/get_btc_transaction_confirmations.rs\<close>), and the verifier that guards contract calls
  with an SPV proof (\<^verbatim>\<open>crates/coordinator/src/flows/common/native_bridge_verifier.rs\<close>). The provider,
  the readers of hashes and numbers and the text of transport errors are parameters. Strings are
  ASCII. The error code travels from the bridge to the verifier as text; its reading is proved
  to recover it.
\<close>

section \<open>Decimal text\<close>

text \<open>\<^verbatim>\<open>Display\<close> and \<^verbatim>\<open>FromStr\<close> of the integer types of the standard library.\<close>

fun dec_of_nat :: "nat \<Rightarrow> string" where
  "dec_of_nat n = (if n < 10 then [char_of (48 + n)] else dec_of_nat (n div 10) @ [char_of (48 + n mod 10)])"

declare dec_of_nat.simps [simp del]

definition dec_of_int :: "int \<Rightarrow> string" where
  "dec_of_int i = (if i < 0 then CHR ''-'' # dec_of_nat (nat (- i)) else dec_of_nat (nat i))"

definition is_digit :: "char \<Rightarrow> bool" where
  "is_digit c = (48 \<le> (of_char c :: nat) \<and> (of_char c :: nat) \<le> 57)"

fun dec_value :: "nat \<Rightarrow> string \<Rightarrow> nat option" where
  "dec_value acc [] = Some acc"
| "dec_value acc (c # cs) = (if is_digit c then dec_value (acc * 10 + (of_char c - 48)) cs else None)"

definition digits_value :: "string \<Rightarrow> nat option" where
  "digits_value s = (if s = [] then None else dec_value 0 s)"

definition parse_i32 :: "string \<Rightarrow> int option" where
  "parse_i32 s =
     (case s of
        [] \<Rightarrow> None
      | c # cs \<Rightarrow>
          if c = CHR ''-'' then Option.bind (digits_value cs) (\<lambda>n. if n \<le> 2 ^ 31 then Some (- int n) else None)
          else if c = CHR ''+'' then Option.bind (digits_value cs) (\<lambda>n. if n < 2 ^ 31 then Some (int n) else None)
          else Option.bind (digits_value s) (\<lambda>n. if n < 2 ^ 31 then Some (int n) else None))"

section \<open>Searching in strings\<close>

text \<open>\<^verbatim>\<open>str::split_once\<close> at the first occurrence, and the first item of \<^verbatim>\<open>split_whitespace\<close>.\<close>

fun split_once :: "string \<Rightarrow> string \<Rightarrow> (string \<times> string) option" where
  "split_once pat [] = (if pat = [] then Some ([], []) else None)"
| "split_once pat (c # cs) =
     (if take (length pat) (c # cs) = pat then Some ([], drop (length pat) (c # cs))
      else map_option (\<lambda>(a, b). (c # a, b)) (split_once pat cs))"

definition is_whitespace :: "char \<Rightarrow> bool" where
  "is_whitespace c = (let n = of_char c :: nat in n = 32 \<or> 9 \<le> n \<and> n \<le> 13)"

definition first_word :: "string \<Rightarrow> string option" where
  "first_word s = (let w = takeWhile (\<lambda>c. \<not> is_whitespace c) (dropWhile is_whitespace s)
     in if w = [] then None else Some w)"

section \<open>The call of the bridge\<close>

record bridge_ops =
  bridge_text :: text_ops
  h256_from_str :: "string \<Rightarrow> string + h256"
  fb32_from_str :: "string \<Rightarrow> string + h256"
  u256_from_str :: "string \<Rightarrow> string + u256"
  compute_txid :: "btc_tx \<Rightarrow> txid"
  local_usage :: "string \<Rightarrow> string"

record confirmations_input =
  ci_tx_hash :: h256
  ci_block_hash :: h256
  ci_merkle_branch_path :: string
  ci_merkle_branch_hashes :: "string list"

definition GET_BTC_TX_CONFIRMATIONS_SELECTOR :: bytes where
  "GET_BTC_TX_CONFIRMATIONS_SELECTOR = [0x5b, 0x64, 0x45, 0x87]"

fun parse_hashes :: "(string \<Rightarrow> string + h256) \<Rightarrow> string list \<Rightarrow> string + h256 list" where
  "parse_hashes rd [] = Inr []"
| "parse_hashes rd (s # ss) =
     res_bind (case rd s of Inl e \<Rightarrow> Inl (''Invalid merkle branch hash: '' @ e) | Inr h \<Rightarrow> Inr h) (\<lambda>h.
     res_bind (parse_hashes rd ss) (\<lambda>hs. Inr (h # hs)))"

definition encode_call :: "h256 \<Rightarrow> h256 \<Rightarrow> u256 \<Rightarrow> h256 list \<Rightarrow> bytes" where
  "encode_call tx_hash block_hash path hashes =
     GET_BTC_TX_CONFIRMATIONS_SELECTOR @ be_word 32 tx_hash @ be_word 32 block_hash @ be_word 32 path @
     be_word 32 (128 :: u256) @ be_word 32 (word_of_nat (length hashes) :: u256) @
     concat (map (be_word 32) hashes)"

text \<open>\<^verbatim>\<open>I256::from_be_bytes\<close>, and the answer as a number of confirmations.\<close>

definition read_answer :: "bytes \<Rightarrow> string + u32" where
  "read_answer result =
     (if length result < 32 then Inl ''Invalid response length from Native Bridge''
      else let confirmations = sint (word_of_nat (be_val (take 32 result)) :: u256)
           in if confirmations < 0
              then let error_code = (if - (2 ^ 31) \<le> confirmations then confirmations else - (2 ^ 31))
                   in Inl (''Native Bridge returned error code: '' @ dec_of_int error_code @
                           '' (see RSKIP122 for error meanings)'')
              else if confirmations < 2 ^ 32 then Inr (word_of_int confirmations)
              else Inl ''Confirmations value exceeds u32 maximum'')"

definition call_get_btc_transaction_confirmations ::
  "bridge_ops \<Rightarrow> (bytes \<Rightarrow> 's \<Rightarrow> (string + bytes) \<times> 's) \<Rightarrow> confirmations_input \<Rightarrow> 's \<Rightarrow> (string + u32) \<times> 's" where
  "call_get_btc_transaction_confirmations ops provider_call input s =
     (case parse_hashes (fb32_from_str ops) (ci_merkle_branch_hashes input) of
        Inl e \<Rightarrow> (Inl (local_usage ops (''Invalid merkle branch hash: '' @ e)), s)
      | Inr hashes \<Rightarrow>
          (case u256_from_str ops (ci_merkle_branch_path input) of
             Inl e \<Rightarrow> (Inl (local_usage ops (''Invalid merkle branch path: '' @ e)), s)
           | Inr path \<Rightarrow>
               fbind (provider_call (encode_call (ci_tx_hash input) (ci_block_hash input) path hashes))
                 (\<lambda>result t. (case read_answer result of
                    Inl e \<Rightarrow> (Inl (local_usage ops e), t)
                  | Inr c \<Rightarrow> (Inr c, t))) s))"

definition get_btc_confirmations ::
  "bridge_ops \<Rightarrow> (bytes \<Rightarrow> 's \<Rightarrow> (string + bytes) \<times> 's) \<Rightarrow> confirmations_input \<Rightarrow> 's
     \<Rightarrow> (domain_errors + u32) \<times> 's" where
  "get_btc_confirmations ops provider_call input s =
     (case call_get_btc_transaction_confirmations ops provider_call input s of
        (Inl e, t) \<Rightarrow> (Inl (UnhandledContractError (''Failed to get bitcoin confirmations: '' @ e)), t)
      | (Inr c, t) \<Rightarrow> (Inr c, t))"

section \<open>The verifier\<close>

datatype verification_status = Verified | InsufficientConfirmations u32 u32

datatype native_bridge_verifier = RealVerifier u32 | DummyVerifier

definition required_confirmations :: "native_bridge_verifier \<Rightarrow> u32" where
  "required_confirmations v = (case v of RealVerifier n \<Rightarrow> n | DummyVerifier \<Rightarrow> 0)"

definition NATIVE_BRIDGE_ERROR_MARKER :: string where
  "NATIVE_BRIDGE_ERROR_MARKER = ''Native Bridge returned error code:''"

definition parse_native_bridge_error_code :: "domain_errors \<Rightarrow> int option" where
  "parse_native_bridge_error_code err =
     (case err of
        UnhandledContractError message \<Rightarrow>
          Option.bind (split_once NATIVE_BRIDGE_ERROR_MARKER message) (\<lambda>(_, rest).
          Option.bind (first_word rest) parse_i32)
      | _ \<Rightarrow> None)"

definition native_bridge_error_reason :: "int \<Rightarrow> string option" where
  "native_bridge_error_reason code =
     (if code = - 1 then Some ''block hash not found in bridge view''
      else if code = - 2 then Some ''block is not in best chain''
      else if code = - 3 then Some ''internal inconsistency prevented block lookup''
      else if code = - 4 then Some ''block too old to be processed''
      else if code = - 5 then Some ''merkle branch does not prove inclusion''
      else None)"

definition confirmations_input_of ::
  "bridge_ops \<Rightarrow> btc_tx_spv_proof \<Rightarrow> domain_errors + confirmations_input" where
  "confirmations_input_of ops proof =
     (case h256_from_str ops (sp_block_hash proof) of
        Inl e \<Rightarrow> Inl (InvalidBtcTxSpvProof (''Invalid block hash: '' @ e))
      | Inr block_hash \<Rightarrow>
          Inr \<lparr> ci_tx_hash = txid_to_fb_32 (compute_txid ops (sp_tx proof)), ci_block_hash = block_hash,
                ci_merkle_branch_path = sp_merkle_branch_path proof,
                ci_merkle_branch_hashes = map (hex_encode (bridge_text ops)) (sp_merkle_branch_hashes proof) \<rparr>)"

definition verify_btc_confirmations ::
  "bridge_ops \<Rightarrow> (confirmations_input \<Rightarrow> 's \<Rightarrow> (domain_errors + u32) \<times> 's) \<Rightarrow> btc_tx_spv_proof \<Rightarrow> u32
     \<Rightarrow> 's \<Rightarrow> (domain_errors + verification_status) \<times> 's" where
  "verify_btc_confirmations ops query proof required s =
     (case confirmations_input_of ops proof of
        Inl e \<Rightarrow> (Inl e, s)
      | Inr input \<Rightarrow>
          (case query input s of
             (Inr confirmations, t) \<Rightarrow>
               (Inr (if required \<le> confirmations then Verified
                     else InsufficientConfirmations required confirmations), t)
           | (Inl e, t) \<Rightarrow>
               (case Option.bind (parse_native_bridge_error_code e) native_bridge_error_reason of
                  Some _ \<Rightarrow> (Inr (InsufficientConfirmations required 0), t)
                | None \<Rightarrow> (Inl e, t))))"

definition verify_confirmations ::
  "bridge_ops \<Rightarrow> native_bridge_verifier \<Rightarrow> (confirmations_input \<Rightarrow> 's \<Rightarrow> (domain_errors + u32) \<times> 's)
     \<Rightarrow> btc_tx_spv_proof \<Rightarrow> u32 \<Rightarrow> 's \<Rightarrow> (domain_errors + verification_status) \<times> 's" where
  "verify_confirmations ops v query proof required s =
     (case v of
        RealVerifier _ \<Rightarrow> verify_btc_confirmations ops query proof required s
      | DummyVerifier \<Rightarrow> (Inr Verified, s))"

definition missing_text :: "u32 \<Rightarrow> u32 \<Rightarrow> string" where
  "missing_text actual required =
     dec_of_nat (unat actual) @ ''/'' @ dec_of_nat (unat required) @ '' confirmations''"

definition invoke_contract_safe ::
  "bridge_ops \<Rightarrow> native_bridge_verifier \<Rightarrow> (confirmations_input \<Rightarrow> 's \<Rightarrow> (domain_errors + u32) \<times> 's)
     \<Rightarrow> btc_tx_spv_proof \<Rightarrow> ('s \<Rightarrow> (domain_errors + 'a) \<times> 's) \<Rightarrow> 's \<Rightarrow> (domain_errors + 'a) \<times> 's" where
  "invoke_contract_safe ops v query proof invoke =
     fbind (verify_confirmations ops v query proof (required_confirmations v)) (\<lambda>res.
     case res of
       Verified \<Rightarrow> invoke
     | InsufficientConfirmations required actual \<Rightarrow>
         ffail (MissingConfirmationsOnNativeBridge (missing_text actual required)))"

section \<open>Reading back what was printed\<close>

lemma of_char_digit: "d < 10 \<Longrightarrow> (of_char (char_of (48 + d :: nat)) :: nat) = 48 + d"
  by simp

lemma dec_value_append:
  "dec_value acc (xs @ [c]) = Option.bind (dec_value acc xs)
     (\<lambda>n. if is_digit c then Some (n * 10 + (of_char c - 48)) else None)"
  by (induction acc xs rule: dec_value.induct) simp_all

lemma dec_round_trip: "dec_value 0 (dec_of_nat n) = Some n"
proof (induction n rule: dec_of_nat.induct)
  case (1 n)
  show ?case
  proof (cases "n < 10")
    case True
    then show ?thesis by (simp add: dec_of_nat.simps [of n] is_digit_def)
  next
    case False
    then show ?thesis
      using 1 by (simp add: dec_of_nat.simps [of n] dec_value_append is_digit_def)
  qed
qed

lemma dec_of_nat_digits: "c \<in> set (dec_of_nat n) \<Longrightarrow> is_digit c"
proof (induction n rule: dec_of_nat.induct)
  case (1 n)
  show ?case
  proof (cases "n < 10")
    case True
    with 1 show ?thesis by (simp add: dec_of_nat.simps [of n] is_digit_def)
  next
    case False
    with 1 show ?thesis by (auto simp: dec_of_nat.simps [of n] is_digit_def)
  qed
qed

lemma dec_of_nat_nonempty: "dec_of_nat n \<noteq> []"
  by (simp add: dec_of_nat.simps [of n])

lemma digits_round_trip: "digits_value (dec_of_nat n) = Some n"
  by (simp add: digits_value_def dec_of_nat_nonempty dec_round_trip)

lemma parse_i32_round_trip:
  assumes "- (2 ^ 31) \<le> i" and "i < 2 ^ 31"
  shows "parse_i32 (dec_of_int i) = Some i"
proof (cases "i < 0")
  case True
  then show ?thesis using assms by (simp add: parse_i32_def dec_of_int_def digits_round_trip nat_le_iff)
next
  case False
  obtain c cs where d: "dec_of_nat (nat i) = c # cs" using dec_of_nat_nonempty [of "nat i"] by (cases "dec_of_nat (nat i)") auto
  then have "is_digit c" using dec_of_nat_digits [of c "nat i"] by simp
  then have "c \<noteq> CHR ''-''" and "c \<noteq> CHR ''+''" by (auto simp: is_digit_def)
  then show ?thesis
    using False assms digits_round_trip [of "nat i"] by (simp add: parse_i32_def dec_of_int_def d nat_less_iff)
qed

lemma dec_of_int_no_space: "c \<in> set (dec_of_int i) \<Longrightarrow> \<not> is_whitespace c"
proof -
  have "is_digit c \<Longrightarrow> \<not> is_whitespace c" by (auto simp: is_digit_def is_whitespace_def Let_def)
  moreover have "\<not> is_whitespace (CHR ''-'')" by (simp add: is_whitespace_def)
  ultimately show "c \<in> set (dec_of_int i) \<Longrightarrow> \<not> is_whitespace c"
    using dec_of_nat_digits by (auto simp: dec_of_int_def split: if_splits)
qed

lemma first_word_between:
  assumes "w \<noteq> []" and "\<forall>c \<in> set w. \<not> is_whitespace c"
  shows "first_word (CHR '' '' # w @ CHR '' '' # rest) = Some w"
proof -
  have sp: "is_whitespace (CHR '' '')" by (simp add: is_whitespace_def)
  have "dropWhile is_whitespace (CHR '' '' # w @ CHR '' '' # rest) = w @ CHR '' '' # rest"
    using assms sp by (cases w) simp_all
  then show ?thesis using assms sp by (simp add: first_word_def takeWhile_append)
qed

lemma split_once_generic:
  "n \<notin> set p \<Longrightarrow> split_once (n # pat) (p @ (n # pat) @ rest) = Some (p, rest)"
  "n \<notin> set p \<Longrightarrow> split_once (n # pat) p = None"
  by (induction p) auto

lemma marker_Cons: "\<exists>pat. NATIVE_BRIDGE_ERROR_MARKER = CHR ''N'' # pat"
  by (simp add: NATIVE_BRIDGE_ERROR_MARKER_def)

lemma split_once_first:
  "CHR ''N'' \<notin> set p \<Longrightarrow>
     split_once NATIVE_BRIDGE_ERROR_MARKER (p @ NATIVE_BRIDGE_ERROR_MARKER @ rest) = Some (p, rest)"
  using marker_Cons split_once_generic(1) by metis

lemma split_once_absent:
  "CHR ''N'' \<notin> set s \<Longrightarrow> split_once NATIVE_BRIDGE_ERROR_MARKER s = None"
  using marker_Cons split_once_generic(2) by metis

definition bridge_error_message :: "int \<Rightarrow> string" where
  "bridge_error_message i =
     ''Native Bridge returned error code: '' @ dec_of_int i @ '' (see RSKIP122 for error meanings)''"

lemma bridge_error_message_shape:
  "bridge_error_message i =
     NATIVE_BRIDGE_ERROR_MARKER @ CHR '' '' # dec_of_int i @ CHR '' '' # ''(see RSKIP122 for error meanings)''"
  by (simp add: bridge_error_message_def NATIVE_BRIDGE_ERROR_MARKER_def)

lemma error_code_read_back:
  assumes "CHR ''N'' \<notin> set p" and "- (2 ^ 31) \<le> i" and "i < 2 ^ 31"
  shows "parse_native_bridge_error_code (UnhandledContractError (p @ bridge_error_message i)) = Some i"
proof -
  have "dec_of_int i \<noteq> []" by (simp add: dec_of_int_def dec_of_nat_nonempty)
  then have "first_word (CHR '' '' # dec_of_int i @ CHR '' '' # ''(see RSKIP122 for error meanings)'') = Some (dec_of_int i)"
    by (rule first_word_between) (simp add: dec_of_int_no_space)
  then show ?thesis
    by (simp only: parse_native_bridge_error_code_def bridge_error_message_shape domain_errors.case
        split_once_first [OF assms(1)] bind.bind_lunit prod.case parse_i32_round_trip [OF assms(2,3)])
qed

lemma error_reason_iff: "native_bridge_error_reason i \<noteq> None \<longleftrightarrow> - 5 \<le> i \<and> i < 0"
  by (auto simp: native_bridge_error_reason_def)

section \<open>The answer of the bridge decides\<close>

definition answer_value :: "bytes \<Rightarrow> int" where
  "answer_value result = sint (word_of_nat (be_val (take 32 result)) :: u256)"

lemma read_answer_cases:
  "32 \<le> length result \<Longrightarrow> answer_value result < 0 \<Longrightarrow>
     read_answer result = Inl (bridge_error_message (max (answer_value result) (- (2 ^ 31))))"
  "32 \<le> length result \<Longrightarrow> 0 \<le> answer_value result \<Longrightarrow> answer_value result < 2 ^ 32 \<Longrightarrow>
     read_answer result = Inr (word_of_int (answer_value result))"
  "32 \<le> length result \<Longrightarrow> 2 ^ 32 \<le> answer_value result \<Longrightarrow>
     read_answer result = Inl ''Confirmations value exceeds u32 maximum''"
  by (simp_all add: read_answer_def answer_value_def bridge_error_message_def Let_def max_def not_less)

definition usage_prefix :: "bridge_ops \<Rightarrow> string \<Rightarrow> bool" where
  "usage_prefix ops p \<longleftrightarrow> (\<forall>m. local_usage ops m = p @ m) \<and> CHR ''N'' \<notin> set p"

lemma error_retried_iff:
  assumes "usage_prefix ops p" and "v < 0"
  shows "Option.bind (parse_native_bridge_error_code (UnhandledContractError
           (''Failed to get bitcoin confirmations: '' @ local_usage ops (bridge_error_message (max v (- (2 ^ 31)))))))
           native_bridge_error_reason \<noteq> None \<longleftrightarrow> - 5 \<le> v"
proof -
  let ?p = "''Failed to get bitcoin confirmations: '' @ p"
  have "CHR ''N'' \<notin> set ?p" using assms(1) by (simp add: usage_prefix_def)
  then have "parse_native_bridge_error_code
      (UnhandledContractError (?p @ bridge_error_message (max v (- (2 ^ 31))))) = Some (max v (- (2 ^ 31)))"
    by (rule error_code_read_back) (use assms(2) in auto)
  moreover have "?p @ bridge_error_message i =
      ''Failed to get bitcoin confirmations: '' @ local_usage ops (bridge_error_message i)" for i
    using assms(1) by (simp add: usage_prefix_def)
  ultimately show ?thesis
    using error_reason_iff [of "max v (- (2 ^ 31))"] assms(2) by (simp add: max_def)
qed

lemma overflow_not_retried:
  assumes "usage_prefix ops p"
  shows "parse_native_bridge_error_code (UnhandledContractError
     (''Failed to get bitcoin confirmations: '' @ local_usage ops ''Confirmations value exceeds u32 maximum'')) = None"
proof -
  have "CHR ''N'' \<notin> set (''Failed to get bitcoin confirmations: '' @
      local_usage ops ''Confirmations value exceeds u32 maximum'')"
    using assms by (simp add: usage_prefix_def)
  note absent = split_once_absent [OF this]
  show ?thesis by (simp only: parse_native_bridge_error_code_def domain_errors.case absent bind.bind_lzero)
qed

section \<open>Guarded calls\<close>

definition answered :: "bridge_ops \<Rightarrow> (bytes \<Rightarrow> 's \<Rightarrow> (string + bytes) \<times> 's) \<Rightarrow> btc_tx_spv_proof \<Rightarrow> 's \<Rightarrow> bytes \<Rightarrow> 's \<Rightarrow> bool" where
  "answered ops provider_call proof s result t \<longleftrightarrow>
     (\<exists>input hashes path. confirmations_input_of ops proof = Inr input \<and>
        parse_hashes (fb32_from_str ops) (ci_merkle_branch_hashes input) = Inr hashes \<and>
        u256_from_str ops (ci_merkle_branch_path input) = Inr path \<and>
        provider_call (encode_call (ci_tx_hash input) (ci_block_hash input) path hashes) s = (Inr result, t))"

lemma answered_query:
  assumes "answered ops provider_call proof s result t"
  shows "\<exists>input. confirmations_input_of ops proof = Inr input \<and>
     get_btc_confirmations ops provider_call input s =
       (case read_answer result of
          Inl e \<Rightarrow> (Inl (UnhandledContractError (''Failed to get bitcoin confirmations: '' @ local_usage ops e)), t)
        | Inr c \<Rightarrow> (Inr c, t))"
proof -
  obtain input hashes path where input: "confirmations_input_of ops proof = Inr input"
      "parse_hashes (fb32_from_str ops) (ci_merkle_branch_hashes input) = Inr hashes"
      "u256_from_str ops (ci_merkle_branch_path input) = Inr path"
      "provider_call (encode_call (ci_tx_hash input) (ci_block_hash input) path hashes) s = (Inr result, t)"
    using assms by (auto simp: answered_def)
  show ?thesis
    by (intro exI [of _ input] conjI input(1))
      (simp add: get_btc_confirmations_def call_get_btc_transaction_confirmations_def fbind_def input(2-4)
        split: sum.splits)
qed

lemma guarded_unfold:
  assumes "confirmations_input_of ops proof = Inr input" and "query input s = (x, t)"
  shows "invoke_contract_safe ops (RealVerifier req) query proof invoke s =
    (case x of
       Inr c \<Rightarrow> if req \<le> c then invoke t else (Inl (MissingConfirmationsOnNativeBridge (missing_text c req)), t)
     | Inl e \<Rightarrow> if Option.bind (parse_native_bridge_error_code e) native_bridge_error_reason \<noteq> None
         then (Inl (MissingConfirmationsOnNativeBridge (missing_text 0 req)), t) else (Inl e, t))"
  using assms
  by (simp add: invoke_contract_safe_def verify_confirmations_def verify_btc_confirmations_def
      required_confirmations_def fbind_def ffail_def split: sum.splits option.splits)

text \<open>
  C38. A contract call guarded by an SPV proof is made exactly when the bridge answers with at least
  the required number of confirmations. A smaller number, and each of the five error codes of the
  bridge, is reported as missing confirmations, which the flows retry; every other answer is an
  error of its own. The code survives its way through the text of two error messages. Of the
  transport errors this uses that their text is the message after a fixed prefix.
\<close>

theorem guarded_call_exact:
  assumes usage: "usage_prefix ops p"
    and ans: "answered ops provider_call proof s result t" and len: "32 \<le> length result"
  shows "(let v = answer_value result;
              r = invoke_contract_safe ops (RealVerifier req) (get_btc_confirmations ops provider_call) proof invoke s
          in (int (unat req) \<le> v \<and> v < 2 ^ 32 \<longrightarrow> r = invoke t) \<and>
             (0 \<le> v \<and> v < int (unat req) \<longrightarrow>
                r = (Inl (MissingConfirmationsOnNativeBridge (missing_text (word_of_int v) req)), t)) \<and>
             (- 5 \<le> v \<and> v < 0 \<longrightarrow> r = (Inl (MissingConfirmationsOnNativeBridge (missing_text 0 req)), t)) \<and>
             (v < - 5 \<or> 2 ^ 32 \<le> v \<longrightarrow> (\<exists>m. r = (Inl (UnhandledContractError m), t))))"
proof -
  obtain input where input: "confirmations_input_of ops proof = Inr input"
    and query: "get_btc_confirmations ops provider_call input s =
       (case read_answer result of
          Inl e \<Rightarrow> (Inl (UnhandledContractError (''Failed to get bitcoin confirmations: '' @ local_usage ops e)), t)
        | Inr c \<Rightarrow> (Inr c, t))"
    using answered_query [OF ans] by blast
  let ?v = "answer_value result"
  consider (error) "?v < 0" | (count) "0 \<le> ?v" "?v < 2 ^ 32" | (over) "2 ^ 32 \<le> ?v" by linarith
  then show ?thesis
  proof cases
    case error
    note q = query [unfolded read_answer_cases(1) [OF len error] sum.case]
    note r = guarded_unfold [where query = "get_btc_confirmations ops provider_call", OF input q, of req invoke, unfolded sum.case error_retried_iff [OF usage error]]
    have "\<not> int (unat req) \<le> ?v" "\<not> 0 \<le> ?v" "\<not> 2 ^ 32 \<le> ?v" using error by (linarith, linarith, simp)
    then show ?thesis using error by (simp only: Let_def r) auto
  next
    case count
    note q = query [unfolded read_answer_cases(2) [OF len count] sum.case]
    have "req \<le> word_of_int ?v \<longleftrightarrow> int (unat req) \<le> ?v"
      using count by (simp add: word_le_def uint_word_of_int)
    with count show ?thesis
      by (simp add: Let_def guarded_unfold [where query = "get_btc_confirmations ops provider_call", OF input q])
  next
    case over
    note q = query [unfolded read_answer_cases(3) [OF len over] sum.case]
    note r = guarded_unfold [where query = "get_btc_confirmations ops provider_call", OF input q, of req invoke, unfolded sum.case overflow_not_retried [OF usage] bind.bind_lzero]
    have "int (unat req) < 2 ^ 32" using uint_bounded [of req] by simp
    then have "\<not> ?v < 2 ^ 32" "\<not> ?v < int (unat req)" "\<not> ?v < 0" using over by (linarith, linarith, simp)
    then show ?thesis by (simp only: Let_def r) auto
  qed
qed


text \<open>A bridge that answers with a fixed byte string, and an empty proof.\<close>

definition sample_ops :: bridge_ops where
  "sample_ops = \<lparr> bridge_text = std_text, h256_from_str = (\<lambda>s. Inr 1), fb32_from_str = (\<lambda>s. Inr 2),
     u256_from_str = (\<lambda>s. Inr 3), compute_txid = (\<lambda>t. 4),
     local_usage = (\<lambda>m. ''local usage error: '' @ m) \<rparr>"

definition sample_proof :: btc_tx_spv_proof where
  "sample_proof = \<lparr> sp_block_hash = '''',
     sp_tx = \<lparr> bt_version = 2, bt_lock_time = 0, bt_input = [], bt_output = [\<lparr> to_value = 5, to_script_pubkey = [] \<rparr>] \<rparr>,
     sp_merkle_branch_path = '''', sp_merkle_branch_hashes = [] \<rparr>"

definition sample_bridge :: "bytes \<Rightarrow> bytes \<Rightarrow> nat \<Rightarrow> (string + bytes) \<times> nat" where
  "sample_bridge answer d n = (Inr answer, n + 1)"

lemma sample_answered: "answered sample_ops (sample_bridge answer) sample_proof n answer (n + 1)"
  by (simp add: answered_def sample_ops_def sample_proof_def sample_bridge_def confirmations_input_of_def)

lemma sample_usage: "usage_prefix sample_ops ''local usage error: ''"
  by (simp add: usage_prefix_def sample_ops_def)

lemma answer_value_word: "answer_value (be_word 32 (w :: u256)) = sint w"
  by (simp add: answer_value_def be_val_be_word)

theorem guarded_call_exact_witness:
  "invoke_contract_safe sample_ops (RealVerifier 6)
     (get_btc_confirmations sample_ops (sample_bridge (be_word 32 (7 :: u256)))) sample_proof (fret ()) 0 = (Inr (), 1) \<and>
   invoke_contract_safe sample_ops (RealVerifier 6)
     (get_btc_confirmations sample_ops (sample_bridge (be_word 32 (- 2 :: u256)))) sample_proof (fret ()) 0 =
     (Inl (MissingConfirmationsOnNativeBridge (missing_text 0 6)), 1)"
  using guarded_call_exact [OF sample_usage sample_answered, of "be_word 32 (7 :: u256)" 6 "fret ()" 0]
    guarded_call_exact [OF sample_usage sample_answered, of "be_word 32 (- 2 :: u256)" 6 "fret ()" 0]
  by (simp add: answer_value_word fret_def Let_def)

end
