(* ===== verification/Pegin_Flow.thy ===== *)
theory Pegin_Flow
  imports Bridge_Verifier
begin

text \<open>
  The state machine of one pegin (\<^verbatim>\<open>crates/coordinator/src/flows/pegin/pegin_flow.rs\<close>). The contract
  gateway, the BitVMX broker, the store and the completion signals are parameters whose answers may
  depend on everything done before; what the flow does with them is recorded, in order, in a trace.
  An operation that fails keeps what was assigned and done up to the failure, as the code does. Log
  lines are left out. Completion markers are the values that their JSON text shows. On a 64-bit
  target the conversion of a slot id to \<^verbatim>\<open>usize\<close> cannot fail.
\<close>

section \<open>Steps and data\<close>

datatype steps =
    S_PeginTransactionFound
  | S_RequestPeginSpvProof
  | S_WaitPeginRequested
  | S_GetCommInfoAuthoritativeCheckpoint
  | S_PreparePeginSetup
  | S_RequestOperatorTakeTransactionInfo
  | S_RequestOperatorWonTransactionInfo
  | S_AddOperatorTakeHash
  | S_WaitAllOperatorTakeTxidsAdded
  | S_WaitAcceptPeginSignaturesReadyAllConvergeCheckpoint
  | S_DispatchAcceptPeginTransactionAllConvergeCheckpoint
  | S_ConfirmAcceptPeginTransaction
  | S_RequestAcceptPeginSpvProof
  | S_AcceptPegin
  | S_Done
  | S_Failed

definition allows_fast_forward_to_pegin_accepted :: "steps \<Rightarrow> bool" where
  "allows_fast_forward_to_pegin_accepted s =
     (s = S_DispatchAcceptPeginTransactionAllConvergeCheckpoint \<or> s = S_ConfirmAcceptPeginTransaction \<or>
      s = S_RequestAcceptPeginSpvProof \<or> s = S_AcceptPegin)"

text \<open>The events of the pegin contract, with the fields the flow reads.\<close>

record pegin_requested =
  pr_committee_id :: u128
  pr_slot_id :: u64
  pr_request_pegin_txid :: h256
  pr_accept_pegin_txid :: h256
  pr_rsk_destination_address :: h160
  pr_btc_reimbursement_pub_key :: bytes
  pr_accept_pegin_signature_message :: bytes

record pegin_accepted =
  pd_accept_pegin_txid :: h256
  pd_rsk_destination_address :: h160
  pd_rbtc_amount :: u256

datatype step_data =
    D_PeginTransactionFound
  | D_RequestPeginSpvProof btc_tx_spv_proof
  | D_RetryRequestPegin
  | D_PeginRequested pegin_requested
  | D_CommInfo comms_address
  | D_BitvmxPeginAccepted pegin_accepted_message
  | D_TransactionInfo string txid
  | D_OperatorTakeHashAdded
  | D_AllOperatorTakeTxidsAdded
  | D_AcceptPeginSignaturesReady
  | D_AcceptPeginTransactionDispatched
  | D_AcceptPeginTransactionConfirmed transaction_status
  | D_AcceptPeginSpvProof btc_tx_spv_proof
  | D_RetryAcceptPegin
  | D_PeginAccepted pegin_accepted

record pegin_request_message =
  pq_txid :: txid
  pq_amount :: u64
  pq_accept_pegin_sighash :: bytes
  pq_take_aggregated_key :: public_key
  pq_operator_indexes :: "nat list"
  pq_slot_index :: u64
  pq_committee_id :: uuid
  pq_rootstock_address :: string
  pq_reimbursement_pubkey :: public_key

record committee_member =
  cm_member_address :: h160
  cm_role :: u8

record committee =
  co_members :: "committee_member list"
  co_aggregated_key :: bytes

record flow_context =
  fc_flow_id :: uuid
  fc_request_pegin_btc_tx_id :: txid
  fc_step :: steps
  fc_bitvmx_protocol_id :: "uuid option"
  fc_request_pegin_btc_tx_status :: "transaction_status option"
  fc_request_pegin_spv_proof :: "btc_tx_spv_proof option"
  fc_pegin_requested :: "pegin_requested option"
  fc_my_p2p_address :: "comms_address option"
  fc_committee_output :: "committee option"
  fc_bitvmx_pegin_accepted :: "pegin_accepted_message option"
  fc_operator_take_txid :: "txid option"
  fc_operator_won_txid :: "txid option"
  fc_accept_pegin_spv_proof :: "btc_tx_spv_proof option"
  fc_accept_pegin_tx_status :: "transaction_status option"
  fc_pegin_accepted :: "pegin_accepted option"
  fc_op_role :: "participant_role option"

record pegin_state =
  ps_flow_id :: uuid
  ps_log_id :: string
  ps_ctx :: flow_context
  ps_created_at :: "u64 option"

record completion_marker =
  mk_request_pegin_btc_tx_id :: txid
  mk_request_pegin_txid :: "h256 option"
  mk_accept_pegin_txid :: "h256 option"
  mk_committee_id :: "u128 option"
  mk_slot_id :: "u64 option"
  mk_rsk_destination_address :: "h160 option"
  mk_rbtc_amount :: "u256 option"

record add_operator_take_tx_hash_input =
  at_accept_pegin_tx_hash :: txid
  at_take_tx_hash :: txid
  at_won_tx_hash :: txid

section \<open>The world of a flow\<close>

datatype pegin_action =
    Saved uuid pegin_state bool
  | Sent incoming_bitvmx_api_messages bool
  | AskedCommittee u128
  | AskedCommunicationData u128 h160
  | AskedPublicKeys h160
  | AskedConfirmations confirmations_input
  | CalledRequestPegin btc_tx_spv_proof_input "domain_errors + string"
  | CalledAcceptPegin btc_tx_spv_proof_input "domain_errors + string"
  | CalledAddOperatorTake add_operator_take_tx_hash_input "domain_errors + string"
  | Signalled string uuid completion_marker bool
  | CountedCompletion "u64 option"

type_synonym pegin_trace = "pegin_action list"

datatype pegin_error =
    StoreFailed | BrokerFailed | SignalFailed | SerializationFailed | ContractFailed domain_errors
  | UnreachableInitStep | OutOfFuel | InvalidStateTransition steps step_data
  | SpvProofNotAvailable | PeginRequestedNotAvailable | PeginAcceptedNotAvailable | ExpectedAcceptTxidNotFound
  | PeginAcceptedTxidMismatch txid txid | TransactionStatusMismatch txid txid
  | P2pAddressNotAvailable | CommitteeOutputNotFound | AddressNotInCommittee | InvalidMemberRole u8
  | OperatorRoleNotFound | BitvmxPeginAcceptedNotFound | OperatorTakeTxidMissing | OperatorWonTxidMissing
  | UnexpectedTransactionInfo steps string string | ProtocolIdNotSet | NoOutputs | ChecksumTooShort
  | BadAggregatedKey | BadReimbursementKey | BadCommunicationData pack_error | CommunicationKeyNotFound h160
  | CommsFailed comms_error

record pegin_env =
  pe_ops :: bridge_ops
  pe_net :: net_ops
  pe_sha256 :: "bytes \<Rightarrow> h256"
  pe_show_uuid :: "uuid \<Rightarrow> string"
  pe_parse_socket :: "string \<Rightarrow> socket_addr option"
  pe_show_socket :: "socket_addr \<Rightarrow> string"
  pe_to_checksum :: "h160 \<Rightarrow> string"
  pe_public_key_from_slice :: "bytes \<Rightarrow> public_key option"
  pe_xonly_from_slice :: "bytes \<Rightarrow> bytes option"
  pe_even_public_key :: "bytes \<Rightarrow> public_key"
  pe_request_json :: "pegin_request_message \<Rightarrow> string option"
  pe_accepted_json :: "pegin_accepted \<Rightarrow> string option"
  pe_verifier :: native_bridge_verifier
  pe_file_signals :: bool
  pe_my_address :: h160
  pe_new_v4 :: "pegin_trace \<Rightarrow> uuid"
  pe_save :: "pegin_trace \<Rightarrow> pegin_state \<Rightarrow> bool"
  pe_send :: "pegin_trace \<Rightarrow> incoming_bitvmx_api_messages \<Rightarrow> bool"
  pe_signal :: "pegin_trace \<Rightarrow> completion_marker \<Rightarrow> bool"
  pe_get_committee :: "pegin_trace \<Rightarrow> u128 \<Rightarrow> domain_errors + committee"
  pe_get_communication_data :: "pegin_trace \<Rightarrow> u128 \<Rightarrow> h160 \<Rightarrow> domain_errors + slots list"
  pe_get_member_public_keys :: "pegin_trace \<Rightarrow> h160 \<Rightarrow> domain_errors + string list"
  pe_get_btc_confirmations :: "pegin_trace \<Rightarrow> confirmations_input \<Rightarrow> domain_errors + u32"
  pe_request_pegin :: "pegin_trace \<Rightarrow> btc_tx_spv_proof_input \<Rightarrow> domain_errors + string"
  pe_accept_pegin :: "pegin_trace \<Rightarrow> btc_tx_spv_proof_input \<Rightarrow> domain_errors + string"
  pe_add_operator_take :: "pegin_trace \<Rightarrow> add_operator_take_tx_hash_input \<Rightarrow> domain_errors + string"

record pegin_flow =
  pf_state :: pegin_state
  pf_trace :: pegin_trace

type_synonym 'a pegin_op = "pegin_flow \<Rightarrow> (pegin_error + 'a) \<times> pegin_flow"

text \<open>An exchange with the world: its answer, and the record of the exchange.\<close>

definition perform :: "(pegin_trace \<Rightarrow> 'r) \<Rightarrow> ('r \<Rightarrow> pegin_action) \<Rightarrow> pegin_flow \<Rightarrow> 'r \<times> pegin_flow" where
  "perform answer act f =
     (let r = answer (pf_trace f) in (r, f \<lparr> pf_trace := pf_trace f @ [act r] \<rparr>))"

definition perform_ok :: "(pegin_trace \<Rightarrow> bool) \<Rightarrow> (bool \<Rightarrow> pegin_action) \<Rightarrow> pegin_error \<Rightarrow> unit pegin_op" where
  "perform_ok answer act e f = (case perform answer act f of (ok, g) \<Rightarrow> (ensure ok e, g))"

definition perform_contract ::
  "(pegin_trace \<Rightarrow> domain_errors + 'a) \<Rightarrow> (domain_errors + 'a \<Rightarrow> pegin_action) \<Rightarrow> 'a pegin_op" where
  "perform_contract answer act f =
     (case perform answer act f of (r, g) \<Rightarrow> (case r of Inl e \<Rightarrow> Inl (ContractFailed e) | Inr x \<Rightarrow> Inr x, g))"

definition ctx :: "pegin_flow \<Rightarrow> flow_context" where
  "ctx f = ps_ctx (pf_state f)"

definition map_ctx :: "(flow_context \<Rightarrow> flow_context) \<Rightarrow> pegin_flow \<Rightarrow> pegin_flow" where
  "map_ctx g f = f \<lparr> pf_state := (pf_state f) \<lparr> ps_ctx := g (ctx f) \<rparr> \<rparr>"

section \<open>Creation and persistence\<close>

definition flow_id_from_request_pegin_txid :: "pegin_env \<Rightarrow> txid \<Rightarrow> uuid" where
  "flow_id_from_request_pegin_txid env t = flow_id_from_tx (pe_sha256 env) ''pegin_flow'' (be_word 32 t)"

definition build_log_id :: "pegin_env \<Rightarrow> pegin_state \<Rightarrow> string" where
  "build_log_id env st = pe_show_uuid env (ps_flow_id st) @ '' ('' @
     txid_to_string (bridge_text (pe_ops env)) (fc_request_pegin_btc_tx_id (ps_ctx st)) @ '')''"

definition pegin_flow_new :: "pegin_env \<Rightarrow> txid \<Rightarrow> uuid \<Rightarrow> u64 \<Rightarrow> pegin_trace \<Rightarrow> pegin_flow" where
  "pegin_flow_new env btc_tx_id fid now trace =
     (let st = \<lparr> ps_flow_id = fid, ps_log_id = '''',
            ps_ctx = \<lparr> fc_flow_id = fid, fc_request_pegin_btc_tx_id = btc_tx_id,
              fc_step = S_PeginTransactionFound, fc_bitvmx_protocol_id = None,
              fc_request_pegin_btc_tx_status = None, fc_request_pegin_spv_proof = None,
              fc_pegin_requested = None, fc_my_p2p_address = None, fc_committee_output = None,
              fc_bitvmx_pegin_accepted = None, fc_operator_take_txid = None, fc_operator_won_txid = None,
              fc_accept_pegin_spv_proof = None, fc_accept_pegin_tx_status = None,
              fc_pegin_accepted = None, fc_op_role = None \<rparr>,
            ps_created_at = Some now \<rparr>
      in \<lparr> pf_state = st \<lparr> ps_log_id := build_log_id env st \<rparr>, pf_trace = trace \<rparr>)"

definition from_saved_state :: "pegin_env \<Rightarrow> pegin_state \<Rightarrow> pegin_trace \<Rightarrow> pegin_flow" where
  "from_saved_state env st trace =
     \<lparr> pf_state = st \<lparr> ps_log_id := build_log_id env st \<rparr>, pf_trace = trace \<rparr>"

definition persist_state :: "pegin_env \<Rightarrow> unit pegin_op" where
  "persist_state env = fbind (fget pf_state) (\<lambda>st.
     perform_ok (\<lambda>t. pe_save env t st) (Saved (ps_flow_id st) st) StoreFailed)"

section \<open>Reading the context\<close>

definition extract_pegin_amount :: "flow_context \<Rightarrow> pegin_error + u64" where
  "extract_pegin_amount c =
     res_bind (ok_or (fc_request_pegin_spv_proof c) SpvProofNotAvailable) (\<lambda>proof.
     case bt_output (sp_tx proof) of [] \<Rightarrow> Inl NoOutputs | out # _ \<Rightarrow> Inr (to_value out))"

definition record_completion_metrics :: "unit pegin_op" where
  "record_completion_metrics f =
     (case perform (\<lambda>_. ()) (\<lambda>_. CountedCompletion
        (case extract_pegin_amount (ctx f) of Inl _ \<Rightarrow> None | Inr sats \<Rightarrow> Some sats)) f of
        (_, g) \<Rightarrow> (Inr (), g))"

definition get_accept_pegin_txid_from_bitvmx_var :: "flow_context \<Rightarrow> txid option" where
  "get_accept_pegin_txid_from_bitvmx_var c = map_option pm_accept_pegin_txid (fc_bitvmx_pegin_accepted c)"

definition bitvmx_protocol_id :: "uuid pegin_op" where
  "bitvmx_protocol_id = fbind (fget ctx) (\<lambda>c. fok_or (fc_bitvmx_protocol_id c) ProtocolIdNotSet)"

definition try_get_op_role :: "participant_role pegin_op" where
  "try_get_op_role = fbind (fget ctx) (\<lambda>c. fok_or (fc_op_role c) OperatorRoleNotFound)"

definition calc_op_role :: "pegin_env \<Rightarrow> participant_role pegin_op" where
  "calc_op_role env = fbind (fget ctx) (\<lambda>c.
     fbind (fok_or (fc_committee_output c) CommitteeOutputNotFound) (\<lambda>committee.
     fbind (fok_or (find (\<lambda>m. cm_member_address m = pe_my_address env) (co_members committee))
              AddressNotInCommittee) (\<lambda>member.
     fok_or (participant_role_try_from (cm_role member)) (InvalidMemberRole (cm_role member)))))"

fun position :: "('a \<Rightarrow> bool) \<Rightarrow> 'a list \<Rightarrow> nat option" where
  "position P [] = None"
| "position P (x # xs) = (if P x then Some 0 else map_option Suc (position P xs))"

definition my_committee_index :: "pegin_env \<Rightarrow> nat pegin_op" where
  "my_committee_index env = fbind (fget ctx) (\<lambda>c.
     fbind (fok_or (fc_committee_output c) CommitteeOutputNotFound) (\<lambda>committee.
     fok_or (position (\<lambda>m. cm_member_address m = pe_my_address env) (co_members committee))
       AddressNotInCommittee))"

definition ACCEPT_PEGIN_TX :: string where "ACCEPT_PEGIN_TX = ''ACCEPT_PEGIN_TX''"
definition OPERATOR_TAKE_TX :: string where "OPERATOR_TAKE_TX = ''OPERATOR_TAKE_TX''"
definition OPERATOR_WON_TX :: string where "OPERATOR_WON_TX = ''OPERATOR_WON_TX''"

definition indexed_name :: "string \<Rightarrow> nat \<Rightarrow> string" where
  "indexed_name prefix index = prefix @ ''_'' @ dec_of_nat index"

definition operator_take_transaction_name :: "pegin_env \<Rightarrow> string pegin_op" where
  "operator_take_transaction_name env =
     fbind (my_committee_index env) (\<lambda>i. fret (indexed_name OPERATOR_TAKE_TX i))"

definition operator_won_transaction_name :: "pegin_env \<Rightarrow> string pegin_op" where
  "operator_won_transaction_name env =
     fbind (my_committee_index env) (\<lambda>i. fret (indexed_name OPERATOR_WON_TX i))"

definition is_terminal :: "pegin_flow \<Rightarrow> bool" where
  "is_terminal f = (fc_step (ctx f) = S_Done \<or> fc_step (ctx f) = S_Failed)"

section \<open>Messages to BitVMX\<close>

definition send_bitvmx_msg :: "pegin_env \<Rightarrow> incoming_bitvmx_api_messages \<Rightarrow> unit pegin_op" where
  "send_bitvmx_msg env m = perform_ok (\<lambda>t. pe_send env t m) (Sent m) BrokerFailed"

definition request_pegin_spv_proof :: "pegin_env \<Rightarrow> unit pegin_op" where
  "request_pegin_spv_proof env = fbind (fget ctx) (\<lambda>c.
     send_bitvmx_msg env (GetSPVProof (fc_request_pegin_btc_tx_id c)))"

definition request_bitvmx_comm_info :: "pegin_env \<Rightarrow> unit pegin_op" where
  "request_bitvmx_comm_info env = fbind (fget (\<lambda>f. pe_new_v4 env (pf_trace f))) (\<lambda>req_id.
     send_bitvmx_msg env (GetCommInfo req_id))"

definition request_operator_take_transaction_info :: "pegin_env \<Rightarrow> unit pegin_op" where
  "request_operator_take_transaction_info env =
     fbind bitvmx_protocol_id (\<lambda>pid. fbind (operator_take_transaction_name env) (\<lambda>n.
     send_bitvmx_msg env (GetTransactionInfoByName pid n)))"

definition request_operator_won_transaction_info :: "pegin_env \<Rightarrow> unit pegin_op" where
  "request_operator_won_transaction_info env =
     fbind bitvmx_protocol_id (\<lambda>pid. fbind (operator_won_transaction_name env) (\<lambda>n.
     send_bitvmx_msg env (GetTransactionInfoByName pid n)))"

definition dispatch_transaction :: "pegin_env \<Rightarrow> unit pegin_op" where
  "dispatch_transaction env =
     fbind bitvmx_protocol_id (\<lambda>pid. send_bitvmx_msg env (DispatchTransactionName pid ACCEPT_PEGIN_TX))"

definition request_transaction_status :: "pegin_env \<Rightarrow> unit pegin_op" where
  "request_transaction_status env = fbind (fget ctx) (\<lambda>c.
     fbind (fok_or (get_accept_pegin_txid_from_bitvmx_var c) ExpectedAcceptTxidNotFound) (\<lambda>tx_id.
     fbind bitvmx_protocol_id (\<lambda>pid. send_bitvmx_msg env (GetTransaction pid tx_id))))"

definition request_spv_proof :: "pegin_env \<Rightarrow> unit pegin_op" where
  "request_spv_proof env = fbind (fget ctx) (\<lambda>c.
     fbind (fok_or (get_accept_pegin_txid_from_bitvmx_var c) ExpectedAcceptTxidNotFound) (\<lambda>tx_id.
     send_bitvmx_msg env (GetSPVProof tx_id)))"

definition PEGIN_ACCEPTED_VAR_NAME :: string where "PEGIN_ACCEPTED_VAR_NAME = ''PeginAccepted''"

definition send_pegin_accepted_to_bitvmx :: "pegin_env \<Rightarrow> unit pegin_op" where
  "send_pegin_accepted_to_bitvmx env = fbind (fget ctx) (\<lambda>c.
     fbind (fok_or (fc_pegin_accepted c) PeginAcceptedNotAvailable) (\<lambda>accepted.
     fbind (fok_or (pe_accepted_json env accepted) SerializationFailed) (\<lambda>data.
     fbind bitvmx_protocol_id (\<lambda>pid.
     send_bitvmx_msg env (SetVar pid PEGIN_ACCEPTED_VAR_NAME (VString data))))))"

section \<open>Setup of the accept-pegin program\<close>

definition get_committee_output :: "pegin_env \<Rightarrow> u128 \<Rightarrow> committee pegin_op" where
  "get_committee_output env committee_id =
     perform_contract (\<lambda>t. pe_get_committee env t committee_id) (\<lambda>_. AskedCommittee committee_id)"

text \<open>The addresses of all members as text, empty for one that has deposited none.\<close>

fun read_addresses :: "pegin_env \<Rightarrow> slots list \<Rightarrow> pegin_error + string list" where
  "read_addresses env [] = Inr []"
| "read_addresses env (d # ds) =
     res_bind (case socket_addr_from_contracts (pe_net env) d of
                 Inl e \<Rightarrow> Inl (BadCommunicationData e)
               | Inr a \<Rightarrow> Inr (case a of None \<Rightarrow> '''' | Some addr \<Rightarrow> pe_show_socket env addr)) (\<lambda>s.
     res_bind (read_addresses env ds) (\<lambda>ss. Inr (s # ss)))"

definition get_committee_addresses :: "pegin_env \<Rightarrow> u128 \<Rightarrow> string list pegin_op" where
  "get_committee_addresses env committee_id =
     fbind (perform_contract (\<lambda>t. pe_get_communication_data env t committee_id (pe_my_address env))
        (\<lambda>_. AskedCommunicationData committee_id (pe_my_address env))) (\<lambda>data f. (read_addresses env data, f))"

definition COMM_KEY_INDEX :: nat where "COMM_KEY_INDEX = 2"

fun member_key_hashes :: "pegin_env \<Rightarrow> committee_member list \<Rightarrow> pub_key_hash list \<Rightarrow> pub_key_hash list pegin_op" where
  "member_key_hashes env [] acc = fret acc"
| "member_key_hashes env (m # ms) acc =
     fbind (perform_contract (\<lambda>t. pe_get_member_public_keys env t (cm_member_address m))
        (\<lambda>_. AskedPublicKeys (cm_member_address m))) (\<lambda>keys.
     fbind (fok_or (if COMM_KEY_INDEX < length keys then Some (keys ! COMM_KEY_INDEX) else None)
        (CommunicationKeyNotFound (cm_member_address m))) (\<lambda>key.
     member_key_hashes env ms (acc @ [key])))"

definition get_committee_pubkey_hashes :: "pegin_env \<Rightarrow> u128 \<Rightarrow> pub_key_hash list pegin_op" where
  "get_committee_pubkey_hashes env committee_id =
     fbind (perform_contract (\<lambda>t. pe_get_committee env t committee_id) (\<lambda>_. AskedCommittee committee_id))
       (\<lambda>committee. member_key_hashes env (co_members committee) [])"

definition build_operator_indexes :: "committee \<Rightarrow> nat list" where
  "build_operator_indexes committee =
     map fst (filter (\<lambda>(i, m). cm_role m = participant_role_to_u8 Prover)
       (enumerate 0 (co_members committee)))"

definition build_take_aggregated_key :: "pegin_env \<Rightarrow> committee \<Rightarrow> pegin_error + public_key" where
  "build_take_aggregated_key env committee =
     ok_or (pe_public_key_from_slice env (co_aggregated_key committee)) BadAggregatedKey"

definition build_reimbursement_pubkey :: "pegin_env \<Rightarrow> pegin_requested \<Rightarrow> pegin_error + public_key" where
  "build_reimbursement_pubkey env event =
     res_bind (ok_or (pe_xonly_from_slice env (pr_btc_reimbursement_pub_key event)) BadReimbursementKey)
       (\<lambda>xonly. Inr (pe_even_public_key env xonly))"

definition build_pegin_request_message ::
  "pegin_env \<Rightarrow> pegin_requested \<Rightarrow> committee \<Rightarrow> u64 \<Rightarrow> pegin_error + pegin_request_message" where
  "build_pegin_request_message env event committee amount =
     (let checksum_address = pe_to_checksum env (pr_rsk_destination_address event)
      in res_bind (if length checksum_address < 2 then Inl ChecksumTooShort
                   else Inr (drop 2 checksum_address)) (\<lambda>rootstock_address.
         res_bind (build_take_aggregated_key env committee) (\<lambda>take_key.
         res_bind (build_reimbursement_pubkey env event) (\<lambda>reimbursement.
         Inr \<lparr> pq_txid = fb_32_to_txid (pr_request_pegin_txid event), pq_amount = amount,
               pq_accept_pegin_sighash = pr_accept_pegin_signature_message event,
               pq_take_aggregated_key = take_key,
               pq_operator_indexes = build_operator_indexes committee,
               pq_slot_index = pr_slot_id event, pq_committee_id = pr_committee_id event,
               pq_rootstock_address = rootstock_address, pq_reimbursement_pubkey = reimbursement \<rparr>))))"

definition PEGIN_REQUEST :: string where "PEGIN_REQUEST = ''pegin_request''"
definition PROGRAM_TYPE_ACCEPT_PEGIN :: string where "PROGRAM_TYPE_ACCEPT_PEGIN = ''accept_pegin''"

definition send_request_message :: "pegin_env \<Rightarrow> committee \<Rightarrow> unit pegin_op" where
  "send_request_message env committee = fbind (fget ctx) (\<lambda>c.
     fbind (fok_or (fc_pegin_requested c) PeginRequestedNotAvailable) (\<lambda>requested.
     fbind (lift_res (extract_pegin_amount c)) (\<lambda>amount.
     fbind (lift_res (build_pegin_request_message env requested committee amount)) (\<lambda>pegin_request.
     fbind bitvmx_protocol_id (\<lambda>pid.
     fbind (fok_or (pe_request_json env pegin_request) SerializationFailed) (\<lambda>data.
     send_bitvmx_msg env (SetVar pid PEGIN_REQUEST (VString data))))))))"

definition send_pegin_request_to_bitvmx :: "pegin_env \<Rightarrow> u128 \<Rightarrow> unit pegin_op" where
  "send_pegin_request_to_bitvmx env committee_id =
     fbind (get_committee_output env committee_id) (\<lambda>committee.
     fseq (fmod (map_ctx (\<lambda>c. c \<lparr> fc_committee_output := Some committee \<rparr>)))
     (fbind (calc_op_role env) (\<lambda>role.
      fseq (fmod (map_ctx (\<lambda>c. c \<lparr> fc_op_role := Some role \<rparr>))) (send_request_message env committee))))"

definition send_setup_to_bitvmx :: "pegin_env \<Rightarrow> u128 \<Rightarrow> unit pegin_op" where
  "send_setup_to_bitvmx env committee_id =
     fbind (get_committee_addresses env committee_id) (\<lambda>addresses.
     fbind (get_committee_pubkey_hashes env committee_id) (\<lambda>hashes.
     fbind (fget ctx) (\<lambda>c.
     fbind (fok_or (fc_my_p2p_address c) P2pAddressNotAvailable) (\<lambda>mine.
     fbind (lift_res (case build_communication_data (pe_parse_socket env)
                        (pe_show_socket env (ca_address mine)) addresses hashes of
                        Inl e \<Rightarrow> Inl (CommsFailed e) | Inr cs \<Rightarrow> Inr cs)) (\<lambda>comms_addresses.
     fbind bitvmx_protocol_id (\<lambda>pid.
     send_bitvmx_msg env (Setup pid PROGRAM_TYPE_ACCEPT_PEGIN comms_addresses 0)))))))"

definition prepare_pegin_setup :: "pegin_env \<Rightarrow> unit pegin_op" where
  "prepare_pegin_setup env = fbind (fget ctx) (\<lambda>c.
     fbind (fok_or (fc_pegin_requested c) PeginRequestedNotAvailable) (\<lambda>requested.
     fseq (send_pegin_request_to_bitvmx env (pr_committee_id requested))
       (send_setup_to_bitvmx env (pr_committee_id requested))))"

section \<open>Contract calls\<close>

definition add_operator_take_hash :: "pegin_env \<Rightarrow> unit pegin_op" where
  "add_operator_take_hash env =
     fbind try_get_op_role (\<lambda>role.
     if role \<noteq> Prover then fret ()
     else fbind (fget ctx) (\<lambda>c.
       fbind (fok_or (fc_bitvmx_pegin_accepted c) BitvmxPeginAcceptedNotFound) (\<lambda>accepted.
       fbind (fok_or (fc_operator_take_txid c) OperatorTakeTxidMissing) (\<lambda>take_tx_hash.
       fbind (fok_or (fc_operator_won_txid c) OperatorWonTxidMissing) (\<lambda>won_tx_hash.
       let input = \<lparr> at_accept_pegin_tx_hash = pm_accept_pegin_txid accepted,
                     at_take_tx_hash = take_tx_hash, at_won_tx_hash = won_tx_hash \<rparr>
       in fseq (perform_contract (\<lambda>t. pe_add_operator_take env t input) (CalledAddOperatorTake input))
            (fret ()))))))"

text \<open>A call guarded by the confirmations of the native bridge.\<close>

definition guarded_call ::
  "pegin_env \<Rightarrow> btc_tx_spv_proof \<Rightarrow> (pegin_trace \<Rightarrow> domain_errors + string) \<Rightarrow> (domain_errors + string \<Rightarrow> pegin_action)
     \<Rightarrow> pegin_flow \<Rightarrow> (domain_errors + string) \<times> pegin_flow" where
  "guarded_call env proof answer act =
     invoke_contract_safe (pe_ops env) (pe_verifier env)
       (\<lambda>input. perform (\<lambda>t. pe_get_btc_confirmations env t input) (\<lambda>_. AskedConfirmations input))
       proof (perform answer act)"

definition accept_pegin :: "pegin_env \<Rightarrow> btc_tx_spv_proof \<Rightarrow> unit pegin_op" where
  "accept_pegin env proof f =
     (let input = from_spv_proof (bridge_text (pe_ops env)) proof
      in case guarded_call env proof (\<lambda>t. pe_accept_pegin env t input) (CalledAcceptPegin input) f of
           (Inl e, g) \<Rightarrow> (Inl (ContractFailed e), g)
         | (Inr _, g) \<Rightarrow> (Inr (), g))"

definition request_pegin :: "pegin_env \<Rightarrow> btc_tx_spv_proof \<Rightarrow> unit pegin_op" where
  "request_pegin env proof f =
     (let input = from_spv_proof (bridge_text (pe_ops env)) proof
      in case guarded_call env proof (\<lambda>t. pe_request_pegin env t input) (CalledRequestPegin input) f of
           (Inl e, g) \<Rightarrow>
             (case e of PeginAlreadyRequested msg \<Rightarrow> (Inr (), g) | _ \<Rightarrow> (Inl (ContractFailed e), g))
         | (Inr _, g) \<Rightarrow> (Inr (), g))"

definition signal_done :: "pegin_env \<Rightarrow> uuid \<Rightarrow> completion_marker \<Rightarrow> unit pegin_op" where
  "signal_done env pid payload =
     (if pe_file_signals env
      then perform_ok (\<lambda>t. pe_signal env t payload) (Signalled ''pegin'' pid payload) SignalFailed
      else fret ())"

definition write_completion_marker :: "pegin_env \<Rightarrow> unit pegin_op" where
  "write_completion_marker env = fbind (fget ctx) (\<lambda>c.
     let payload = \<lparr> mk_request_pegin_btc_tx_id = fc_request_pegin_btc_tx_id c,
           mk_request_pegin_txid = map_option pr_request_pegin_txid (fc_pegin_requested c),
           mk_accept_pegin_txid = map_option pd_accept_pegin_txid (fc_pegin_accepted c),
           mk_committee_id = map_option pr_committee_id (fc_pegin_requested c),
           mk_slot_id = map_option pr_slot_id (fc_pegin_requested c),
           mk_rsk_destination_address = map_option pd_rsk_destination_address (fc_pegin_accepted c),
           mk_rbtc_amount = map_option pd_rbtc_amount (fc_pegin_accepted c) \<rparr>
     in fbind bitvmx_protocol_id (\<lambda>pid. signal_done env pid payload))"

section \<open>Transitions\<close>

definition complete_with_confirmed_pegin_acceptance :: "pegin_accepted \<Rightarrow> steps pegin_op" where
  "complete_with_confirmed_pegin_acceptance accepted = fbind (fget ctx) (\<lambda>c.
     fbind (fok_or (get_accept_pegin_txid_from_bitvmx_var c) ExpectedAcceptTxidNotFound) (\<lambda>expected_txid.
     let accepted_txid = fb_32_to_txid (pd_accept_pegin_txid accepted)
     in if accepted_txid \<noteq> expected_txid then ffail (PeginAcceptedTxidMismatch accepted_txid expected_txid)
        else fseq (fmod (map_ctx (\<lambda>c. c \<lparr> fc_pegin_accepted := Some accepted \<rparr>))) (fret S_Done)))"

definition retry_request_pegin_step :: "pegin_env \<Rightarrow> steps pegin_op" where
  "retry_request_pegin_step env = fbind (fget ctx) (\<lambda>c.
     fbind (fok_or (fc_request_pegin_spv_proof c) SpvProofNotAvailable) (\<lambda>proof.
     fseq (request_pegin env proof) (fret S_WaitPeginRequested)))"

definition handle_operator_take_transaction_info :: "pegin_env \<Rightarrow> string \<Rightarrow> txid \<Rightarrow> steps pegin_op" where
  "handle_operator_take_transaction_info env tx_name t =
     fbind (operator_take_transaction_name env) (\<lambda>expected.
     if tx_name \<noteq> expected
     then ffail (UnexpectedTransactionInfo S_RequestOperatorTakeTransactionInfo tx_name expected)
     else fseq (fmod (map_ctx (\<lambda>c. c \<lparr> fc_operator_take_txid := Some t \<rparr>)))
            (fret S_RequestOperatorWonTransactionInfo))"

definition handle_operator_won_transaction_info :: "pegin_env \<Rightarrow> string \<Rightarrow> txid \<Rightarrow> steps pegin_op" where
  "handle_operator_won_transaction_info env tx_name t =
     fbind (operator_won_transaction_name env) (\<lambda>expected.
     if tx_name \<noteq> expected
     then ffail (UnexpectedTransactionInfo S_RequestOperatorWonTransactionInfo tx_name expected)
     else fseq (fmod (map_ctx (\<lambda>c. c \<lparr> fc_operator_won_txid := Some t \<rparr>))) (fret S_AddOperatorTakeHash))"

definition confirm_accept_pegin_transaction :: "transaction_status \<Rightarrow> steps pegin_op" where
  "confirm_accept_pegin_transaction tx_status = fbind (fget ctx) (\<lambda>c.
     fbind (fok_or (get_accept_pegin_txid_from_bitvmx_var c) ExpectedAcceptTxidNotFound) (\<lambda>expected.
     if ts_tx_id tx_status \<noteq> expected then ffail (TransactionStatusMismatch (ts_tx_id tx_status) expected)
     else fseq (fmod (map_ctx (\<lambda>c. c \<lparr> fc_accept_pegin_tx_status := Some tx_status \<rparr>)))
            (fret S_RequestAcceptPeginSpvProof)))"

definition process_pegin_requested :: "pegin_env \<Rightarrow> pegin_requested \<Rightarrow> steps pegin_op" where
  "process_pegin_requested env requested =
     fseq (fmod (map_ctx (\<lambda>c. c \<lparr> fc_pegin_requested := Some requested \<rparr>)))
     (fseq (fmod (map_ctx (\<lambda>c. c \<lparr> fc_bitvmx_protocol_id := Some (accept_pegin_protocol_id
        (pe_sha256 env) (pr_committee_id requested) (pr_slot_id requested)) \<rparr>)))
       (fret S_GetCommInfoAuthoritativeCheckpoint))"

definition process_request_spv_proof :: "pegin_env \<Rightarrow> btc_tx_spv_proof \<Rightarrow> steps pegin_op" where
  "process_request_spv_proof env proof =
     fseq (fmod (map_ctx (\<lambda>c. c \<lparr> fc_request_pegin_spv_proof := Some proof \<rparr>)))
     (fseq (persist_state env) (fseq (request_pegin env proof) (fret S_WaitPeginRequested)))"

definition process_bitvmx_accepted :: "pegin_accepted_message \<Rightarrow> steps pegin_op" where
  "process_bitvmx_accepted accepted =
     fseq (fmod (map_ctx (\<lambda>c. c \<lparr> fc_bitvmx_pegin_accepted := Some accepted \<rparr>)))
     (fbind try_get_op_role (\<lambda>role.
        fret (if role = Prover then S_RequestOperatorTakeTransactionInfo else S_WaitAllOperatorTakeTxidsAdded)))"

text \<open>The transition table, one line for each kind of data.\<close>

definition process_step_data :: "pegin_env \<Rightarrow> steps \<Rightarrow> step_data \<Rightarrow> steps pegin_op" where
  "process_step_data env step data =
     (let invalid = ffail (InvalidStateTransition step data)
      in case data of
        D_PeginTransactionFound \<Rightarrow>
          if step = S_PeginTransactionFound then fret S_RequestPeginSpvProof else invalid
      | D_RequestPeginSpvProof proof \<Rightarrow>
          if step = S_RequestPeginSpvProof then process_request_spv_proof env proof else invalid
      | D_RetryRequestPegin \<Rightarrow>
          if step = S_RequestPeginSpvProof then retry_request_pegin_step env else invalid
      | D_PeginRequested requested \<Rightarrow>
          if step = S_WaitPeginRequested then process_pegin_requested env requested else invalid
      | D_CommInfo comm_info \<Rightarrow>
          if step = S_GetCommInfoAuthoritativeCheckpoint
          then fseq (fmod (map_ctx (\<lambda>c. c \<lparr> fc_my_p2p_address := Some comm_info \<rparr>))) (fret S_PreparePeginSetup)
          else invalid
      | D_BitvmxPeginAccepted accepted \<Rightarrow>
          if step = S_PreparePeginSetup then process_bitvmx_accepted accepted else invalid
      | D_TransactionInfo tx_name t \<Rightarrow>
          if step = S_RequestOperatorTakeTransactionInfo
          then handle_operator_take_transaction_info env tx_name t
          else if step = S_RequestOperatorWonTransactionInfo
          then handle_operator_won_transaction_info env tx_name t
          else invalid
      | D_OperatorTakeHashAdded \<Rightarrow>
          if step = S_AddOperatorTakeHash then fret S_WaitAllOperatorTakeTxidsAdded else invalid
      | D_AllOperatorTakeTxidsAdded \<Rightarrow>
          if step = S_WaitAllOperatorTakeTxidsAdded
          then fret S_WaitAcceptPeginSignaturesReadyAllConvergeCheckpoint else invalid
      | D_AcceptPeginSignaturesReady \<Rightarrow>
          if step = S_WaitAcceptPeginSignaturesReadyAllConvergeCheckpoint
          then fret S_DispatchAcceptPeginTransactionAllConvergeCheckpoint else invalid
      | D_AcceptPeginTransactionDispatched \<Rightarrow>
          if step = S_DispatchAcceptPeginTransactionAllConvergeCheckpoint
          then fret S_ConfirmAcceptPeginTransaction else invalid
      | D_AcceptPeginTransactionConfirmed tx_status \<Rightarrow>
          if step = S_ConfirmAcceptPeginTransaction
          then confirm_accept_pegin_transaction tx_status else invalid
      | D_AcceptPeginSpvProof proof \<Rightarrow>
          if step = S_RequestAcceptPeginSpvProof
          then fseq (fmod (map_ctx (\<lambda>c. c \<lparr> fc_accept_pegin_spv_proof := Some proof \<rparr>))) (fret S_AcceptPegin)
          else invalid
      | D_RetryAcceptPegin \<Rightarrow> if step = S_AcceptPegin then fret S_AcceptPegin else invalid
      | D_PeginAccepted accepted \<Rightarrow>
          if allows_fast_forward_to_pegin_accepted step
          then complete_with_confirmed_pegin_acceptance accepted else invalid)"

text \<open>
  The entry action of a step. Two of them complete the step at once, through the operation given as
  \<open>complete\<close>.
\<close>

definition entry_action :: "pegin_env \<Rightarrow> (step_data \<Rightarrow> unit pegin_op) \<Rightarrow> steps \<Rightarrow> unit pegin_op" where
  "entry_action env complete next_step =
     (case next_step of
        S_PeginTransactionFound \<Rightarrow> ffail UnreachableInitStep
      | S_RequestPeginSpvProof \<Rightarrow> request_pegin_spv_proof env
      | S_WaitPeginRequested \<Rightarrow> fret ()
      | S_GetCommInfoAuthoritativeCheckpoint \<Rightarrow> request_bitvmx_comm_info env
      | S_PreparePeginSetup \<Rightarrow> prepare_pegin_setup env
      | S_RequestOperatorTakeTransactionInfo \<Rightarrow> request_operator_take_transaction_info env
      | S_RequestOperatorWonTransactionInfo \<Rightarrow> request_operator_won_transaction_info env
      | S_AddOperatorTakeHash \<Rightarrow> fseq (add_operator_take_hash env) (complete D_OperatorTakeHashAdded)
      | S_WaitAllOperatorTakeTxidsAdded \<Rightarrow> fret ()
      | S_WaitAcceptPeginSignaturesReadyAllConvergeCheckpoint \<Rightarrow> fret ()
      | S_DispatchAcceptPeginTransactionAllConvergeCheckpoint \<Rightarrow>
          fseq (dispatch_transaction env) (complete D_AcceptPeginTransactionDispatched)
      | S_ConfirmAcceptPeginTransaction \<Rightarrow> fret ()
      | S_RequestAcceptPeginSpvProof \<Rightarrow> request_spv_proof env
      | S_AcceptPegin \<Rightarrow> fbind (fget ctx) (\<lambda>c.
          fbind (fok_or (fc_accept_pegin_spv_proof c) SpvProofNotAvailable) (accept_pegin env))
      | S_Done \<Rightarrow> fseq (send_pegin_accepted_to_bitvmx env) (write_completion_marker env)
      | S_Failed \<Rightarrow> fret ())"

text \<open>
  \<^verbatim>\<open>start_step\<close> and \<^verbatim>\<open>complete_step\<close> call each other. The first argument bounds the depth of these
  calls; the depth of two used below is proved to be enough.
\<close>

primrec start_step_at :: "nat \<Rightarrow> pegin_env \<Rightarrow> steps \<Rightarrow> unit pegin_op" where
  "start_step_at 0 env next_step = ffail OutOfFuel"
| "start_step_at (Suc n) env next_step =
     fseq (fmod (map_ctx (\<lambda>c. c \<lparr> fc_step := next_step \<rparr>)))
     (fseq (if next_step = S_AcceptPegin then persist_state env else fret ())
     (fseq (entry_action env
              (\<lambda>data. fbind (fget (\<lambda>f. fc_step (ctx f))) (\<lambda>current_step.
                 fbind (process_step_data env current_step data) (start_step_at n env))) next_step)
      (fbind (fget (\<lambda>f. fc_step (ctx f))) (\<lambda>step.
        if step = next_step
        then fseq (persist_state env)
               (if next_step = S_Done then record_completion_metrics else fret ())
        else fret ()))))"

definition start_step :: "pegin_env \<Rightarrow> steps \<Rightarrow> unit pegin_op" where
  "start_step = start_step_at 2"

definition complete_step :: "pegin_env \<Rightarrow> step_data \<Rightarrow> unit pegin_op" where
  "complete_step env data = fbind (fget (\<lambda>f. fc_step (ctx f))) (\<lambda>current_step.
     fbind (process_step_data env current_step data) (start_step env))"

definition mark_failed :: "pegin_env \<Rightarrow> unit pegin_op" where
  "mark_failed env = start_step env S_Failed"

end
