(* ===== verification/Journal.thy ===== *)
theory Journal
  imports Flow_Monad
begin

text \<open>
  Flows that record what they do: each operation acts on a state with a history, and every entry of
  the history must be allowed by the entries before it. The contract a flow has to meet is that
  recording an entry appends it and changes nothing else; the rules for its operations follow once.
\<close>

locale journal =
  fixes trace_of :: "'s \<Rightarrow> 'a list" and state_of :: "'s \<Rightarrow> 't" and note_entry :: "'a \<Rightarrow> 's \<Rightarrow> 's"
    and allowed :: "'a set \<Rightarrow> 'a \<Rightarrow> bool" and missing :: "'e \<Rightarrow> bool"
  assumes trace_note [simp]: "trace_of (note_entry a f) = trace_of f @ [a]"
    and state_note [simp]: "state_of (note_entry a f) = state_of f"
begin

definition journaled :: "'a list \<Rightarrow> bool" where
  "journaled = each_after (\<lambda>before. allowed (set before))"

lemma journaled_snoc [simp]: "journaled (t @ [x]) \<longleftrightarrow> journaled t \<and> allowed (set t) x"
  and journaled_Nil [simp]: "journaled []"
  by (simp_all add: journaled_def)

lemma journaledD: "journaled (a @ x # b) \<Longrightarrow> allowed (set a) x"
  unfolding journaled_def by (rule each_afterD)

lemma journaled_in:
  assumes "journaled t" and "x \<in> set t"
  shows "\<exists>a. set a \<subseteq> set t \<and> allowed (set a) x"
proof -
  obtain a b where "t = a @ x # b" using split_list [OF assms(2)] by blast
  with assms(1) show ?thesis by (intro exI [of _ a]) (auto dest: journaledD)
qed

text \<open>What an operation leaves alone that only exchanges messages, and when it is safe.\<close>

definition quiet :: "'s \<Rightarrow> 's \<Rightarrow> bool" where
  "quiet f g \<longleftrightarrow> state_of g = state_of f \<and> journaled (trace_of g) \<and> set (trace_of f) \<subseteq> set (trace_of g)"

definition safe :: "('s \<Rightarrow> ('e + 'b) \<times> 's) \<Rightarrow> 's \<Rightarrow> bool" where
  "safe m f = wp m (\<lambda>_. quiet f) (\<lambda>e g. quiet f g \<and> \<not> missing e) f"

lemma quiet_refl [simp]: "quiet f f \<longleftrightarrow> journaled (trace_of f)"
  by (simp add: quiet_def)

lemma quiet_trans: "quiet f g \<Longrightarrow> quiet g h \<Longrightarrow> quiet f h"
  by (auto simp: quiet_def)

lemma quiet_state: "quiet f g \<Longrightarrow> state_of g = state_of f"
  and quiet_journaled: "quiet f g \<Longrightarrow> journaled (trace_of g)"
  and quiet_grows: "quiet f g \<Longrightarrow> set (trace_of f) \<subseteq> set (trace_of g)"
  by (simp_all add: quiet_def)

lemma quiet_note [simp]:
  "quiet f (note_entry a f) \<longleftrightarrow> journaled (trace_of f) \<and> allowed (set (trace_of f)) a"
  by (auto simp: quiet_def)

lemma safe_bind:
  assumes "safe m f" and "\<And>x g. quiet f g \<Longrightarrow> safe (k x) g"
  shows "safe (fbind m k) f"
  using assms(1) unfolding safe_def wp_bind
proof (rule wp_mono)
  fix x g
  assume q: "quiet f g"
  from assms(2) [OF q, of x] show "wp (k x) (\<lambda>_. quiet f) (\<lambda>e g. quiet f g \<and> \<not> missing e) g"
    unfolding safe_def by (rule wp_mono) (auto intro: quiet_trans [OF q])
qed

lemma safe_seq: "safe m f \<Longrightarrow> (\<And>g. quiet f g \<Longrightarrow> safe k g) \<Longrightarrow> safe (fseq m k) f"
  unfolding fseq_def by (rule safe_bind)

lemma safe_ret: "journaled (trace_of f) \<Longrightarrow> safe (fret x) f"
  by (simp add: safe_def wp_simps)

lemma safe_fail: "journaled (trace_of f) \<Longrightarrow> \<not> missing e \<Longrightarrow> safe (ffail e) f"
  by (simp add: safe_def wp_simps)

lemma safe_get: "safe (k (v f)) f \<Longrightarrow> safe (fbind (fget v) k) f"
  by (simp add: safe_def wp_simps)

lemma safe_ok_or: "y = Some x \<Longrightarrow> safe (k x) f \<Longrightarrow> safe (fbind (fok_or y e) k) f"
  by (simp add: safe_def wp_simps)

lemma safe_ok_or_error: "journaled (trace_of f) \<Longrightarrow> \<not> missing e \<Longrightarrow> (\<And>x. safe (k x) f) \<Longrightarrow> safe (fbind (fok_or y e) k) f"
  by (cases y) (simp_all add: safe_def wp_simps)

lemma safe_result: "journaled (trace_of f) \<Longrightarrow> (\<And>e. r = Inl e \<Longrightarrow> \<not> missing e) \<Longrightarrow> safe (lift_res r) f"
  by (auto simp: safe_def wp_simps split: sum.splits)

lemma safe_exchange:
  assumes "m f = (r, note_entry a f)" and "journaled (trace_of f)" and "allowed (set (trace_of f)) a"
    and "\<And>e. r = Inl e \<Longrightarrow> \<not> missing e"
  shows "safe m f"
  using assms by (auto simp: safe_def wp_def split: sum.splits)

text \<open>A predicate of the state and of a growing history survives a safe operation.\<close>

lemma safe_keeps:
  assumes "safe m f" and "P (state_of f) (set (trace_of f))"
    and "\<And>S T. S \<subseteq> T \<Longrightarrow> P (state_of f) S \<Longrightarrow> P (state_of f) T"
  shows "wp m (\<lambda>_ g. quiet f g \<and> P (state_of g) (set (trace_of g)))
     (\<lambda>e g. quiet f g \<and> P (state_of g) (set (trace_of g)) \<and> \<not> missing e) f"
  using assms(1) unfolding safe_def
proof (rule wp_mono)
  fix x g
  assume q: "quiet f g"
  then show "quiet f g \<and> P (state_of g) (set (trace_of g))"
    using assms(2,3) quiet_state [OF q] quiet_grows [OF q] by metis
next
  fix e g
  assume q: "quiet f g \<and> \<not> missing e"
  then show "quiet f g \<and> P (state_of g) (set (trace_of g)) \<and> \<not> missing e"
    using assms(2,3) quiet_state [of f g] quiet_grows [of f g] by metis
qed

end

end
