(* ===== verification/Pegin_Safety.thy ===== *)
theory Pegin_Safety
  imports Pegin_Flow Journal
begin

text \<open>
  What the pegin state machine guarantees in every state it can reach, failures of its environment,
  administrative failures and restarts from the store included: the data each step relies on is
  there, the journal of saved states and contract calls is in order, and only the moves of the
  transition table happen.
\<close>

section \<open>Stages\<close>

primrec stage :: "steps \<Rightarrow> nat" where
  "stage S_Failed = 0"
| "stage S_PeginTransactionFound = 1"
| "stage S_RequestPeginSpvProof = 2"
| "stage S_WaitPeginRequested = 3"
| "stage S_GetCommInfoAuthoritativeCheckpoint = 4"
| "stage S_PreparePeginSetup = 5"
| "stage S_RequestOperatorTakeTransactionInfo = 6"
| "stage S_RequestOperatorWonTransactionInfo = 7"
| "stage S_AddOperatorTakeHash = 8"
| "stage S_WaitAllOperatorTakeTxidsAdded = 9"
| "stage S_WaitAcceptPeginSignaturesReadyAllConvergeCheckpoint = 10"
| "stage S_DispatchAcceptPeginTransactionAllConvergeCheckpoint = 11"
| "stage S_ConfirmAcceptPeginTransaction = 12"
| "stage S_RequestAcceptPeginSpvProof = 13"
| "stage S_AcceptPegin = 14"
| "stage S_Done = 15"

text \<open>The role was computed from the committee that is stored.\<close>

definition role_known :: "pegin_env \<Rightarrow> flow_context \<Rightarrow> bool" where
  "role_known env c \<longleftrightarrow>
     (fc_op_role c \<noteq> None \<longrightarrow>
        (\<exists>co m. fc_committee_output c = Some co \<and>
           find (\<lambda>m. cm_member_address m = pe_my_address env) (co_members co) = Some m))"

definition request_known :: "pegin_env \<Rightarrow> flow_context \<Rightarrow> bool" where
  "request_known env c \<longleftrightarrow>
     (\<exists>r. fc_pegin_requested c = Some r \<and>
          fc_bitvmx_protocol_id c =
            Some (accept_pegin_protocol_id (pe_sha256 env) (pr_committee_id r) (pr_slot_id r)))"

definition acceptance_matches :: "flow_context \<Rightarrow> bool" where
  "acceptance_matches c \<longleftrightarrow>
     (\<exists>a m. fc_pegin_accepted c = Some a \<and> fc_bitvmx_pegin_accepted c = Some m \<and>
            fb_32_to_txid (pd_accept_pegin_txid a) = pm_accept_pegin_txid m)"

definition confirmation_matches :: "flow_context \<Rightarrow> bool" where
  "confirmation_matches c \<longleftrightarrow>
     (\<exists>t m. fc_accept_pegin_tx_status c = Some t \<and> fc_bitvmx_pegin_accepted c = Some m \<and>
            ts_tx_id t = pm_accept_pegin_txid m)"

text \<open>What is known at a step.\<close>

definition holds_at :: "pegin_env \<Rightarrow> flow_context \<Rightarrow> steps \<Rightarrow> bool" where
  "holds_at env c s \<longleftrightarrow>
     role_known env c \<and>
     (1 \<le> stage s \<and> stage s \<le> 4 \<longrightarrow> fc_op_role c = None) \<and>
     (3 \<le> stage s \<longrightarrow> fc_request_pegin_spv_proof c \<noteq> None) \<and>
     (4 \<le> stage s \<longrightarrow> request_known env c) \<and>
     (5 \<le> stage s \<longrightarrow> fc_my_p2p_address c \<noteq> None) \<and>
     (6 \<le> stage s \<longrightarrow> fc_bitvmx_pegin_accepted c \<noteq> None \<and> fc_op_role c \<noteq> None) \<and>
     (6 \<le> stage s \<and> stage s \<le> 8 \<longrightarrow> fc_op_role c = Some Prover) \<and>
     (7 \<le> stage s \<and> stage s \<le> 8 \<longrightarrow> fc_operator_take_txid c \<noteq> None) \<and>
     (stage s = 8 \<longrightarrow> fc_operator_won_txid c \<noteq> None) \<and>
     (13 \<le> stage s \<and> stage s \<le> 14 \<longrightarrow> confirmation_matches c) \<and>
     (stage s = 14 \<longrightarrow> fc_accept_pegin_spv_proof c \<noteq> None) \<and>
     (stage s = 15 \<longrightarrow> acceptance_matches c)"

definition ctx_inv :: "pegin_env \<Rightarrow> flow_context \<Rightarrow> bool" where
  "ctx_inv env c = holds_at env c (fc_step c)"

section \<open>The journal\<close>

text \<open>What must have been recorded before an action.\<close>

fun justified :: "pegin_env \<Rightarrow> pegin_action set \<Rightarrow> pegin_action \<Rightarrow> bool" where
  "justified env before (Saved fid st ok) \<longleftrightarrow> fid = ps_flow_id st \<and> ctx_inv env (ps_ctx st)"
| "justified env before (CalledAcceptPegin input r) \<longleftrightarrow>
     (\<exists>st proof. Saved (ps_flow_id st) st True \<in> before \<and> fc_step (ps_ctx st) = S_AcceptPegin \<and>
        fc_accept_pegin_spv_proof (ps_ctx st) = Some proof \<and>
        input = from_spv_proof (bridge_text (pe_ops env)) proof)"
| "justified env before (CountedCompletion amount) \<longleftrightarrow>
     (\<exists>st. Saved (ps_flow_id st) st True \<in> before \<and> fc_step (ps_ctx st) = S_Done)"
| "justified env before a \<longleftrightarrow> True"

text \<open>Errors that would mean that a step was entered without its data.\<close>

fun lacks_data :: "pegin_error \<Rightarrow> bool" where
  "lacks_data UnreachableInitStep = True"
| "lacks_data OutOfFuel = True"
| "lacks_data SpvProofNotAvailable = True"
| "lacks_data PeginRequestedNotAvailable = True"
| "lacks_data PeginAcceptedNotAvailable = True"
| "lacks_data ExpectedAcceptTxidNotFound = True"
| "lacks_data P2pAddressNotAvailable = True"
| "lacks_data CommitteeOutputNotFound = True"
| "lacks_data OperatorRoleNotFound = True"
| "lacks_data BitvmxPeginAcceptedNotFound = True"
| "lacks_data OperatorTakeTxidMissing = True"
| "lacks_data OperatorWonTxidMissing = True"
| "lacks_data ProtocolIdNotSet = True"
| "lacks_data e = False"

definition pi_note :: "pegin_action \<Rightarrow> pegin_flow \<Rightarrow> pegin_flow" where
  "pi_note a f = f \<lparr> pf_trace := pf_trace f @ [a] \<rparr>"

interpretation ij: journal pf_trace pf_state pi_note "justified env" lacks_data for env
  by unfold_locales (simp_all add: pi_note_def)

definition flow_inv :: "pegin_env \<Rightarrow> pegin_flow \<Rightarrow> bool" where
  "flow_inv env f \<longleftrightarrow> ctx_inv env (ctx f) \<and> ij.journaled env (pf_trace f)"

text \<open>Between the moment a step is chosen and the moment it is entered.\<close>

definition ready :: "pegin_env \<Rightarrow> steps \<Rightarrow> pegin_flow \<Rightarrow> bool" where
  "ready env s f \<longleftrightarrow> holds_at env (ctx f) s \<and> ij.journaled env (pf_trace f) \<and> s \<noteq> S_PeginTransactionFound \<and>
     (s = S_PreparePeginSetup \<longrightarrow> fc_op_role (ctx f) = None)"

section \<open>Exchanges with the world\<close>

lemma ctx_trace [simp]: "ctx (f \<lparr> pf_trace := t \<rparr>) = ctx f"
  by (simp add: ctx_def)

lemma ctx_map_ctx [simp]: "ctx (map_ctx g f) = g (ctx f)" "pf_trace (map_ctx g f) = pf_trace f"
  by (simp_all add: ctx_def map_ctx_def)

lemma wp_perform_ok [wp_simps]:
  "wp (perform_ok answer act e) Q E f =
     (let ok = answer (pf_trace f); g = f \<lparr> pf_trace := pf_trace f @ [act ok] \<rparr> in if ok then Q () g else E e g)"
  by (simp add: wp_def perform_ok_def perform_def Let_def ensure_def)

lemma wp_perform_contract [wp_simps]:
  "wp (perform_contract answer act) Q E f =
     (let r = answer (pf_trace f); g = f \<lparr> pf_trace := pf_trace f @ [act r] \<rparr>
      in case r of Inl e \<Rightarrow> E (ContractFailed e) g | Inr x \<Rightarrow> Q x g)"
  by (simp add: wp_def perform_contract_def perform_def Let_def split: sum.splits)

lemma quiet_ctx: "ij.quiet env f g \<Longrightarrow> ctx g = ctx f"
  by (simp add: ij.quiet_def ctx_def)

lemmas quiet_snoc [simp] = ij.quiet_note [unfolded pi_note_def]

lemma send_safe: "ij.journaled env (pf_trace f) \<Longrightarrow> ij.safe env (send_bitvmx_msg env m) f"
  by (simp add: ij.safe_def send_bitvmx_msg_def wp_simps Let_def)

lemma persist_safe:
  "ij.journaled env (pf_trace f) \<Longrightarrow> ctx_inv env (ctx f) \<Longrightarrow> ij.safe env (persist_state env) f"
  by (simp add: ij.safe_def persist_state_def wp_simps Let_def ctx_def)

lemma guarded_call_quiet:
  assumes j: "ij.journaled env (pf_trace f)"
    and act: "\<And>S r. set (pf_trace f) \<subseteq> S \<Longrightarrow> justified env S (act r)"
  shows "ij.quiet env f (snd (guarded_call env proof answer act f))"
proof -
  let ?q = "\<lambda>input. f \<lparr> pf_trace := pf_trace f @ [AskedConfirmations input] \<rparr>"
  have asked: "ij.quiet env f (?q input)" for input using j by simp
  have called: "ij.quiet env f (g \<lparr> pf_trace := pf_trace g @ [act r] \<rparr>)" if "ij.quiet env f g" for g r
  proof -
    have "ij.quiet env g (g \<lparr> pf_trace := pf_trace g @ [act r] \<rparr>)" using that act by (simp add: ij.quiet_def [of env f])
    with that show ?thesis by (rule ij.quiet_trans)
  qed
  show ?thesis
    using j asked called [of f] called [OF asked]
    by (simp add: guarded_call_def invoke_contract_safe_def verify_confirmations_def verify_btc_confirmations_def
        fbind_def ffail_def perform_def Let_def
        split: native_bridge_verifier.splits sum.splits verification_status.splits option.splits)
qed

lemma accept_pegin_safe:
  assumes "ij.journaled env (pf_trace f)" and "Saved (ps_flow_id st) st True \<in> set (pf_trace f)"
    and "fc_step (ps_ctx st) = S_AcceptPegin" and "fc_accept_pegin_spv_proof (ps_ctx st) = Some proof"
  shows "ij.safe env (accept_pegin env proof) f"
proof -
  let ?input = "from_spv_proof (bridge_text (pe_ops env)) proof"
  obtain r g where run: "guarded_call env proof (\<lambda>t. pe_accept_pegin env t ?input) (CalledAcceptPegin ?input) f = (r, g)"
    by fastforce
  have "ij.quiet env f (snd (guarded_call env proof (\<lambda>t. pe_accept_pegin env t ?input) (CalledAcceptPegin ?input) f))"
    by (rule guarded_call_quiet) (use assms in auto)
  then show ?thesis by (cases r) (simp_all add: run ij.safe_def wp_def accept_pegin_def)
qed

lemma request_pegin_safe:
  assumes "ij.journaled env (pf_trace f)"
  shows "ij.safe env (request_pegin env proof) f"
proof -
  let ?input = "from_spv_proof (bridge_text (pe_ops env)) proof"
  obtain r g where run: "guarded_call env proof (\<lambda>t. pe_request_pegin env t ?input) (CalledRequestPegin ?input) f = (r, g)"
    by fastforce
  have "ij.quiet env f (snd (guarded_call env proof (\<lambda>t. pe_request_pegin env t ?input) (CalledRequestPegin ?input) f))"
    by (rule guarded_call_quiet) (use assms in simp_all)
  then have q: "ij.quiet env f g" by (simp add: run)
  have "request_pegin env proof f = (Inr (), g) \<or> (\<exists>e. request_pegin env proof f = (Inl (ContractFailed e), g))"
    by (cases r) (simp_all add: request_pegin_def Let_def run split: domain_errors.splits)
  with q show ?thesis by (auto simp: ij.safe_def wp_def)
qed

lemma wp_record_metrics [wp_simps]:
  "wp record_completion_metrics Q E f =
     Q () (f \<lparr> pf_trace := pf_trace f @ [CountedCompletion
       (case extract_pegin_amount (ctx f) of Inl _ \<Rightarrow> None | Inr sats \<Rightarrow> Some sats)] \<rparr>)"
  by (simp add: wp_def record_completion_metrics_def perform_def Let_def)

section \<open>Entry actions\<close>

lemma position_find: "find P xs = Some m \<Longrightarrow> \<exists>i. position P xs = Some i"
  by (induction xs) (auto split: if_splits)

lemma protocol_id_safe: "request_known env (ctx f) \<Longrightarrow> ij.journaled env (pf_trace f) \<Longrightarrow> ij.safe env bitvmx_protocol_id f"
  by (auto simp: ij.safe_def bitvmx_protocol_id_def wp_simps request_known_def)

lemma index_safe:
  assumes "role_known env (ctx f)" and "fc_op_role (ctx f) \<noteq> None" and "ij.journaled env (pf_trace f)"
  shows "ij.safe env (my_committee_index env) f"
proof -
  obtain co m where "fc_committee_output (ctx f) = Some co"
      "find (\<lambda>m. cm_member_address m = pe_my_address env) (co_members co) = Some m"
    using assms(1,2) by (auto simp: role_known_def split: option.splits)
  with position_find show ?thesis
    using assms(3) by (fastforce simp: ij.safe_def my_committee_index_def wp_simps)
qed

lemma take_name_safe: "role_known env (ctx f) \<Longrightarrow> fc_op_role (ctx f) \<noteq> None \<Longrightarrow> ij.journaled env (pf_trace f) \<Longrightarrow>
    ij.safe env (operator_take_transaction_name env) f"
  unfolding operator_take_transaction_name_def
  by (rule ij.safe_bind, rule index_safe) (simp_all add: ij.safe_def wp_simps ij.quiet_def)

lemma won_name_safe: "role_known env (ctx f) \<Longrightarrow> fc_op_role (ctx f) \<noteq> None \<Longrightarrow> ij.journaled env (pf_trace f) \<Longrightarrow>
    ij.safe env (operator_won_transaction_name env) f"
  unfolding operator_won_transaction_name_def
  by (rule ij.safe_bind, rule index_safe) (simp_all add: ij.safe_def wp_simps ij.quiet_def)

lemma quiet_facts:
  "ij.quiet env f g \<Longrightarrow> ij.journaled env (pf_trace g)" "ij.quiet env f g \<Longrightarrow> ctx g = ctx f"
  by (simp_all add: ij.quiet_def ctx_def)

lemma send_with_id_safe:
  assumes "ij.journaled env (pf_trace f)" and "request_known env (ctx f)"
  shows "ij.safe env (fbind bitvmx_protocol_id (\<lambda>pid. send_bitvmx_msg env (m pid))) f"
  by (rule ij.safe_bind, rule protocol_id_safe) (simp_all add: assms send_safe quiet_facts(1))

lemma get_ctx_safe: "ij.safe env (k (ctx f)) f \<Longrightarrow> ij.safe env (fbind (fget ctx) k) f"
  by (simp add: ij.safe_def wp_simps)

lemma ok_or_safe: "x = Some y \<Longrightarrow> ij.safe env (k y) f \<Longrightarrow> ij.safe env (fbind (fok_or x e) k) f"
  by (simp add: ij.safe_def wp_simps)

lemma ok_or_error_safe:
  "ij.journaled env (pf_trace f) \<Longrightarrow> \<not> lacks_data e \<Longrightarrow> (\<And>y. ij.safe env (k y) f) \<Longrightarrow> ij.safe env (fbind (fok_or x e) k) f"
  by (simp add: ij.safe_def wp_simps split: option.splits)

lemma requests_safe:
  assumes "ij.journaled env (pf_trace f)"
  shows "ij.safe env (request_pegin_spv_proof env) f" and "ij.safe env (request_bitvmx_comm_info env) f"
  using send_safe [OF assms]
  by (simp_all add: request_pegin_spv_proof_def request_bitvmx_comm_info_def get_ctx_safe)
    (simp add: ij.safe_def wp_simps)

lemma take_info_safe:
  assumes "ij.journaled env (pf_trace f)" and "request_known env (ctx f)" and "role_known env (ctx f)"
    and "fc_op_role (ctx f) \<noteq> None"
  shows "ij.safe env (request_operator_take_transaction_info env) f"
  unfolding request_operator_take_transaction_info_def
  by (intro ij.safe_bind protocol_id_safe take_name_safe send_safe) (use assms in \<open>auto simp: quiet_facts\<close>)

lemma won_info_safe:
  assumes "ij.journaled env (pf_trace f)" and "request_known env (ctx f)" and "role_known env (ctx f)"
    and "fc_op_role (ctx f) \<noteq> None"
  shows "ij.safe env (request_operator_won_transaction_info env) f"
  unfolding request_operator_won_transaction_info_def
  by (intro ij.safe_bind protocol_id_safe won_name_safe send_safe) (use assms in \<open>auto simp: quiet_facts\<close>)

lemma dispatch_safe:
  "ij.journaled env (pf_trace f) \<Longrightarrow> request_known env (ctx f) \<Longrightarrow> ij.safe env (dispatch_transaction env) f"
  unfolding dispatch_transaction_def by (rule send_with_id_safe)

lemma accept_txid_known:
  "fc_bitvmx_pegin_accepted c = Some m \<Longrightarrow> get_accept_pegin_txid_from_bitvmx_var c = Some (pm_accept_pegin_txid m)"
  by (simp add: get_accept_pegin_txid_from_bitvmx_var_def)

lemma spv_request_safe:
  assumes "ij.journaled env (pf_trace f)" and "fc_bitvmx_pegin_accepted (ctx f) \<noteq> None"
  shows "ij.safe env (request_spv_proof env) f"
  unfolding request_spv_proof_def
  using assms by (auto intro!: get_ctx_safe ok_or_safe send_safe accept_txid_known)

lemma status_request_safe:
  assumes "ij.journaled env (pf_trace f)" and "fc_bitvmx_pegin_accepted (ctx f) \<noteq> None" and "request_known env (ctx f)"
  shows "ij.safe env (request_transaction_status env) f"
  unfolding request_transaction_status_def
  using assms by (auto intro!: get_ctx_safe ok_or_safe send_with_id_safe accept_txid_known)

lemma notify_safe:
  assumes "ij.journaled env (pf_trace f)" and "fc_pegin_accepted (ctx f) \<noteq> None" and "request_known env (ctx f)"
  shows "ij.safe env (send_pegin_accepted_to_bitvmx env) f"
proof -
  obtain a where "fc_pegin_accepted (ctx f) = Some a" using assms(2) by blast
  then show ?thesis
    unfolding send_pegin_accepted_to_bitvmx_def
    by (intro get_ctx_safe ok_or_safe [of _ a] ok_or_error_safe send_with_id_safe) (use assms in auto)
qed

lemma marker_safe:
  assumes "ij.journaled env (pf_trace f)" and "request_known env (ctx f)"
  shows "ij.safe env (write_completion_marker env) f"
proof -
  have "ij.safe env (signal_done env pid payload) g" if "ij.quiet env f g" for pid payload g
    using quiet_facts(1) [OF that] by (simp add: signal_done_def ij.safe_def wp_simps Let_def)
  then show ?thesis
    unfolding write_completion_marker_def Let_def
    by (intro get_ctx_safe ij.safe_bind protocol_id_safe) (use assms in auto)
qed

lemma role_safe:
  "ij.journaled env (pf_trace f) \<Longrightarrow> fc_op_role (ctx f) = Some r \<Longrightarrow> ij.safe env (k r) f \<Longrightarrow> ij.safe env (fbind try_get_op_role k) f"
  by (simp add: ij.safe_def try_get_op_role_def wp_simps)

lemma add_hash_safe:
  assumes "ij.journaled env (pf_trace f)" and "fc_op_role (ctx f) = Some r"
    and "fc_bitvmx_pegin_accepted (ctx f) \<noteq> None"
    and "fc_operator_take_txid (ctx f) \<noteq> None" and "fc_operator_won_txid (ctx f) \<noteq> None"
  shows "ij.safe env (add_operator_take_hash env) f"
  unfolding add_operator_take_hash_def
  using assms by (auto simp: ij.safe_def try_get_op_role_def wp_simps Let_def split: sum.splits)

lemma safe_inv:
  assumes "ij.safe env m f" and "flow_inv env f"
  shows "wp m (\<lambda>_ g. flow_inv env g \<and> ctx g = ctx f) (\<lambda>e g. flow_inv env g \<and> ctx g = ctx f \<and> \<not> lacks_data e) f"
  using assms(1) unfolding ij.safe_def
  by (rule wp_mono) (use assms(2) in \<open>auto simp: flow_inv_def quiet_facts\<close>)

lemma flow_inv_journaled: "flow_inv env f \<Longrightarrow> ij.journaled env (pf_trace f)"
  by (simp add: flow_inv_def)

lemma setup_errors:
  "read_addresses env ds = Inl e \<Longrightarrow> \<not> lacks_data e"
  "build_pegin_request_message env event co amount = Inl e' \<Longrightarrow> \<not> lacks_data e'"
  by (induction env ds rule: read_addresses.induct)
    (auto simp: res_bind_Inl_iff build_pegin_request_message_def build_take_aggregated_key_def
      build_reimbursement_pubkey_def ok_or_Inl_iff Let_def split: sum.splits if_splits)

lemma lift_res_safe:
  assumes "ij.journaled env (pf_trace f)" and "\<And>e. r = Inl e \<Longrightarrow> \<not> lacks_data e" and "\<And>x. r = Inr x \<Longrightarrow> ij.safe env (k x) f"
  shows "ij.safe env (fbind (lift_res r) k) f"
  using assms by (simp add: ij.safe_def wp_simps split: sum.splits)

lemma member_keys_safe: "ij.journaled env (pf_trace f) \<Longrightarrow> ij.safe env (member_key_hashes env ms acc) f"
proof (induction env ms acc arbitrary: f rule: member_key_hashes.induct)
  case (2 env m ms acc)
  have "ij.safe env (perform_contract (\<lambda>t. pe_get_member_public_keys env t (cm_member_address m))
      (\<lambda>_. AskedPublicKeys (cm_member_address m))) f"
    using 2(2) by (simp add: ij.safe_def wp_simps Let_def split: sum.splits)
  then show ?case
    unfolding member_key_hashes.simps
    by (rule ij.safe_bind) (auto intro!: ok_or_error_safe 2(1) simp: quiet_facts)
qed (simp add: ij.safe_def wp_simps)

lemma contract_query_safe:
  "ij.journaled env (pf_trace f) \<Longrightarrow> (\<And>r S. justified env S (act r)) \<Longrightarrow> ij.safe env (perform_contract answer act) f"
  by (simp add: ij.safe_def wp_simps Let_def split: sum.splits)

lemma setup_message_safe:
  assumes j: "ij.journaled env (pf_trace f)" and rk: "request_known env (ctx f)" and p2p: "fc_my_p2p_address (ctx f) = Some mine"
  shows "ij.safe env (send_setup_to_bitvmx env cid) f"
proof -
  have addresses: "ij.safe env (get_committee_addresses env cid) f"
    unfolding get_committee_addresses_def
    by (rule ij.safe_bind, rule contract_query_safe)
      (use j setup_errors(1) in \<open>auto simp: ij.safe_def wp_def quiet_facts split: sum.splits\<close>)
  have hashes: "ij.safe env (get_committee_pubkey_hashes env cid) g" if "ij.quiet env f g" for g
    unfolding get_committee_pubkey_hashes_def
    by (rule ij.safe_bind, rule contract_query_safe)
      (use that in \<open>auto intro: member_keys_safe simp: quiet_facts\<close>)
  have rest: "ij.safe env (fbind (fget ctx) (\<lambda>c.
     fbind (fok_or (fc_my_p2p_address c) P2pAddressNotAvailable) (\<lambda>mine.
     fbind (lift_res (case build_communication_data (pe_parse_socket env)
                        (pe_show_socket env (ca_address mine)) as hs of
                        Inl e \<Rightarrow> Inl (CommsFailed e) | Inr cs \<Rightarrow> Inr cs)) (\<lambda>comms_addresses.
     fbind bitvmx_protocol_id (\<lambda>pid.
     send_bitvmx_msg env (Setup pid PROGRAM_TYPE_ACCEPT_PEGIN comms_addresses 0)))))) g"
    if "ij.quiet env f g" for as hs g
    by (intro get_ctx_safe ok_or_safe [of _ mine] lift_res_safe send_with_id_safe)
      (use that rk p2p in \<open>auto simp: quiet_facts split: sum.splits\<close>)
  show ?thesis
    unfolding send_setup_to_bitvmx_def
    by (rule ij.safe_bind [OF addresses], rule ij.safe_bind [OF hashes], assumption, rule rest)
      (auto intro: ij.quiet_trans)
qed

lemma request_message_safe:
  assumes j: "ij.journaled env (pf_trace f)" and rk: "request_known env (ctx f)"
    and proof_known: "fc_request_pegin_spv_proof (ctx f) \<noteq> None"
  shows "ij.safe env (send_request_message env co) f"
proof -
  obtain r where r: "fc_pegin_requested (ctx f) = Some r" using rk by (auto simp: request_known_def)
  have amount: "extract_pegin_amount (ctx f) = Inl e \<Longrightarrow> \<not> lacks_data e" for e
    using proof_known by (auto simp: extract_pegin_amount_def split: list.splits)
  show ?thesis
    unfolding send_request_message_def
    by (intro get_ctx_safe ok_or_safe [OF r] lift_res_safe ij.safe_bind [OF protocol_id_safe] ok_or_error_safe send_safe)
      (use j rk in \<open>auto simp: quiet_facts dest: amount setup_errors(2)\<close>)
qed

definition preparing :: "pegin_env \<Rightarrow> pegin_flow \<Rightarrow> bool" where
  "preparing env f \<longleftrightarrow> flow_inv env f \<and> fc_step (ctx f) = S_PreparePeginSetup"

lemma safe_preparing:
  assumes "ij.safe env m f" and "preparing env f"
  shows "wp m (\<lambda>_. preparing env) (\<lambda>e g. preparing env g \<and> \<not> lacks_data e) f"
  using safe_inv [OF assms(1)] assms(2) unfolding preparing_def
  by (elim conjE) (auto elim!: wp_mono)

lemma preparing_facts:
  assumes "preparing env f"
  shows "ij.journaled env (pf_trace f)" "request_known env (ctx f)" "fc_request_pegin_spv_proof (ctx f) \<noteq> None"
    "\<exists>mine. fc_my_p2p_address (ctx f) = Some mine" "role_known env (ctx f)"
  using assms by (auto simp: preparing_def flow_inv_def ctx_inv_def holds_at_def)

lemma calc_op_role_wp:
  "fc_committee_output (ctx f) = Some co \<Longrightarrow>
     wp (calc_op_role env) Q E f \<longleftrightarrow>
     (case find (\<lambda>m. cm_member_address m = pe_my_address env) (co_members co) of
        None \<Rightarrow> E AddressNotInCommittee f
      | Some m \<Rightarrow> (case participant_role_try_from (cm_role m) of
                     None \<Rightarrow> E (InvalidMemberRole (cm_role m)) f | Some r \<Rightarrow> Q r f))"
  by (simp add: calc_op_role_def wp_simps split: option.splits)

lemma preparing_committee:
  assumes "preparing env f" and "fc_op_role (ctx f) = None"
  shows "preparing env (map_ctx (\<lambda>c. c \<lparr> fc_committee_output := Some co \<rparr>) f)"
    and "find (\<lambda>m. cm_member_address m = pe_my_address env) (co_members co) = Some m \<Longrightarrow>
         preparing env (map_ctx (\<lambda>c. c \<lparr> fc_op_role := Some r \<rparr>) (map_ctx (\<lambda>c. c \<lparr> fc_committee_output := Some co \<rparr>) f))"
  using assms by (auto simp: preparing_def flow_inv_def ctx_inv_def holds_at_def role_known_def request_known_def)

lemma preparing_trace:
  "preparing env f \<Longrightarrow> justified env (set (pf_trace f)) x \<Longrightarrow> preparing env (f \<lparr> pf_trace := pf_trace f @ [x] \<rparr>)"
  by (simp add: preparing_def flow_inv_def)

lemma request_to_bitvmx_preparing:
  assumes "preparing env f" and "fc_op_role (ctx f) = None"
  shows "wp (send_pegin_request_to_bitvmx env cid) (\<lambda>_. preparing env) (\<lambda>e g. preparing env g \<and> \<not> lacks_data e) f"
proof -
  let ?g = "f \<lparr> pf_trace := pf_trace f @ [AskedCommittee cid] \<rparr>"
  have g: "preparing env ?g" using assms(1) by (rule preparing_trace) simp
  have rest: "wp (send_request_message env co)
     (\<lambda>_. preparing env) (\<lambda>e g. preparing env g \<and> \<not> lacks_data e) h" if "preparing env h" for h co
    by (rule safe_preparing [OF request_message_safe that]) (use that in \<open>simp_all add: preparing_facts\<close>)
  show ?thesis
    unfolding send_pegin_request_to_bitvmx_def get_committee_output_def
    using preparing_committee [OF g] assms(2) g
    by (simp add: wp_simps Let_def calc_op_role_wp rest split: sum.splits option.splits)
qed

lemma prepare_preparing:
  assumes "preparing env f" and "fc_op_role (ctx f) = None"
  shows "wp (prepare_pegin_setup env) (\<lambda>_. preparing env) (\<lambda>e g. preparing env g \<and> \<not> lacks_data e) f"
proof -
  obtain r where r: "fc_pegin_requested (ctx f) = Some r"
    using preparing_facts(2) [OF assms(1)] by (auto simp: request_known_def)
  have later: "wp (send_setup_to_bitvmx env cid) (\<lambda>_. preparing env) (\<lambda>e g. preparing env g \<and> \<not> lacks_data e) g"
    if "preparing env g" for g cid
    using preparing_facts [OF that] setup_message_safe that by (blast intro: safe_preparing)
  have "wp (send_pegin_request_to_bitvmx env cid)
      (\<lambda>_. wp (send_setup_to_bitvmx env cid) (\<lambda>_. preparing env) (\<lambda>e g. preparing env g \<and> \<not> lacks_data e))
      (\<lambda>e g. preparing env g \<and> \<not> lacks_data e) f" for cid
    using request_to_bitvmx_preparing [OF assms] by (rule wp_mono) (auto intro: later)
  then show ?thesis by (simp add: prepare_pegin_setup_def wp_simps r)
qed

section \<open>Transitions\<close>

definition pegin_edges :: "(steps \<times> steps) set" where
  "pegin_edges =
     {(S_PeginTransactionFound, S_RequestPeginSpvProof),
      (S_RequestPeginSpvProof, S_WaitPeginRequested),
      (S_WaitPeginRequested, S_GetCommInfoAuthoritativeCheckpoint),
      (S_GetCommInfoAuthoritativeCheckpoint, S_PreparePeginSetup),
      (S_PreparePeginSetup, S_RequestOperatorTakeTransactionInfo),
      (S_PreparePeginSetup, S_WaitAllOperatorTakeTxidsAdded),
      (S_RequestOperatorTakeTransactionInfo, S_RequestOperatorWonTransactionInfo),
      (S_RequestOperatorWonTransactionInfo, S_AddOperatorTakeHash),
      (S_AddOperatorTakeHash, S_WaitAllOperatorTakeTxidsAdded),
      (S_WaitAllOperatorTakeTxidsAdded, S_WaitAcceptPeginSignaturesReadyAllConvergeCheckpoint),
      (S_WaitAcceptPeginSignaturesReadyAllConvergeCheckpoint, S_DispatchAcceptPeginTransactionAllConvergeCheckpoint),
      (S_DispatchAcceptPeginTransactionAllConvergeCheckpoint, S_ConfirmAcceptPeginTransaction),
      (S_ConfirmAcceptPeginTransaction, S_RequestAcceptPeginSpvProof),
      (S_RequestAcceptPeginSpvProof, S_AcceptPegin),
      (S_AcceptPegin, S_AcceptPegin),
      (S_DispatchAcceptPeginTransactionAllConvergeCheckpoint, S_Done),
      (S_ConfirmAcceptPeginTransaction, S_Done),
      (S_RequestAcceptPeginSpvProof, S_Done),
      (S_AcceptPegin, S_Done)}"

text \<open>The two errors of missing data that an untimely message can cause.\<close>

definition untimely :: "step_data \<Rightarrow> pegin_error \<Rightarrow> bool" where
  "untimely data e \<longleftrightarrow>
     (case data of
        D_RetryRequestPegin \<Rightarrow> e = SpvProofNotAvailable
      | D_BitvmxPeginAccepted m \<Rightarrow> e = OperatorRoleNotFound
      | _ \<Rightarrow> False)"

definition chosen :: "pegin_env \<Rightarrow> pegin_flow \<Rightarrow> steps \<Rightarrow> pegin_flow \<Rightarrow> bool" where
  "chosen env f s g \<longleftrightarrow> ready env s g \<and> fc_step (ctx g) = fc_step (ctx f) \<and> (fc_step (ctx f), s) \<in> pegin_edges"

definition refused :: "pegin_env \<Rightarrow> pegin_flow \<Rightarrow> step_data \<Rightarrow> pegin_error \<Rightarrow> pegin_flow \<Rightarrow> bool" where
  "refused env f data e g \<longleftrightarrow>
     flow_inv env g \<and> fc_step (ctx g) = fc_step (ctx f) \<and> (lacks_data e \<longrightarrow> untimely data e)"

lemmas chosen_defs = chosen_def ready_def pegin_edges_def
lemmas context_defs = flow_inv_def ctx_inv_def holds_at_def role_known_def request_known_def

lemma refused_invalid: "flow_inv env f \<Longrightarrow> refused env f data (InvalidStateTransition s data') f"
  by (simp add: refused_def)

lemma chosen_request_proof:
  assumes "flow_inv env f" and "fc_step (ctx f) = S_RequestPeginSpvProof"
  shows "wp (process_request_spv_proof env proof) (chosen env f) (refused env f (D_RequestPeginSpvProof proof)) f"
proof -
  let ?g = "map_ctx (\<lambda>c. c \<lparr> fc_request_pegin_spv_proof := Some proof \<rparr>) f"
  have g: "flow_inv env ?g" "fc_step (ctx ?g) = S_RequestPeginSpvProof"
    using assms by (simp_all add: context_defs)
  have persisted: "wp (persist_state env) (\<lambda>_ h. flow_inv env h \<and> ctx h = ctx ?g)
      (\<lambda>e h. flow_inv env h \<and> ctx h = ctx ?g \<and> \<not> lacks_data e) ?g"
    by (rule safe_inv [OF persist_safe]) (use g in \<open>auto simp: flow_inv_def\<close>)
  have called: "wp (request_pegin env proof) (\<lambda>_ k. flow_inv env k \<and> ctx k = ctx h)
      (\<lambda>e k. flow_inv env k \<and> ctx k = ctx h \<and> \<not> lacks_data e) h" if "flow_inv env h" for h
    by (rule safe_inv [OF request_pegin_safe that]) (use that in \<open>simp add: flow_inv_def\<close>)
  have "wp (persist_state env) (\<lambda>_. wp (request_pegin env proof) (\<lambda>_. chosen env f S_WaitPeginRequested)
      (refused env f (D_RequestPeginSpvProof proof))) (refused env f (D_RequestPeginSpvProof proof)) ?g"
    using persisted
  proof (rule wp_mono)
    fix h
    assume h: "flow_inv env h \<and> ctx h = ctx ?g"
    have "wp (request_pegin env proof) (\<lambda>_ k. flow_inv env k \<and> ctx k = ctx h)
      (\<lambda>e k. flow_inv env k \<and> ctx k = ctx h \<and> \<not> lacks_data e) h"
      by (rule called) (use h in simp)
    then show "wp (request_pegin env proof) (\<lambda>_. chosen env f S_WaitPeginRequested)
        (refused env f (D_RequestPeginSpvProof proof)) h"
      by (rule wp_mono) (use h g assms in \<open>auto simp: chosen_defs refused_def context_defs\<close>)
  qed (use g assms in \<open>auto simp: refused_def\<close>)
  then show ?thesis by (simp add: process_request_spv_proof_def wp_simps)
qed

lemma chosen_retry:
  assumes "flow_inv env f" and "fc_step (ctx f) = S_RequestPeginSpvProof"
  shows "wp (retry_request_pegin_step env) (chosen env f) (refused env f D_RetryRequestPegin) f"
proof (cases "fc_request_pegin_spv_proof (ctx f)")
  case None
  then show ?thesis using assms by (simp add: retry_request_pegin_step_def wp_simps refused_def untimely_def)
next
  case (Some p)
  have "wp (request_pegin env p) (\<lambda>_ k. flow_inv env k \<and> ctx k = ctx f)
      (\<lambda>e k. flow_inv env k \<and> ctx k = ctx f \<and> \<not> lacks_data e) f"
    by (rule safe_inv [OF request_pegin_safe assms(1)]) (use assms in \<open>simp add: flow_inv_def\<close>)
  then have "wp (request_pegin env p) (\<lambda>_. chosen env f S_WaitPeginRequested)
      (refused env f D_RetryRequestPegin) f"
    by (rule wp_mono) (use Some assms in \<open>auto simp: chosen_defs refused_def context_defs\<close>)
  with Some show ?thesis by (simp add: retry_request_pegin_step_def wp_simps)
qed

lemma chosen_accepted:
  assumes "flow_inv env f" and "fc_step (ctx f) = S_PreparePeginSetup"
  shows "wp (process_bitvmx_accepted m) (chosen env f) (refused env f (D_BitvmxPeginAccepted m)) f"
  using assms
  by (auto simp: process_bitvmx_accepted_def try_get_op_role_def wp_simps chosen_defs refused_def untimely_def
      context_defs split: option.splits)

lemma index_wp:
  assumes "role_known env (ctx f)" and "fc_op_role (ctx f) \<noteq> None"
  obtains i where "\<And>Q E. wp (my_committee_index env) Q E f = Q i f"
proof -
  obtain co m where co: "fc_committee_output (ctx f) = Some co"
      and m: "find (\<lambda>m. cm_member_address m = pe_my_address env) (co_members co) = Some m"
    using assms by (auto simp: role_known_def split: option.splits)
  obtain i where "position (\<lambda>m. cm_member_address m = pe_my_address env) (co_members co) = Some i"
    using position_find [OF m] by blast
  with co have "wp (my_committee_index env) Q E f = Q i f" for Q E
    by (simp add: my_committee_index_def wp_simps)
  then show ?thesis by (rule that)
qed

lemma chosen_take_info:
  assumes "flow_inv env f" and "fc_step (ctx f) = S_RequestOperatorTakeTransactionInfo"
  shows "wp (handle_operator_take_transaction_info env n t) (chosen env f) (refused env f (D_TransactionInfo n t)) f"
proof -
  obtain i where i: "\<And>Q E. wp (my_committee_index env) Q E f = Q i f"
    by (rule index_wp) (use assms in \<open>auto simp: flow_inv_def ctx_inv_def holds_at_def\<close>)
  show ?thesis
    using assms
    by (auto simp: handle_operator_take_transaction_info_def operator_take_transaction_name_def wp_simps i
        chosen_defs refused_def context_defs)
qed

lemma chosen_won_info:
  assumes "flow_inv env f" and "fc_step (ctx f) = S_RequestOperatorWonTransactionInfo"
  shows "wp (handle_operator_won_transaction_info env n t) (chosen env f) (refused env f (D_TransactionInfo n t)) f"
proof -
  obtain i where i: "\<And>Q E. wp (my_committee_index env) Q E f = Q i f"
    by (rule index_wp) (use assms in \<open>auto simp: flow_inv_def ctx_inv_def holds_at_def\<close>)
  show ?thesis
    using assms
    by (auto simp: handle_operator_won_transaction_info_def operator_won_transaction_name_def wp_simps i
        chosen_defs refused_def context_defs)
qed

lemma chosen_confirmed:
  assumes "flow_inv env f" and "fc_step (ctx f) = S_ConfirmAcceptPeginTransaction"
  shows "wp (confirm_accept_pegin_transaction t) (chosen env f) (refused env f (D_AcceptPeginTransactionConfirmed t)) f"
proof -
  obtain m where "fc_bitvmx_pegin_accepted (ctx f) = Some m"
    using assms by (auto simp: flow_inv_def ctx_inv_def holds_at_def)
  with assms show ?thesis
    by (auto simp: confirm_accept_pegin_transaction_def wp_simps get_accept_pegin_txid_from_bitvmx_var_def
        chosen_defs refused_def context_defs confirmation_matches_def)
qed

lemma holds_at_done:
  assumes "holds_at env c s" and "6 \<le> stage s" and "fc_bitvmx_pegin_accepted c = Some m"
    and "fb_32_to_txid (pd_accept_pegin_txid a) = pm_accept_pegin_txid m"
  shows "holds_at env (c \<lparr> fc_pegin_accepted := Some a \<rparr>) S_Done"
proof -
  have "role_known env (c \<lparr> fc_pegin_accepted := Some a \<rparr>) = role_known env c"
    "request_known env (c \<lparr> fc_pegin_accepted := Some a \<rparr>) = request_known env c"
    by (simp_all add: role_known_def request_known_def split: option.splits)
  with assms show ?thesis by (simp add: holds_at_def acceptance_matches_def)
qed

lemma chosen_finished:
  assumes "flow_inv env f" and "allows_fast_forward_to_pegin_accepted (fc_step (ctx f))"
  shows "wp (complete_with_confirmed_pegin_acceptance a) (chosen env f) (refused env f (D_PeginAccepted a)) f"
proof -
  have late: "6 \<le> stage (fc_step (ctx f))"
    using assms(2) by (auto simp: allows_fast_forward_to_pegin_accepted_def)
  then obtain m where m: "fc_bitvmx_pegin_accepted (ctx f) = Some m"
    using assms(1) by (auto simp: flow_inv_def ctx_inv_def holds_at_def)
  have "(fc_step (ctx f), S_Done) \<in> pegin_edges"
    using assms(2) by (auto simp: allows_fast_forward_to_pegin_accepted_def pegin_edges_def)
  moreover have "ready env S_Done (map_ctx (\<lambda>c. c \<lparr> fc_pegin_accepted := Some a \<rparr>) f)"
    if "fb_32_to_txid (pd_accept_pegin_txid a) = pm_accept_pegin_txid m"
    using holds_at_done [OF _ late m that] assms(1) by (simp add: ready_def flow_inv_def ctx_inv_def)
  ultimately show ?thesis
    using assms(1) m
    by (simp add: complete_with_confirmed_pegin_acceptance_def wp_simps get_accept_pegin_txid_from_bitvmx_var_def
        chosen_def refused_def)
qed

lemma chosen_requested:
  assumes "flow_inv env f" and "fc_step (ctx f) = S_WaitPeginRequested"
  shows "wp (process_pegin_requested env r) (chosen env f) (refused env f (D_PeginRequested r)) f"
  using assms by (auto simp: process_pegin_requested_def wp_simps chosen_defs context_defs)

lemma chosen_plain:
  assumes "flow_inv env f" and "fc_step (ctx f) = s"
  shows "s = S_PeginTransactionFound \<Longrightarrow> chosen env f S_RequestPeginSpvProof f"
    "s = S_AddOperatorTakeHash \<Longrightarrow> chosen env f S_WaitAllOperatorTakeTxidsAdded f"
    "s = S_WaitAllOperatorTakeTxidsAdded \<Longrightarrow> chosen env f S_WaitAcceptPeginSignaturesReadyAllConvergeCheckpoint f"
    "s = S_WaitAcceptPeginSignaturesReadyAllConvergeCheckpoint \<Longrightarrow>
       chosen env f S_DispatchAcceptPeginTransactionAllConvergeCheckpoint f"
    "s = S_DispatchAcceptPeginTransactionAllConvergeCheckpoint \<Longrightarrow> chosen env f S_ConfirmAcceptPeginTransaction f"
    "s = S_AcceptPegin \<Longrightarrow> chosen env f S_AcceptPegin f"
  using assms by (simp_all add: chosen_defs flow_inv_def ctx_inv_def holds_at_def)

lemma chosen_comm_info:
  assumes "flow_inv env f" and "fc_step (ctx f) = S_GetCommInfoAuthoritativeCheckpoint"
  shows "chosen env f S_PreparePeginSetup (map_ctx (\<lambda>c. c \<lparr> fc_my_p2p_address := Some a \<rparr>) f)"
  using assms by (simp add: chosen_defs context_defs)

lemma chosen_accept_proof:
  assumes "flow_inv env f" and "fc_step (ctx f) = S_RequestAcceptPeginSpvProof"
  shows "chosen env f S_AcceptPegin (map_ctx (\<lambda>c. c \<lparr> fc_accept_pegin_spv_proof := Some p \<rparr>) f)"
  using assms by (simp add: chosen_defs context_defs confirmation_matches_def)

lemma process_chosen:
  assumes inv: "flow_inv env f"
  shows "wp (process_step_data env (fc_step (ctx f)) data) (chosen env f) (refused env f data) f"
  unfolding process_step_data_def Let_def
  by (cases data)
    (simp_all add: refused_invalid [OF inv] chosen_request_proof [OF inv] chosen_retry [OF inv] chosen_accepted [OF inv]
      chosen_take_info [OF inv] chosen_won_info [OF inv] chosen_confirmed [OF inv] chosen_finished [OF inv]
      chosen_requested [OF inv] chosen_plain [OF inv] chosen_comm_info [OF inv] chosen_accept_proof [OF inv] wp_basic wp_seq)

section \<open>Entering a step\<close>

definition at_step :: "pegin_env \<Rightarrow> steps \<Rightarrow> pegin_flow \<Rightarrow> bool" where
  "at_step env s f \<longleftrightarrow> flow_inv env f \<and> fc_step (ctx f) = s"

lemma preparing_at: "preparing env = at_step env S_PreparePeginSetup"
  by (simp add: fun_eq_iff preparing_def at_step_def)

lemma at_step_journaled: "at_step env s f \<Longrightarrow> ij.journaled env (pf_trace f)"
  by (simp add: at_step_def flow_inv_def)

lemma at_step_holds: "at_step env s f \<Longrightarrow> holds_at env (ctx f) s"
  by (auto simp: at_step_def flow_inv_def ctx_inv_def)

lemma safe_at_step:
  assumes "ij.safe env m f" and "at_step env s f"
  shows "wp m (\<lambda>_. at_step env s) (\<lambda>e g. at_step env s g \<and> \<not> lacks_data e) f"
  using safe_inv [OF assms(1)] assms(2) unfolding at_step_def by (elim conjE) (auto elim!: wp_mono)

lemma ready_at_step: "ready env s f \<Longrightarrow> at_step env s (map_ctx (\<lambda>c. c \<lparr> fc_step := s \<rparr>) f)"
  by (simp add: ready_def at_step_def context_defs confirmation_matches_def acceptance_matches_def)

definition saved_now :: "pegin_flow \<Rightarrow> bool" where
  "saved_now f \<longleftrightarrow> (\<exists>st. Saved (ps_flow_id st) st True \<in> set (pf_trace f) \<and> ps_ctx st = ctx f)"

lemma persist_at_step:
  assumes "at_step env s f"
  shows "wp (persist_state env) (\<lambda>_ g. at_step env s g \<and> saved_now g \<and> ctx g = ctx f)
     (\<lambda>e g. at_step env s g \<and> \<not> lacks_data e) f"
  using assms by (auto simp: persist_state_def wp_simps Let_def at_step_def flow_inv_def saved_now_def ctx_def)

lemma finish_step:
  assumes "at_step env s f"
  shows "wp (fseq (persist_state env) (if s = S_Done then record_completion_metrics else fret ()))
     (\<lambda>_. at_step env s) (\<lambda>e g. at_step env s g \<and> \<not> lacks_data e) f"
  unfolding wp_seq
  using persist_at_step [OF assms]
  by (rule wp_mono) (auto simp: wp_simps at_step_def flow_inv_def saved_now_def)

lemma entry_simple:
  assumes at: "at_step env s f" and s: "s \<noteq> S_PeginTransactionFound" "s \<noteq> S_AddOperatorTakeHash"
      "s \<noteq> S_DispatchAcceptPeginTransactionAllConvergeCheckpoint"
    and prep: "s = S_PreparePeginSetup \<Longrightarrow> fc_op_role (ctx f) = None"
    and saved: "s = S_AcceptPegin \<Longrightarrow> saved_now f"
  shows "wp (entry_action env k s) (\<lambda>_. at_step env s) (\<lambda>e g. at_step env s g \<and> \<not> lacks_data e) f"
proof -
  note j = at_step_journaled [OF at] and h = at_step_holds [OF at]
  have idle: "ij.safe env (fret ()) f" using j by (simp add: ij.safe_def wp_simps)
  show ?thesis
  proof (cases s)
    case S_PreparePeginSetup
    then show ?thesis
      using prepare_preparing [of env f] at prep by (simp add: entry_action_def preparing_at)
  next
    case S_AcceptPegin
    obtain p where p: "fc_accept_pegin_spv_proof (ctx f) = Some p" using h S_AcceptPegin by (auto simp: holds_at_def)
    have "ij.safe env (accept_pegin env p) f"
      using saved [OF S_AcceptPegin] accept_pegin_safe [OF j] p at S_AcceptPegin
      by (auto simp: saved_now_def at_step_def)
    then show ?thesis using safe_at_step [OF _ at] S_AcceptPegin p by (simp add: entry_action_def wp_simps)
  next
    case S_Done
    have "ij.safe env (fseq (send_pegin_accepted_to_bitvmx env) (write_completion_marker env)) f"
      using h S_Done j
      by (intro ij.safe_seq notify_safe marker_safe) (auto simp: holds_at_def acceptance_matches_def quiet_facts)
    then show ?thesis using safe_at_step [OF _ at] S_Done by (simp add: entry_action_def)
  qed (use s h j safe_at_step [OF _ at] requests_safe [OF j] idle take_info_safe [OF j] won_info_safe [OF j]
        spv_request_safe [OF j] in \<open>simp_all add: entry_action_def holds_at_def\<close>)
qed

definition entered :: "pegin_env \<Rightarrow> steps \<Rightarrow> pegin_flow \<Rightarrow> bool" where
  "entered env s g \<longleftrightarrow> at_step env s g \<or>
     s = S_AddOperatorTakeHash \<and> at_step env S_WaitAllOperatorTakeTxidsAdded g \<or>
     s = S_DispatchAcceptPeginTransactionAllConvergeCheckpoint \<and> at_step env S_ConfirmAcceptPeginTransaction g"

lemma finish_entered:
  assumes "at_step env s f"
  shows "wp (fbind (fget (\<lambda>f. fc_step (ctx f))) (\<lambda>step.
        if step = s then fseq (persist_state env) (if s = S_Done then record_completion_metrics else fret ()) else fret ()))
     (\<lambda>_. at_step env s) (\<lambda>e g. at_step env s g \<and> \<not> lacks_data e) f"
proof -
  have "fc_step (ctx f) = s" using assms by (simp add: at_step_def)
  with finish_step [OF assms] show ?thesis by (simp only: wp_bind wp_basic simp_thms if_True)
qed

lemma start_simple:
  assumes r: "ready env s f" and s: "s \<noteq> S_AddOperatorTakeHash" "s \<noteq> S_DispatchAcceptPeginTransactionAllConvergeCheckpoint"
  shows "wp (start_step_at (Suc n) env s) (\<lambda>_. at_step env s) (\<lambda>e g. at_step env s g \<and> \<not> lacks_data e) f"
proof -
  let ?E = "\<lambda>e g. at_step env s g \<and> \<not> lacks_data e"
  let ?g = "map_ctx (\<lambda>c. c \<lparr> fc_step := s \<rparr>) f"
  have g: "at_step env s ?g" using r by (rule ready_at_step)
  have saved: "wp (if s = S_AcceptPegin then persist_state env else fret ())
      (\<lambda>_ h. at_step env s h \<and> (s = S_AcceptPegin \<longrightarrow> saved_now h) \<and> ctx h = ctx ?g) ?E ?g"
  proof (cases "s = S_AcceptPegin")
    case True
    with persist_at_step [OF g] show ?thesis by simp
  next
    case False
    with g show ?thesis by (simp add: wp_simps)
  qed
  have "wp (if s = S_AcceptPegin then persist_state env else fret ())
      (\<lambda>_. wp (entry_action env k s) (\<lambda>_. wp (fbind (fget (\<lambda>f. fc_step (ctx f))) (\<lambda>step.
        if step = s then fseq (persist_state env) (if s = S_Done then record_completion_metrics else fret ()) else fret ()))
         (\<lambda>_. at_step env s) ?E) ?E) ?E ?g" for k
    using saved
  proof (rule wp_mono)
    fix h
    assume h: "at_step env s h \<and> (s = S_AcceptPegin \<longrightarrow> saved_now h) \<and> ctx h = ctx ?g"
    have "wp (entry_action env k s) (\<lambda>_. at_step env s) ?E h"
      by (rule entry_simple) (use h s r in \<open>auto simp: ready_def\<close>)
    then show "wp (entry_action env k s) (\<lambda>_. wp (fbind (fget (\<lambda>f. fc_step (ctx f))) (\<lambda>step.
        if step = s then fseq (persist_state env) (if s = S_Done then record_completion_metrics else fret ()) else fret ()))
         (\<lambda>_. at_step env s) ?E) ?E h"
      using finish_entered by (rule wp_mono)
  qed auto
  then show ?thesis by (simp only: start_step_at.simps wp_seq wp_basic)
qed

text \<open>The two steps that are completed at once.\<close>

definition synchronous :: "(steps \<times> step_data \<times> steps) set" where
  "synchronous =
     {(S_AddOperatorTakeHash, D_OperatorTakeHashAdded, S_WaitAllOperatorTakeTxidsAdded),
      (S_DispatchAcceptPeginTransactionAllConvergeCheckpoint, D_AcceptPeginTransactionDispatched,
       S_ConfirmAcceptPeginTransaction)}"

definition sync_action :: "pegin_env \<Rightarrow> steps \<Rightarrow> unit pegin_op" where
  "sync_action env s = (if s = S_AddOperatorTakeHash then add_operator_take_hash env else dispatch_transaction env)"

lemma sync_action_safe:
  assumes "(s, d, t) \<in> synchronous" and "at_step env s f"
  shows "ij.safe env (sync_action env s) f"
proof -
  note j = at_step_journaled [OF assms(2)] and h = at_step_holds [OF assms(2)]
  consider (add) "s = S_AddOperatorTakeHash" | (dispatch) "s = S_DispatchAcceptPeginTransactionAllConvergeCheckpoint"
    using assms(1) by (auto simp: synchronous_def)
  then show ?thesis
  proof cases
    case add
    then show ?thesis
      using add_hash_safe [OF j, of Prover] h by (simp add: sync_action_def holds_at_def)
  next
    case dispatch
    then show ?thesis using dispatch_safe [OF j] h by (simp add: sync_action_def holds_at_def)
  qed
qed

lemma entry_sync: "(s, d, t) \<in> synchronous \<Longrightarrow> entry_action env k s = fseq (sync_action env s) (k d)"
  by (auto simp: synchronous_def entry_action_def sync_action_def)

lemma process_sync: "(s, d, t) \<in> synchronous \<Longrightarrow> process_step_data env s d = fret t"
  by (auto simp: synchronous_def process_step_data_def)

lemma start_sync:
  assumes r: "ready env s f" and sync: "(s, d, t) \<in> synchronous"
  shows "wp (start_step_at (Suc (Suc n)) env s) (\<lambda>_. entered env s) (\<lambda>e g. entered env s g \<and> \<not> lacks_data e) f"
proof -
  let ?E = "\<lambda>e g. entered env s g \<and> \<not> lacks_data e"
  let ?g = "map_ctx (\<lambda>c. c \<lparr> fc_step := s \<rparr>) f"
  have st: "s \<noteq> S_AcceptPegin" "s \<noteq> t" "t \<noteq> S_AddOperatorTakeHash" "t \<noteq> S_DispatchAcceptPeginTransactionAllConvergeCheckpoint"
    using sync by (auto simp: synchronous_def)
  have g: "at_step env s ?g" using r by (rule ready_at_step)
  have after: "wp (start_step_at (Suc n) env t) (\<lambda>_. at_step env t) (\<lambda>e g. at_step env t g \<and> \<not> lacks_data e) h"
    if "at_step env s h" for h
  proof (rule start_simple)
    show "ready env t h"
      using that sync chosen_plain(2,5) [of env h s] by (auto simp: synchronous_def at_step_def chosen_def)
  qed (use st in auto)
  let ?tail = "fbind (fget (\<lambda>f. fc_step (ctx f))) (\<lambda>step.
        if step = s then fseq (persist_state env) (if s = S_Done then record_completion_metrics else fret ()) else fret ())"
  let ?complete = "fbind (fget (\<lambda>f. fc_step (ctx f))) (\<lambda>current_step.
      fbind (process_step_data env current_step d) (start_step_at (Suc n) env))"
  have "wp (sync_action env s) (\<lambda>_. wp ?complete (\<lambda>_. wp ?tail (\<lambda>_. entered env s) ?E) ?E) ?E ?g"
    using safe_at_step [OF sync_action_safe [OF sync g] g]
  proof (rule wp_mono)
    fix h
    assume h: "at_step env s h"
    from after [OF h] have "wp (start_step_at (Suc n) env t) (\<lambda>_. wp ?tail (\<lambda>_. entered env s) ?E) ?E h"
      by (rule wp_mono) (use sync st in \<open>auto simp: synchronous_def entered_def at_step_def wp_simps\<close>)
    with h show "wp ?complete (\<lambda>_. wp ?tail (\<lambda>_. entered env s) ?E) ?E h"
      by (simp add: at_step_def wp_bind wp_basic process_sync [OF sync])
  qed (auto simp: entered_def)
  then show ?thesis
    unfolding start_step_at.simps(2) [of "Suc n"] entry_sync [OF sync] wp_seq wp_basic
    using st(1) by (simp only: if_False wp_basic)
qed

lemma start_entered:
  assumes "ready env s f"
  shows "wp (start_step_at (Suc (Suc n)) env s) (\<lambda>_. entered env s) (\<lambda>e g. entered env s g \<and> \<not> lacks_data e) f"
proof (cases "\<exists>d t. (s, d, t) \<in> synchronous")
  case True
  then show ?thesis using start_sync [OF assms] by blast
next
  case False
  then have "s \<noteq> S_AddOperatorTakeHash" and "s \<noteq> S_DispatchAcceptPeginTransactionAllConvergeCheckpoint"
    by (auto simp: synchronous_def)
  from start_simple [OF assms this] show ?thesis by (rule wp_mono) (auto simp: entered_def)
qed

text \<open>The outcome of a message: the invariant, the moves made and the errors possible.\<close>

definition moved :: "pegin_env \<Rightarrow> pegin_flow \<Rightarrow> pegin_flow \<Rightarrow> bool" where
  "moved env f g \<longleftrightarrow> flow_inv env g \<and> (fc_step (ctx f), fc_step (ctx g)) \<in> pegin_edges\<^sup>*"

lemma entered_moved:
  assumes "(fc_step (ctx f), s) \<in> pegin_edges" and "entered env s g"
  shows "moved env f g"
proof -
  have "(s, fc_step (ctx g)) \<in> pegin_edges\<^sup>*"
    using assms(2) by (auto simp: entered_def at_step_def pegin_edges_def)
  with assms show ?thesis by (auto simp: moved_def entered_def at_step_def intro: converse_rtrancl_into_rtrancl)
qed

lemma complete_step_moved:
  assumes "flow_inv env f"
  shows "wp (complete_step env data) (\<lambda>_. moved env f) (\<lambda>e g. moved env f g \<and> (lacks_data e \<longrightarrow> untimely data e)) f"
proof -
  have "wp (process_step_data env (fc_step (ctx f)) data) (\<lambda>s. wp (start_step env s) (\<lambda>_. moved env f)
      (\<lambda>e g. moved env f g \<and> (lacks_data e \<longrightarrow> untimely data e)))
      (\<lambda>e g. moved env f g \<and> (lacks_data e \<longrightarrow> untimely data e)) f"
    using process_chosen [OF assms]
  proof (rule wp_mono)
    fix s g
    assume "chosen env f s g"
    then have r: "ready env s g" and edge: "(fc_step (ctx f), s) \<in> pegin_edges" by (auto simp: chosen_def)
    from start_entered [OF r, of 0] show "wp (start_step env s) (\<lambda>_. moved env f)
        (\<lambda>e g. moved env f g \<and> (lacks_data e \<longrightarrow> untimely data e)) g"
      unfolding start_step_def numeral_2_eq_2 by (rule wp_mono) (auto intro: entered_moved [OF edge])
  qed (auto simp: refused_def moved_def)
  then show ?thesis by (simp add: complete_step_def wp_simps)
qed

section \<open>Reachable flows\<close>

text \<open>What the store holds: the state of the last successful save.\<close>

fun last_saved_from :: "pegin_state option \<Rightarrow> pegin_trace \<Rightarrow> pegin_state option" where
  "last_saved_from acc [] = acc"
| "last_saved_from acc (Saved fid st True # t) = last_saved_from (Some st) t"
| "last_saved_from acc (_ # t) = last_saved_from acc t"

definition last_saved :: "pegin_trace \<Rightarrow> pegin_state option" where
  "last_saved t = last_saved_from None t"

text \<open>
  What can happen to a flow: a message, a status request of the scheduler, a failure declared by
  the administrator, and a restart from what the store holds.
\<close>

inductive reachable_pegin :: "pegin_env \<Rightarrow> pegin_flow \<Rightarrow> bool" for env where
  created: "reachable_pegin env (pegin_flow_new env t (flow_id_from_request_pegin_txid env t) now [])"
| message: "reachable_pegin env f \<Longrightarrow> reachable_pegin env (snd (complete_step env data f))"
| status: "reachable_pegin env f \<Longrightarrow> fc_step (ctx f) = S_ConfirmAcceptPeginTransaction \<Longrightarrow>
    reachable_pegin env (snd (request_transaction_status env f))"
| failed: "reachable_pegin env f \<Longrightarrow> reachable_pegin env (snd (mark_failed env f))"
| restart: "reachable_pegin env f \<Longrightarrow> last_saved (pf_trace f) = Some st \<Longrightarrow>
    reachable_pegin env (from_saved_state env st (pf_trace f))"

lemma last_saved_from_in: "last_saved_from acc t = Some st \<Longrightarrow> acc = Some st \<or> (\<exists>fid. Saved fid st True \<in> set t)"
  by (induction acc t rule: last_saved_from.induct) auto

lemma last_saved_in: "last_saved t = Some st \<Longrightarrow> \<exists>fid. Saved fid st True \<in> set t"
  unfolding last_saved_def using last_saved_from_in by blast

lemma reachable_inv: "reachable_pegin env f \<Longrightarrow> flow_inv env f"
proof (induction rule: reachable_pegin.induct)
  case (created t now)
  show ?case by (simp add: pegin_flow_new_def Let_def context_defs ctx_def)
next
  case (message f data)
  from complete_step_moved [OF message.IH] have "wp (complete_step env data) (\<lambda>_. flow_inv env) (\<lambda>_. flow_inv env) f"
    by (rule wp_mono) (auto simp: moved_def)
  then show ?case by (simp add: wp_state)
next
  case (status f)
  have "ij.safe env (request_transaction_status env) f"
    by (rule status_request_safe) (use status in \<open>auto simp: flow_inv_def ctx_inv_def holds_at_def\<close>)
  from safe_inv [OF this status.IH] have "wp (request_transaction_status env) (\<lambda>_. flow_inv env) (\<lambda>_. flow_inv env) f"
    by (rule wp_mono) auto
  then show ?case by (simp add: wp_state)
next
  case (failed f)
  have "ready env S_Failed f" using failed.IH by (simp add: ready_def context_defs)
  from start_entered [OF this, of 0] have "wp (mark_failed env) (\<lambda>_. flow_inv env) (\<lambda>_. flow_inv env) f"
    unfolding mark_failed_def start_step_def numeral_2_eq_2 by (rule wp_mono) (auto simp: entered_def at_step_def)
  then show ?case by (simp add: wp_state)
next
  case (restart f st)
  then obtain fid where "Saved fid st True \<in> set (pf_trace f)" using last_saved_in by blast
  then have "ctx_inv env (ps_ctx st)" using restart.IH ij.journaled_in by (fastforce simp: flow_inv_def)
  then show ?case using restart.IH by (simp add: from_saved_state_def flow_inv_def ctx_def)
qed

end
