(* ===== verification/Pegin_Guarantees.thy ===== *)
theory Pegin_Guarantees
  imports Pegin_Safety
begin

text \<open>
  The properties of the pegin state machine, and a run of a flow in a world where everything works,
  at which they are applied.
\<close>

section \<open>A pegin that succeeds\<close>

text \<open>A world in which everything works, for a committee whose only member is this one, a watchtower.\<close>

definition unset_slots :: slots where "unset_slots = replicate 8 0"

definition kind_env :: pegin_env where
  "kind_env = \<lparr>
     pe_ops = \<lparr> bridge_text = \<lparr> hex_decode = (\<lambda>s. None), hex_encode = (\<lambda>bs. ''''), u256_from_hex = (\<lambda>s. None),
                  btc_header_hash = (\<lambda>bs. None) \<rparr>,
                h256_from_str = (\<lambda>s. Inr 1), fb32_from_str = (\<lambda>s. Inr 2), u256_from_str = (\<lambda>s. Inr 3),
                compute_txid = (\<lambda>t. 4), local_usage = (\<lambda>m. m) \<rparr>,
     pe_net = tiny_net, pe_sha256 = (\<lambda>bs. 0), pe_show_uuid = (\<lambda>u. ''''),
     pe_parse_socket = (\<lambda>s. Some \<lparr> sa_ip = IpV4 1, sa_port = 1 \<rparr>), pe_show_socket = (\<lambda>a. ''a''),
     pe_to_checksum = (\<lambda>a. ''0x''), pe_public_key_from_slice = Some, pe_xonly_from_slice = Some,
     pe_even_public_key = (\<lambda>k. k), pe_request_json = (\<lambda>m. Some ''request''), pe_accepted_json = (\<lambda>m. Some ''accepted''),
     pe_verifier = DummyVerifier, pe_file_signals = True, pe_my_address = 7, pe_new_v4 = (\<lambda>t. 9),
     pe_save = (\<lambda>t s. True), pe_send = (\<lambda>t m. True), pe_signal = (\<lambda>t m. True),
     pe_get_committee = (\<lambda>t c. Inr \<lparr> co_members = [\<lparr> cm_member_address = 7, cm_role = 2 \<rparr>], co_aggregated_key = [] \<rparr>),
     pe_get_communication_data = (\<lambda>t c a. Inr [unset_slots]),
     pe_get_member_public_keys = (\<lambda>t a. Inr [''t'', ''d'', ''c'']),
     pe_get_btc_confirmations = (\<lambda>t i. Inr 6), pe_request_pegin = (\<lambda>t i. Inr ''tx''),
     pe_accept_pegin = (\<lambda>t i. Inr ''tx''), pe_add_operator_take = (\<lambda>t i. Inr ''tx'') \<rparr>"

definition kind_request :: pegin_requested where
  "kind_request = \<lparr> pr_committee_id = 1, pr_slot_id = 2, pr_request_pegin_txid = 3, pr_accept_pegin_txid = 0,
     pr_rsk_destination_address = 5, pr_btc_reimbursement_pub_key = [], pr_accept_pegin_signature_message = [] \<rparr>"

definition kind_accepted_message :: pegin_accepted_message where
  "kind_accepted_message = \<lparr> pm_committee_id = 1, pm_accept_pegin_txid = fb_32_to_txid 8, pm_accept_pegin_sighash = [],
     pm_accept_pegin_nonce = [], pm_accept_pegin_signature = [], pm_operator_take_sighash = None,
     pm_operator_won_sighash = None \<rparr>"

definition kind_status :: transaction_status where
  "kind_status = \<lparr> ts_tx_id = fb_32_to_txid 8, ts_tx = sp_tx sample_proof, ts_block_info = None, ts_confirmations = 6, ts_status = Finalized \<rparr>"

definition kind_acceptance :: pegin_accepted where
  "kind_acceptance = \<lparr> pd_accept_pegin_txid = 8, pd_rsk_destination_address = 5, pd_rbtc_amount = 1 \<rparr>"

definition kind_messages :: "step_data list" where
  "kind_messages = [D_PeginTransactionFound, D_RequestPeginSpvProof sample_proof, D_PeginRequested kind_request,
     D_CommInfo \<lparr> ca_address = \<lparr> sa_ip = IpV4 1, sa_port = 1 \<rparr>, ca_pubkey_hash = ''h'' \<rparr>,
     D_BitvmxPeginAccepted kind_accepted_message, D_AllOperatorTakeTxidsAdded, D_AcceptPeginSignaturesReady,
     D_AcceptPeginTransactionConfirmed kind_status, D_AcceptPeginSpvProof sample_proof]"

fun run_messages :: "pegin_env \<Rightarrow> step_data list \<Rightarrow> pegin_flow \<Rightarrow> pegin_flow" where
  "run_messages env [] f = f"
| "run_messages env (d # ds) f = run_messages env ds (snd (complete_step env d f))"

definition kind_flow :: pegin_flow where
  "kind_flow = pegin_flow_new kind_env 3 (flow_id_from_request_pegin_txid kind_env 3) 0 []"

lemma unset_address: "socket_addr_from_contracts net unset_slots = Inr None"
proof -
  have "fb_array_to_bytes (replicate 8 0) = Inr []" by code_simp
  then show ?thesis by (simp add: unset_slots_def socket_addr_from_contracts_def addr_from_contracts_def)
qed

lemma kind_works:
  "pe_save kind_env t st" "pe_send kind_env t m" "pe_signal kind_env t k"
  "pe_verifier kind_env = DummyVerifier" "pe_file_signals kind_env" "pe_my_address kind_env = 7"
  "pe_get_committee kind_env t c = Inr \<lparr> co_members = [\<lparr> cm_member_address = 7, cm_role = 2 \<rparr>], co_aggregated_key = [] \<rparr>"
  "pe_get_communication_data kind_env t c a = Inr [unset_slots]"
  "pe_get_member_public_keys kind_env t a = Inr [''t'', ''d'', ''c'']"
  "pe_request_pegin kind_env t i = Inr ''tx''" "pe_accept_pegin kind_env t i = Inr ''tx''"
  "pe_public_key_from_slice kind_env b = Some b" "pe_xonly_from_slice kind_env b = Some b"
  "pe_request_json kind_env r = Some ''request''" "pe_accepted_json kind_env a' = Some ''accepted''"
  "pe_to_checksum kind_env h = ''0x''"
  "pe_show_socket kind_env s = ''a''"
  "pe_parse_socket kind_env x = Some \<lparr> sa_ip = IpV4 1, sa_port = 1 \<rparr>"
  by (simp_all add: kind_env_def)

lemmas run_defs = complete_step_def start_step_def numeral_2_eq_2 process_step_data_def entry_action_def
  process_request_spv_proof_def request_pegin_def accept_pegin_def guarded_call_def invoke_contract_safe_def
  verify_confirmations_def persist_state_def perform_ok_def perform_contract_def perform_def
  request_pegin_spv_proof_def send_bitvmx_msg_def process_pegin_requested_def request_bitvmx_comm_info_def
  process_bitvmx_accepted_def try_get_op_role_def dispatch_transaction_def bitvmx_protocol_id_def
  confirm_accept_pegin_transaction_def get_accept_pegin_txid_from_bitvmx_var_def request_spv_proof_def
  ctx_def map_ctx_def Let_def fbind_def fseq_def fget_def fmod_def fret_def ffail_def fok_or_def ensure_def

lemmas setup_run_defs = prepare_pegin_setup_def send_pegin_request_to_bitvmx_def get_committee_output_def calc_op_role_def
  participant_role_try_from_def send_request_message_def lift_res_def extract_pegin_amount_def build_pegin_request_message_def
  build_take_aggregated_key_def build_reimbursement_pubkey_def send_setup_to_bitvmx_def get_committee_addresses_def
  get_committee_pubkey_hashes_def COMM_KEY_INDEX_def build_communication_data_def

lemma run_reachable: "reachable_pegin env f \<Longrightarrow> reachable_pegin env (run_messages env ds f)"
  by (induction ds arbitrary: f) (auto intro: message)

lemma kind_run:
  "CalledAcceptPegin (from_spv_proof (bridge_text (pe_ops kind_env)) sample_proof) (Inr ''tx'')
     \<in> set (pf_trace (run_messages kind_env kind_messages kind_flow))"
  by (simp add: kind_messages_def kind_flow_def pegin_flow_new_def run_defs setup_run_defs kind_works split_def
      unset_address kind_request_def sample_proof_def numeral_nat kind_accepted_message_def kind_status_def)

section \<open>Depth of the synchronous steps\<close>

lemma entry_independent:
  assumes "\<nexists>d t. (s, d, t) \<in> synchronous"
  shows "entry_action env k s = entry_action env k' s"
  using assms by (cases s) (auto simp: synchronous_def entry_action_def)

lemma start_depth_simple:
  assumes "\<nexists>d t. (s, d, t) \<in> synchronous"
  shows "start_step_at (Suc n) env s = start_step_at (Suc m) env s"
  unfolding start_step_at.simps by (subst entry_independent [OF assms]) (rule refl)

lemma sync_action_keeps: "keeps (\<lambda>f. fc_step (ctx f) = s) (sync_action env s')"
proof -
  have "keeps (\<lambda>f. fc_step (ctx f) = s) (perform_contract a c)" for a :: "pegin_trace \<Rightarrow> domain_errors + string" and c
    by (simp add: keeps_def perform_contract_def perform_def Let_def split_def)
  moreover have "keeps (\<lambda>f. fc_step (ctx f) = s) (perform_ok a c e)" for a c e
    by (simp add: keeps_def perform_ok_def perform_def Let_def split_def)
  ultimately show ?thesis
    unfolding sync_action_def add_operator_take_hash_def dispatch_transaction_def try_get_op_role_def
      bitvmx_protocol_id_def send_bitvmx_msg_def Let_def
    by (intro keeps_intros)
qed

lemma fseq_cong: "(\<And>x g. m f = (Inr x, g) \<Longrightarrow> k g = k' g) \<Longrightarrow> fseq m k f = fseq m k' f"
  by (auto simp: fseq_def fbind_def split: prod.splits sum.splits)

lemma start_depth_sync:
  assumes sync: "(s, d, t) \<in> synchronous"
  shows "start_step_at (Suc (Suc n)) env s f = start_step_at (Suc (Suc m)) env s f"
proof -
  define complete where "complete i = (\<lambda>data. fbind (fget (\<lambda>f. fc_step (ctx f))) (\<lambda>step.
     fbind (process_step_data env step data) (start_step_at (Suc i) env)))" for i
  have t: "\<nexists>d' u. (t, d', u) \<in> synchronous" and s: "s \<noteq> S_AcceptPegin"
    using sync by (auto simp: synchronous_def)
  have at_s: "complete i d g = start_step_at (Suc i) env t g" if "fc_step (ctx g) = s" for i g
    using that by (simp add: complete_def flow_simps process_sync [OF sync])
  have same: "fseq (entry_action env (complete i) s) k g = fseq (entry_action env (complete j) s) k g"
    if "fc_step (ctx g) = s" for i j k g
  proof -
    have "fseq (sync_action env s) (complete i d) g = fseq (sync_action env s) (complete j d) g"
    proof (rule fseq_cong)
      fix x h
      assume "sync_action env s g = (Inr x, h)"
      with keepsD [OF sync_action_keeps that, of env s] have "fc_step (ctx h) = s" by simp
      then show "complete i d h = complete j d h"
        using start_depth_simple [OF t, of i env j] by (simp add: at_s)
    qed
    then show ?thesis unfolding entry_sync [OF sync] by (simp add: fseq_def fbind_def)
  qed
  have "fseq (entry_action env (complete n) s) k (map_ctx (\<lambda>c. c \<lparr> fc_step := s \<rparr>) f)
      = fseq (entry_action env (complete m) s) k (map_ctx (\<lambda>c. c \<lparr> fc_step := s \<rparr>) f)" for k
    by (rule same) simp
  then show ?thesis
    unfolding start_step_at.simps(2) [of "Suc n"] start_step_at.simps(2) [of "Suc m"] complete_def
    by (simp only: fseq_run s if_False)
qed

section \<open>Properties\<close>

text \<open>
  C21. \<^verbatim>\<open>start_step\<close> and \<^verbatim>\<open>complete_step\<close> call each other at most twice in a row, whatever the
  state of the flow and the answers of its environment: allowing more nested calls changes nothing,
  and the bound is never what stops a reachable flow.
\<close>

theorem pegin_calls_end:
  "start_step_at (n + 2) env s f = start_step env s f"
proof (cases "\<exists>d t. (s, d, t) \<in> synchronous")
  case True
  then obtain d t where "(s, d, t) \<in> synchronous" by blast
  from start_depth_sync [OF this, of n env f 0] show ?thesis by (simp add: start_step_def numeral_2_eq_2)
next
  case False
  from start_depth_simple [OF False, of "Suc n" env "Suc 0"] show ?thesis
    by (simp add: start_step_def numeral_2_eq_2)
qed

text \<open>
  C8. In every reachable flow, restarts included, a call of \<^verbatim>\<open>acceptPegin\<close> comes after a successful
  save of the flow at the step that makes it, so that a crash during the call is retried; the proof
  it passes is the one saved, and the transaction BitVMX reported as confirmed is the accept-pegin
  transaction BitVMX announced.
\<close>

theorem pegin_accept_call_journaled:
  assumes "reachable_pegin env f" and "pf_trace f = before @ CalledAcceptPegin input r # after"
  shows "\<exists>st proof status m. Saved (ps_flow_id st) st True \<in> set before \<and>
     fc_step (ps_ctx st) = S_AcceptPegin \<and> fc_accept_pegin_spv_proof (ps_ctx st) = Some proof \<and>
     input = from_spv_proof (bridge_text (pe_ops env)) proof \<and>
     fc_accept_pegin_tx_status (ps_ctx st) = Some status \<and> fc_bitvmx_pegin_accepted (ps_ctx st) = Some m \<and>
     ts_tx_id status = pm_accept_pegin_txid m"
proof -
  have j: "ij.journaled env (pf_trace f)" using reachable_inv [OF assms(1)] by (rule flow_inv_journaled)
  then have "justified env (set before) (CalledAcceptPegin input r)"
    unfolding assms(2) by (rule ij.journaledD)
  then obtain st p where st: "Saved (ps_flow_id st) st True \<in> set before" "fc_step (ps_ctx st) = S_AcceptPegin"
      "fc_accept_pegin_spv_proof (ps_ctx st) = Some p" "input = from_spv_proof (bridge_text (pe_ops env)) p"
    by auto
  have "ctx_inv env (ps_ctx st)" using ij.journaled_in [OF j, of "Saved (ps_flow_id st) st True"] st(1) assms(2) by auto
  then have "confirmation_matches (ps_ctx st)" using st(2) by (simp add: ctx_inv_def holds_at_def)
  with st show ?thesis unfolding confirmation_matches_def by blast
qed

theorem pegin_accept_call_journaled_witness:
  "\<exists>f st input before after. reachable_pegin kind_env f \<and> pf_trace f = before @ CalledAcceptPegin input (Inr ''tx'') # after \<and>
     Saved (ps_flow_id st) st True \<in> set before \<and> fc_step (ps_ctx st) = S_AcceptPegin"
proof -
  let ?f = "run_messages kind_env kind_messages kind_flow"
  have r: "reachable_pegin kind_env ?f" unfolding kind_flow_def by (rule run_reachable) (rule created)
  obtain before after where t: "pf_trace ?f = before @
      CalledAcceptPegin (from_spv_proof (bridge_text (pe_ops kind_env)) sample_proof) (Inr ''tx'') # after"
    using kind_run by (blast dest: split_list)
  from pegin_accept_call_journaled [OF r t] obtain st
    where "Saved (ps_flow_id st) st True \<in> set before" "fc_step (ps_ctx st) = S_AcceptPegin" by blast
  with t r show ?thesis by blast
qed

text \<open>
  C9. A flow is done only when the accept-pegin transaction the contract reported is the one BitVMX
  announced for a program whose id belongs to the requested committee and slot; and a completion is
  counted only after a successful save of the flow as done.
\<close>

theorem pegin_completion_matches:
  assumes "reachable_pegin env f"
  shows "(fc_step (ctx f) = S_Done \<longrightarrow>
      (\<exists>a m r. fc_pegin_accepted (ctx f) = Some a \<and> fc_bitvmx_pegin_accepted (ctx f) = Some m \<and>
         fb_32_to_txid (pd_accept_pegin_txid a) = pm_accept_pegin_txid m \<and> fc_pegin_requested (ctx f) = Some r \<and>
         fc_bitvmx_protocol_id (ctx f) =
           Some (accept_pegin_protocol_id (pe_sha256 env) (pr_committee_id r) (pr_slot_id r)))) \<and>
    (\<forall>before amount after. pf_trace f = before @ CountedCompletion amount # after \<longrightarrow>
      (\<exists>st. Saved (ps_flow_id st) st True \<in> set before \<and> fc_step (ps_ctx st) = S_Done))"
proof (intro conjI impI allI)
  assume fin: "fc_step (ctx f) = S_Done"
  have "holds_at env (ctx f) S_Done"
    using reachable_inv [OF assms] fin by (simp add: flow_inv_def ctx_inv_def)
  then have "acceptance_matches (ctx f)" "request_known env (ctx f)" by (simp_all add: holds_at_def)
  then show "\<exists>a m r. fc_pegin_accepted (ctx f) = Some a \<and> fc_bitvmx_pegin_accepted (ctx f) = Some m \<and>
         fb_32_to_txid (pd_accept_pegin_txid a) = pm_accept_pegin_txid m \<and> fc_pegin_requested (ctx f) = Some r \<and>
         fc_bitvmx_protocol_id (ctx f) =
           Some (accept_pegin_protocol_id (pe_sha256 env) (pr_committee_id r) (pr_slot_id r))"
    unfolding acceptance_matches_def request_known_def by blast
next
  fix before amount after
  assume "pf_trace f = before @ CountedCompletion amount # after"
  with flow_inv_journaled [OF reachable_inv [OF assms]]
  have "justified env (set before) (CountedCompletion amount)" by (metis ij.journaledD)
  then show "\<exists>st. Saved (ps_flow_id st) st True \<in> set before \<and> fc_step (ps_ctx st) = S_Done" by simp
qed

lemma kind_completes:
  "fc_step (ctx (run_messages kind_env (kind_messages @ [D_PeginAccepted kind_acceptance]) kind_flow)) = S_Done"
  by (simp add: kind_messages_def kind_flow_def pegin_flow_new_def run_defs setup_run_defs kind_works split_def
      unset_address kind_request_def sample_proof_def numeral_nat kind_accepted_message_def kind_status_def
      send_pegin_accepted_to_bitvmx_def write_completion_marker_def signal_done_def record_completion_metrics_def
      kind_acceptance_def allows_fast_forward_to_pegin_accepted_def complete_with_confirmed_pegin_acceptance_def)

theorem pegin_completion_matches_witness:
  "\<exists>f a m. reachable_pegin kind_env f \<and> fc_step (ctx f) = S_Done \<and> fc_pegin_accepted (ctx f) = Some a \<and>
     fc_bitvmx_pegin_accepted (ctx f) = Some m \<and> fb_32_to_txid (pd_accept_pegin_txid a) = pm_accept_pegin_txid m"
proof -
  let ?f = "run_messages kind_env (kind_messages @ [D_PeginAccepted kind_acceptance]) kind_flow"
  have r: "reachable_pegin kind_env ?f" unfolding kind_flow_def by (rule run_reachable) (rule created)
  with pegin_completion_matches [OF r] kind_completes show ?thesis by blast
qed

text \<open>
  C18. No reachable flow ever misses data that its step relies on: an operation refuses for lack of
  data only for a retry of the peg-in request that arrives before its proof, or for a setup answer
  that arrives before the role of this member is known. Neither the unreachable initial entry nor
  the bound on nested calls is ever hit.
\<close>

theorem pegin_data_available:
  assumes "reachable_pegin env f" and "complete_step env data f = (Inl e, g)" and "lacks_data e"
  shows "data = D_RetryRequestPegin \<and> e = SpvProofNotAvailable \<or>
         (\<exists>m. data = D_BitvmxPeginAccepted m \<and> e = OperatorRoleNotFound)"
proof -
  from wp_errorD [OF complete_step_moved [OF reachable_inv [OF assms(1)]] assms(2)] assms(3)
  have "untimely data e" by blast
  then show ?thesis by (cases data) (auto simp: untimely_def)
qed

lemma kind_early_retry:
  "complete_step kind_env D_RetryRequestPegin (run_messages kind_env [D_PeginTransactionFound] kind_flow)
     = (Inl SpvProofNotAvailable, run_messages kind_env [D_PeginTransactionFound] kind_flow)"
  by (simp add: kind_flow_def pegin_flow_new_def run_defs kind_works split_def retry_request_pegin_step_def)

theorem pegin_data_available_witness:
  "\<exists>f g e. reachable_pegin kind_env f \<and> complete_step kind_env D_RetryRequestPegin f = (Inl e, g) \<and>
     lacks_data e \<and> e = SpvProofNotAvailable"
proof -
  let ?f = "run_messages kind_env [D_PeginTransactionFound] kind_flow"
  have r: "reachable_pegin kind_env ?f" unfolding kind_flow_def by (rule run_reachable) (rule created)
  have "lacks_data SpvProofNotAvailable" by simp
  with pegin_data_available [OF r kind_early_retry] r kind_early_retry show ?thesis by blast
qed

lemma wp_total: "wp m (\<lambda>_ _. True) (\<lambda>_ _. True) = (\<lambda>_. True)"
  by (simp add: fun_eq_iff wp_def split: prod.splits sum.splits)

lemma process_done:
  "wp (process_step_data env s data)
     (\<lambda>t _. t = S_Done \<longrightarrow> (\<exists>a. data = D_PeginAccepted a) \<and> allows_fast_forward_to_pegin_accepted s) (\<lambda>_ _. True) f"
  by (cases data)
    (simp_all add: process_step_data_def wp_simps wp_total process_request_spv_proof_def retry_request_pegin_step_def
      process_pegin_requested_def process_bitvmx_accepted_def handle_operator_take_transaction_info_def
      handle_operator_won_transaction_info_def confirm_accept_pegin_transaction_def
      complete_with_confirmed_pegin_acceptance_def try_get_op_role_def operator_take_transaction_name_def
      operator_won_transaction_name_def my_committee_index_def split: option.splits)

lemma done_only_by_acceptance:
  assumes inv: "flow_inv env f" and "fc_step (ctx f) \<noteq> S_Done"
    and "fc_step (ctx (snd (complete_step env data f))) = S_Done"
  shows "(\<exists>a. data = D_PeginAccepted a) \<and> allows_fast_forward_to_pegin_accepted (fc_step (ctx f))" (is ?A)
proof -
  let ?P = "\<lambda>g. fc_step (ctx g) = S_Done \<longrightarrow> ?A"
  have "wp (process_step_data env (fc_step (ctx f)) data) (\<lambda>s. wp (start_step env s) (\<lambda>_. ?P) (\<lambda>_. ?P)) (\<lambda>_. ?P) f"
    using wp_conj [OF process_chosen [OF inv] process_done]
  proof (rule wp_mono)
    fix s g
    assume s: "chosen env f s g \<and> (s = S_Done \<longrightarrow> ?A)"
    then have "ready env s g" by (simp add: chosen_def)
    from start_entered [OF this, of 0] show "wp (start_step env s) (\<lambda>_. ?P) (\<lambda>_. ?P) g"
      unfolding start_step_def numeral_2_eq_2 by (rule wp_mono) (use s in \<open>auto simp: entered_def at_step_def\<close>)
  qed (use assms(2) in \<open>auto simp: refused_def\<close>)
  then have "wp (complete_step env data) (\<lambda>_. ?P) (\<lambda>_. ?P) f" by (simp add: complete_step_def wp_simps)
  with assms(3) show ?thesis by (simp add: wp_state)
qed



end
