(* ===== verification/Tx_Sender.thy ===== *)
theory Tx_Sender
  imports Bridge_Verifier
begin

text \<open>
  Sending a transaction with gas bumping
  (\<^verbatim>\<open>crates/transaction-dispatcher/src/contracts/common.rs\<close>). The provider of the chain is a
  parameter: each of its answers comes with the time it took and may depend on everything asked and
  sent before. The clock and the record of all exchanges are the state. Times are in nanoseconds, as
  \<^verbatim>\<open>Instant\<close> and \<^verbatim>\<open>Duration\<close> count them. A provider call without a timeout is taken to answer
  after some time; polling for a receipt is a loop that is not assumed to end.
\<close>

section \<open>Provider, clock and errors\<close>

type_synonym duration = nat

definition from_secs :: "nat \<Rightarrow> duration" where
  "from_secs n = n * 1000000000"

definition as_secs :: "duration \<Rightarrow> nat" where
  "as_secs d = d div 1000000000"

definition timeout_30sec :: duration where "timeout_30sec = from_secs 30"
definition timeout_1min :: duration where "timeout_1min = from_secs 60"
definition timeout_2min :: duration where "timeout_2min = from_secs 120"
definition timeout_5min :: duration where "timeout_5min = from_secs 300"

definition BASE_GAS_HEADROOM_PERCENT :: u64 where "BASE_GAS_HEADROOM_PERCENT = 120"
definition PER_ATTEMPT_BUMP_PERCENT :: u64 where "PER_ATTEMPT_BUMP_PERCENT = 110"
definition OOG_DETECTION_MARGIN_PERCENT :: u64 where "OOG_DETECTION_MARGIN_PERCENT = 5"
definition MAX_GAS_LIMIT :: u64 where "MAX_GAS_LIMIT = 5000000"
definition ETH_RPC_INTERNAL_ERROR :: int where "ETH_RPC_INTERNAL_ERROR = - 32603"
definition ETH_RPC_INVALID_PARAMS :: int where "ETH_RPC_INVALID_PARAMS = - 32602"
definition ETH_RPC_TIMEOUT :: int where "ETH_RPC_TIMEOUT = - 32002"

text \<open>The errors made here, and those that the provider returns.\<close>

datatype call_error = ErrorResp int string | ProviderError string

record transaction_receipt =
  rc_status :: bool
  rc_transaction_hash :: h256
  rc_gas_used :: u64

datatype tx_action =
    EstimatedGas "(call_error + u64) option"
  | AskedGasPrice "call_error + u128"
  | SentTransaction u64 u128 "(call_error + h256) option"
  | AskedReceipt h256 "call_error + transaction_receipt option"

type_synonym tx_trace = "tx_action list"

record provider =
  pv_show_hash :: "h256 \<Rightarrow> string"
  pv_estimate_gas :: "tx_trace \<Rightarrow> (call_error + u64) \<times> duration"
  pv_gas_price :: "tx_trace \<Rightarrow> (call_error + u128) \<times> duration"
  pv_send :: "tx_trace \<Rightarrow> u64 \<Rightarrow> u128 \<Rightarrow> (call_error + h256) \<times> duration"
  pv_receipt :: "tx_trace \<Rightarrow> h256 \<Rightarrow> (call_error + transaction_receipt option) \<times> duration"
  pv_oversleep :: "tx_trace \<Rightarrow> duration"

record sender =
  sn_now :: duration
  sn_trace :: tx_trace

type_synonym 'a sender_op = "sender \<Rightarrow> (call_error + 'a) \<times> sender"

text \<open>An awaited call, and one under \<^verbatim>\<open>tokio::time::timeout\<close>, whose answer is lost when it is late.\<close>

definition await_call :: "(tx_trace \<Rightarrow> (call_error + 'a) \<times> duration) \<Rightarrow> (call_error + 'a \<Rightarrow> tx_action) \<Rightarrow> 'a sender_op" where
  "await_call answer act s =
     (case answer (sn_trace s) of
        (r, d) \<Rightarrow> (r, \<lparr> sn_now = sn_now s + d, sn_trace = sn_trace s @ [act r] \<rparr>))"

definition await_timeout ::
  "duration \<Rightarrow> call_error \<Rightarrow> (tx_trace \<Rightarrow> (call_error + 'a) \<times> duration)
     \<Rightarrow> ((call_error + 'a) option \<Rightarrow> tx_action) \<Rightarrow> 'a sender_op" where
  "await_timeout limit late answer act s =
     (case answer (sn_trace s) of
        (r, d) \<Rightarrow>
          if d \<le> limit then (r, \<lparr> sn_now = sn_now s + d, sn_trace = sn_trace s @ [act (Some r)] \<rparr>)
          else (Inl late, \<lparr> sn_now = sn_now s + limit, sn_trace = sn_trace s @ [act None] \<rparr>))"

section \<open>Gas\<close>

definition bump :: "u64 \<Rightarrow> u64" where
  "bump g = saturating_mul g PER_ATTEMPT_BUMP_PERCENT div 100"

definition bumped_gas :: "u64 \<Rightarrow> u8 \<Rightarrow> u64" where
  "bumped_gas estimated attempt =
     (let base = saturating_mul estimated BASE_GAS_HEADROOM_PERCENT div 100;
          bumped = (bump ^^ unat attempt) base
      in max bumped estimated)"

definition calculate_gas_limit_with_cap :: "u64 \<Rightarrow> u8 \<Rightarrow> call_error + u64" where
  "calculate_gas_limit_with_cap estimated_gas attempt =
     (let gas_limit = bumped_gas estimated_gas attempt
      in if MAX_GAS_LIMIT < gas_limit
         then Inl (ErrorResp ETH_RPC_INVALID_PARAMS (''Maximum gas limit exceeded: '' @
                dec_of_nat (unat gas_limit) @ '' > '' @ dec_of_nat (unat MAX_GAS_LIMIT)))
         else Inr gas_limit)"

definition likely_oog :: "transaction_receipt \<Rightarrow> u64 \<Rightarrow> bool" where
  "likely_oog receipt gas_limit =
     (let oog_margin = saturating_mul gas_limit OOG_DETECTION_MARGIN_PERCENT div 100
      in \<not> rc_status receipt \<and> saturating_sub gas_limit oog_margin \<le> rc_gas_used receipt)"

definition new_transport_error :: "string \<Rightarrow> call_error" where
  "new_transport_error msg = ErrorResp ETH_RPC_INTERNAL_ERROR msg"

definition estimate_gas_with_timeout :: "provider \<Rightarrow> u64 sender_op" where
  "estimate_gas_with_timeout pv =
     await_timeout timeout_30sec
       (ErrorResp ETH_RPC_TIMEOUT (''Gas estimation timeout after '' @ dec_of_nat (as_secs timeout_30sec) @ ''s''))
       (pv_estimate_gas pv) EstimatedGas"

section \<open>Waiting for a receipt\<close>

text \<open>A task may also never return, which is the value \<^term>\<open>None\<close>.\<close>

type_synonym 'a sender_task = "sender \<Rightarrow> ((call_error + 'a) \<times> sender) option"

definition run_op :: "'a sender_op \<Rightarrow> 'a sender_task" where
  "run_op m s = Some (m s)"

definition task_bind :: "'a sender_task \<Rightarrow> ('a \<Rightarrow> 'b sender_task) \<Rightarrow> 'b sender_task" where
  "task_bind m k s =
     (case m s of None \<Rightarrow> None | Some (Inl e, t) \<Rightarrow> Some (Inl e, t) | Some (Inr x, t) \<Rightarrow> k x t)"

partial_function (option) wait_loop ::
  "provider \<Rightarrow> h256 \<Rightarrow> duration \<Rightarrow> duration \<Rightarrow> duration \<Rightarrow> transaction_receipt sender_task" where
  "wait_loop pv tx_hash poll_interval max_wait start s =
     (if max_wait < sn_now s - start
      then Some (Inl (new_transport_error (''Receipt timeout after '' @ dec_of_nat (as_secs max_wait) @
             ''s for tx '' @ pv_show_hash pv tx_hash)), s)
      else case await_call (\<lambda>t. pv_receipt pv t tx_hash) (AskedReceipt tx_hash) s of
             (Inl e, t) \<Rightarrow> Some (Inl e, t)
           | (Inr (Some receipt), t) \<Rightarrow> Some (Inr receipt, t)
           | (Inr None, t) \<Rightarrow>
               wait_loop pv tx_hash poll_interval max_wait start
                 (t \<lparr> sn_now := sn_now t + poll_interval + pv_oversleep pv (sn_trace t) \<rparr>))"

definition wait_for_receipt :: "provider \<Rightarrow> h256 \<Rightarrow> duration \<Rightarrow> duration \<Rightarrow> transaction_receipt sender_task" where
  "wait_for_receipt pv tx_hash poll_interval max_wait s =
     wait_loop pv tx_hash poll_interval max_wait (sn_now s) s"

definition send_transaction :: "provider \<Rightarrow> u64 \<Rightarrow> u128 \<Rightarrow> transaction_receipt sender_task" where
  "send_transaction pv gas_limit gas_price =
     task_bind (run_op (await_timeout timeout_1min (new_transport_error ''Transaction send timeout'')
        (\<lambda>t. pv_send pv t gas_limit gas_price) (SentTransaction gas_limit gas_price))) (\<lambda>tx_hash.
     wait_for_receipt pv tx_hash (from_secs 2) timeout_2min)"

section \<open>Attempts\<close>

definition unexpected_state :: string where
  "unexpected_state = ''Transaction failed but is neither retriable (no OOG) nor reverting (passes gas estimation): unexpected state.''"

primrec send_attempts :: "provider \<Rightarrow> duration \<Rightarrow> u8 \<Rightarrow> u8 list \<Rightarrow> h256 sender_task" where
  "send_attempts pv start max_attempts [] = run_op (ffail (new_transport_error (''Transaction failed after '' @
     dec_of_nat (unat max_attempts) @ '' attempts'')))"
| "send_attempts pv start max_attempts (attempt # attempts) =
     task_bind (run_op (fget (\<lambda>s. sn_now s - start))) (\<lambda>elapsed.
     if timeout_5min < elapsed
     then run_op (ffail (new_transport_error (''Transaction timeout after '' @ dec_of_nat (as_secs timeout_5min) @ '' seconds'')))
     else task_bind (run_op (estimate_gas_with_timeout pv)) (\<lambda>estimated_gas.
       let bumps = attempt - 1
       in task_bind (run_op (lift_res (calculate_gas_limit_with_cap estimated_gas bumps))) (\<lambda>gas_limit.
       task_bind (run_op (await_call (pv_gas_price pv) AskedGasPrice)) (\<lambda>gas_price.
       task_bind (send_transaction pv gas_limit gas_price) (\<lambda>receipt.
       if rc_status receipt then run_op (fret (rc_transaction_hash receipt))
       else if \<not> rc_status receipt \<and> likely_oog receipt gas_limit then send_attempts pv start max_attempts attempts
       else task_bind (run_op (estimate_gas_with_timeout pv)) (\<lambda>_.
         run_op (ffail (new_transport_error unexpected_state))))))))"

text \<open>
  The number of attempts is a \<^verbatim>\<open>u8\<close> sum without a check: 255 bumps wrap to no attempt (a build
  with overflow checks panics there).
\<close>

definition send_tx_with_gas_bump :: "provider \<Rightarrow> u8 \<Rightarrow> h256 sender_task" where
  "send_tx_with_gas_bump pv gas_bumps s =
     (let max_attempts = gas_bumps + 1
      in send_attempts pv (sn_now s) max_attempts (map word_of_nat [1..<Suc (unat max_attempts)]) s)"

section \<open>Outcomes of tasks\<close>

text \<open>\<open>twp m Q E s\<close>: the task returns, with a value and a state of \<open>Q\<close> or an error and a state of \<open>E\<close>.\<close>

named_theorems twp_simps

definition twp ::
  "'a sender_task \<Rightarrow> ('a \<Rightarrow> sender \<Rightarrow> bool) \<Rightarrow> (call_error \<Rightarrow> sender \<Rightarrow> bool) \<Rightarrow> sender \<Rightarrow> bool" where
  "twp m Q E s = (case m s of None \<Rightarrow> False | Some (Inl e, t) \<Rightarrow> E e t | Some (Inr x, t) \<Rightarrow> Q x t)"

lemma twp_run_op [twp_simps]: "twp (run_op m) Q E = wp m Q E"
  by (simp add: fun_eq_iff twp_def run_op_def wp_def split: prod.splits sum.splits)

lemma twp_bind [twp_simps]: "twp (task_bind m k) Q E = twp m (\<lambda>x. twp (k x) Q E) E"
  by (simp add: fun_eq_iff twp_def task_bind_def split: option.splits prod.splits sum.splits)

lemma twp_if [twp_simps]: "twp (if b then m else k) Q E = (if b then twp m Q E else twp k Q E)"
  by simp

lemma twp_Let [twp_simps]: "twp (let y = v in m y) Q E = twp (m v) Q E"
  by (simp add: Let_def)

lemma twp_mono:
  "twp m Q E s \<Longrightarrow> (\<And>x t. Q x t \<Longrightarrow> Q' x t) \<Longrightarrow> (\<And>e t. E e t \<Longrightarrow> E' e t) \<Longrightarrow> twp m Q' E' s"
  by (auto simp: twp_def split: option.splits prod.splits sum.splits)

lemma twp_returns:
  "twp m Q E s \<longleftrightarrow> (\<exists>r t. m s = Some (r, t) \<and> (case r of Inl e \<Rightarrow> E e t | Inr x \<Rightarrow> Q x t))"
  by (auto simp: twp_def split: option.splits prod.splits sum.splits)

lemma twp_resultE:
  assumes "twp m (\<lambda>x t. P t \<and> Q x t) (\<lambda>_. P) s"
  obtains r t where "m s = Some (r, t)" and "P t" and "\<forall>x. r = Inr x \<longrightarrow> Q x t"
proof -
  from assms obtain r t where "m s = Some (r, t)" and "case r of Inl e \<Rightarrow> P t | Inr x \<Rightarrow> P t \<and> Q x t"
    unfolding twp_returns by blast
  then show thesis by (intro that [of r t]) (auto split: sum.splits)
qed

lemma twp_stateE:
  assumes "twp m (\<lambda>_. P) (\<lambda>_. P) s"
  obtains r t where "m s = Some (r, t)" and "P t"
  using twp_resultE [of m P "\<lambda>_ _. True" s] assms by auto

lemma wp_await_call [wp_simps]:
  "wp (await_call answer act) Q E s =
     (let r = fst (answer (sn_trace s));
          t = \<lparr> sn_now = sn_now s + snd (answer (sn_trace s)), sn_trace = sn_trace s @ [act r] \<rparr>
      in case r of Inl e \<Rightarrow> E e t | Inr x \<Rightarrow> Q x t)"
  by (simp add: wp_def await_call_def Let_def split_def split: sum.splits)

lemma wp_await_timeout [wp_simps]:
  "wp (await_timeout limit late answer act) Q E s =
     (let r = fst (answer (sn_trace s)); d = snd (answer (sn_trace s));
          t = \<lparr> sn_now = sn_now s + d, sn_trace = sn_trace s @ [act (Some r)] \<rparr>
      in if d \<le> limit then (case r of Inl e \<Rightarrow> E e t | Inr x \<Rightarrow> Q x t)
         else E late \<lparr> sn_now = sn_now s + limit, sn_trace = sn_trace s @ [act None] \<rparr>)"
  by (simp add: wp_def await_timeout_def Let_def split_def split: sum.splits)

section \<open>Polling\<close>

text \<open>
  The loop keeps an invariant of the exchanges, and ends: every poll moves the clock by the interval.
\<close>

definition polls_left :: "duration \<Rightarrow> duration \<Rightarrow> duration \<Rightarrow> nat" where
  "polls_left deadline poll now = (if now \<le> deadline then Suc ((deadline - now) div poll) else 0)"

lemma polls_left_step:
  assumes "0 < poll" and "now \<le> deadline" and "now + poll \<le> later"
  shows "Suc (polls_left deadline poll later) \<le> polls_left deadline poll now"
proof (cases "later \<le> deadline")
  case True
  have "Suc ((deadline - later) div poll) = (deadline - later + poll) div poll" using assms(1) by (simp add: div_add_self2)
  also have "\<dots> \<le> (deadline - now) div poll" by (rule div_le_mono) (use True assms in simp)
  finally show ?thesis using True assms(2) by (simp add: polls_left_def)
qed (use assms in \<open>simp add: polls_left_def\<close>)

lemma twp_wait_loop:
  assumes "0 < poll" and "I (sn_trace s)"
    and silent: "\<And>t. I t \<Longrightarrow> I (t @ [AskedReceipt h (Inr None)])"
    and failed: "\<And>t e. I t \<Longrightarrow> J (t @ [AskedReceipt h (Inl e)])"
    and late: "\<And>t. I t \<Longrightarrow> J t"
    and found: "\<And>t rc. I t \<Longrightarrow> K rc (t @ [AskedReceipt h (Inr (Some rc))])"
  shows "twp (wait_loop pv h poll max_wait start)
     (\<lambda>rc t. K rc (sn_trace t) \<and> length (sn_trace t) \<le> length (sn_trace s) + polls_left (start + max_wait) poll (sn_now s))
     (\<lambda>_ t. J (sn_trace t) \<and> length (sn_trace t) \<le> length (sn_trace s) + polls_left (start + max_wait) poll (sn_now s)) s"
  using assms(2)
proof (induction "Suc (start + max_wait) - sn_now s" arbitrary: s rule: less_induct)
  case less
  let ?r = "fst (pv_receipt pv (sn_trace s) h)"
  show ?case
  proof (cases "max_wait < sn_now s - start")
    case True
    then show ?thesis using late [OF less.prems] by (simp add: twp_def wait_loop.simps [of _ _ _ _ _ s])
  next
    case early: False
    show ?thesis
    proof (cases ?r)
      case (Inl e)
      then show ?thesis using early failed [OF less.prems]
        by (simp add: twp_def wait_loop.simps [of _ _ _ _ _ s] await_call_def split_def polls_left_def)
    next
      case (Inr found_receipt)
      show ?thesis
      proof (cases found_receipt)
        case (Some rc)
        then show ?thesis using Inr early found [OF less.prems]
          by (simp add: twp_def wait_loop.simps [of _ _ _ _ _ s] await_call_def split_def polls_left_def)
      next
        case None
        define s' where "s' = (let t = sn_trace s @ [AskedReceipt h (Inr None)]
          in \<lparr> sn_now = sn_now s + snd (pv_receipt pv (sn_trace s) h) + poll + pv_oversleep pv t, sn_trace = t \<rparr>)"
        have step: "wait_loop pv h poll max_wait start s = wait_loop pv h poll max_wait start s'"
          using Inr None early by (simp add: wait_loop.simps [of _ _ _ _ _ s] await_call_def split_def s'_def Let_def)
        have later: "sn_now s + poll \<le> sn_now s'" and I: "I (sn_trace s')"
          using silent [OF less.prems] by (simp_all add: s'_def Let_def)
        have "length (sn_trace s') + polls_left (start + max_wait) poll (sn_now s')
            \<le> length (sn_trace s) + polls_left (start + max_wait) poll (sn_now s)"
          using polls_left_step [OF assms(1) _ later, of "start + max_wait"] early by (simp add: s'_def Let_def)
        then have fewer: "n \<le> length (sn_trace s) + polls_left (start + max_wait) poll (sn_now s)"
          if "n \<le> length (sn_trace s') + polls_left (start + max_wait) poll (sn_now s')" for n
          using that by simp
        have "twp (wait_loop pv h poll max_wait start)
           (\<lambda>rc t. K rc (sn_trace t) \<and> length (sn_trace t) \<le> length (sn_trace s') + polls_left (start + max_wait) poll (sn_now s'))
           (\<lambda>_ t. J (sn_trace t) \<and> length (sn_trace t) \<le> length (sn_trace s') + polls_left (start + max_wait) poll (sn_now s')) s'"
          by (rule less.hyps) (use later I early assms(1) in auto)
        then show ?thesis unfolding twp_def step by (auto split: option.splits prod.splits sum.splits intro: fewer)
      qed
    qed
  qed
qed

section \<open>What has become of the last transaction\<close>

datatype tx_phase = NothingSent | Pending u64 h256 | Settled u64 transaction_receipt | Unknown

fun next_phase :: "tx_phase \<Rightarrow> tx_action \<Rightarrow> tx_phase" where
  "next_phase p (SentTransaction g _ r) = (case r of Some (Inr h) \<Rightarrow> Pending g h | _ \<Rightarrow> Unknown)"
| "next_phase (Pending g h) (AskedReceipt h' (Inr (Some rc))) = (if h' = h then Settled g rc else Pending g h)"
| "next_phase p _ = p"

definition phase :: "tx_trace \<Rightarrow> tx_phase" where
  "phase t = foldl next_phase NothingSent t"

text \<open>Another transaction may go out only when none did before or the last one ran out of gas.\<close>

definition may_send :: "tx_phase \<Rightarrow> bool" where
  "may_send p = (case p of NothingSent \<Rightarrow> True | Settled g rc \<Rightarrow> likely_oog rc g | _ \<Rightarrow> False)"

fun is_send :: "tx_action \<Rightarrow> bool" where
  "is_send (SentTransaction _ _ _) = True"
| "is_send _ = False"

definition sends :: "tx_trace \<Rightarrow> nat" where
  "sends t = length (filter is_send t)"

definition send_ok :: "tx_trace \<Rightarrow> tx_action \<Rightarrow> bool" where
  "send_ok before x = (case x of SentTransaction g _ _ \<Rightarrow> may_send (phase before) \<and> g \<le> MAX_GAS_LIMIT | _ \<Rightarrow> True)"

abbreviation well_sent :: "tx_trace \<Rightarrow> bool" where
  "well_sent \<equiv> each_after send_ok"

lemma phase_snoc [simp]: "phase (t @ [a]) = next_phase (phase t) a"
  and phase_Nil [simp]: "phase [] = NothingSent"
  by (simp_all add: phase_def)

lemma sends_snoc [simp]: "sends (t @ [a]) = sends t + (if is_send a then 1 else 0)"
  and sends_Nil [simp]: "sends [] = 0"
  by (simp_all add: sends_def)

lemma send_ok_simps [simp]:
  "send_ok t (SentTransaction g p r) \<longleftrightarrow> may_send (phase t) \<and> g \<le> MAX_GAS_LIMIT"
  "send_ok t (EstimatedGas x)" "send_ok t (AskedGasPrice y)" "send_ok t (AskedReceipt h z)"
  by (simp_all add: send_ok_def)

section \<open>Sending\<close>

lemma twp_send_transaction:
  assumes "well_sent (sn_trace s)" and "may_send (phase (sn_trace s))" and "g \<le> MAX_GAS_LIMIT"
    and "sends (sn_trace s) \<le> n"
  shows "twp (send_transaction pv g p)
     (\<lambda>rc t. well_sent (sn_trace t) \<and> phase (sn_trace t) = Settled g rc \<and> sends (sn_trace t) \<le> Suc n)
     (\<lambda>_ t. well_sent (sn_trace t) \<and> sends (sn_trace t) \<le> Suc n) s"
proof -
  have "twp (wait_for_receipt pv h (from_secs 2) timeout_2min)
     (\<lambda>rc t. well_sent (sn_trace t) \<and> phase (sn_trace t) = Settled g rc \<and> sends (sn_trace t) \<le> Suc n)
     (\<lambda>_ t. well_sent (sn_trace t) \<and> sends (sn_trace t) \<le> Suc n) t"
    if "well_sent (sn_trace t) \<and> phase (sn_trace t) = Pending g h \<and> sends (sn_trace t) \<le> Suc n" for t h
  proof -
    have "twp (wait_loop pv h (from_secs 2) timeout_2min (sn_now t))
       (\<lambda>rc t'. (well_sent (sn_trace t') \<and> phase (sn_trace t') = Settled g rc \<and> sends (sn_trace t') \<le> Suc n) \<and>
          length (sn_trace t') \<le> length (sn_trace t) + polls_left (sn_now t + timeout_2min) (from_secs 2) (sn_now t))
       (\<lambda>_ t'. (well_sent (sn_trace t') \<and> sends (sn_trace t') \<le> Suc n) \<and>
          length (sn_trace t') \<le> length (sn_trace t) + polls_left (sn_now t + timeout_2min) (from_secs 2) (sn_now t)) t"
      by (rule twp_wait_loop [where I = "\<lambda>t. well_sent t \<and> phase t = Pending g h \<and> sends t \<le> Suc n"])
        (use that in \<open>auto simp: from_secs_def\<close>)
    then show ?thesis unfolding twp_def wait_for_receipt_def by (auto split: option.splits prod.splits sum.splits)
  qed
  then show ?thesis
    using assms by (simp add: send_transaction_def twp_simps wp_simps Let_def split: sum.splits)
qed

lemma gas_limit_capped: "calculate_gas_limit_with_cap e b = Inr g \<Longrightarrow> g \<le> MAX_GAS_LIMIT"
  by (auto simp: calculate_gas_limit_with_cap_def Let_def split: if_splits)

lemma wp_estimate:
  assumes "well_sent (sn_trace s)" and "phase (sn_trace s) = p" and "sends (sn_trace s) \<le> n"
  shows "wp (estimate_gas_with_timeout pv)
     (\<lambda>_ t. well_sent (sn_trace t) \<and> phase (sn_trace t) = p \<and> sends (sn_trace t) \<le> n)
     (\<lambda>_ t. well_sent (sn_trace t) \<and> sends (sn_trace t) \<le> n) s"
  using assms by (simp add: estimate_gas_with_timeout_def wp_simps Let_def split: sum.splits)

text \<open>One attempt, whatever is done with its receipt.\<close>

lemma twp_attempt:
  assumes s: "well_sent (sn_trace s)" "may_send (phase (sn_trace s))"
    and failed: "\<And>e t. well_sent (sn_trace t) \<Longrightarrow> sends (sn_trace t) \<le> Suc (sends (sn_trace s)) \<Longrightarrow> E e t"
    and k: "\<And>g rc t. well_sent (sn_trace t) \<Longrightarrow> phase (sn_trace t) = Settled g rc \<Longrightarrow>
      sends (sn_trace t) \<le> Suc (sends (sn_trace s)) \<Longrightarrow> twp (k g rc) Q E t"
  shows "wp (estimate_gas_with_timeout pv) (\<lambda>e. twp (let bumps = a - 1
       in task_bind (run_op (lift_res (calculate_gas_limit_with_cap e bumps))) (\<lambda>gas_limit.
       task_bind (run_op (await_call (pv_gas_price pv) AskedGasPrice)) (\<lambda>gas_price.
       task_bind (send_transaction pv gas_limit gas_price) (k gas_limit)))) Q E) E s"
proof -
  let ?n = "sends (sn_trace s)"
  have sent: "twp (send_transaction pv g p) (\<lambda>rc. twp (k g rc) Q E) E t"
    if "well_sent (sn_trace t)" "may_send (phase (sn_trace t))" "g \<le> MAX_GAS_LIMIT" "sends (sn_trace t) \<le> ?n" for t g p
    using twp_send_transaction [OF that] by (rule twp_mono) (auto intro: k failed)
  have priced: "wp (await_call (pv_gas_price pv) AskedGasPrice) (\<lambda>p t. well_sent (sn_trace t) \<and>
       may_send (phase (sn_trace t)) \<and> sends (sn_trace t) \<le> ?n) E t"
    if "well_sent (sn_trace t)" "may_send (phase (sn_trace t))" "sends (sn_trace t) \<le> ?n" for t
    using that by (auto simp: wp_simps Let_def intro!: failed split: sum.splits)
  have estimated: "wp (estimate_gas_with_timeout pv) (\<lambda>_ t. well_sent (sn_trace t) \<and>
       may_send (phase (sn_trace t)) \<and> sends (sn_trace t) \<le> ?n) E s"
    using wp_estimate [OF s(1) refl order_refl] by (rule wp_mono) (use s(2) in \<open>auto intro: failed\<close>)
  have limited: "wp (lift_res (calculate_gas_limit_with_cap e b)) (\<lambda>g. wp (await_call (pv_gas_price pv) AskedGasPrice)
       (\<lambda>p. twp (send_transaction pv g p) (\<lambda>rc. twp (k g rc) Q E) E) E) E t"
    if t: "well_sent (sn_trace t)" "may_send (phase (sn_trace t))" "sends (sn_trace t) \<le> ?n" for e b t
  proof (cases "calculate_gas_limit_with_cap e b")
    case (Inl err)
    with t show ?thesis by (simp add: wp_lift_res failed)
  next
    case (Inr g)
    from priced [OF t] show ?thesis unfolding wp_lift_res Inr sum.case
      by (rule wp_mono) (auto intro!: sent gas_limit_capped [OF Inr])
  qed
  show ?thesis
    using estimated by (rule wp_mono) (auto simp only: twp_Let twp_bind twp_run_op intro!: limited)
qed

lemma twp_send_attempts:
  assumes "well_sent (sn_trace s)" and "may_send (phase (sn_trace s))"
  shows "twp (send_attempts pv start m as)
     (\<lambda>h t. well_sent (sn_trace t) \<and> sends (sn_trace t) \<le> sends (sn_trace s) + length as \<and>
        (\<exists>g rc. phase (sn_trace t) = Settled g rc \<and> rc_status rc \<and> rc_transaction_hash rc = h))
     (\<lambda>_ t. well_sent (sn_trace t) \<and> sends (sn_trace t) \<le> sends (sn_trace s) + length as) s"
  using assms
proof (induction as arbitrary: s)
  case Nil
  then show ?case by (simp add: twp_simps wp_simps)
next
  case (Cons a as)
  let ?n = "sends (sn_trace s)"
  let ?Q = "\<lambda>h t. well_sent (sn_trace t) \<and> sends (sn_trace t) \<le> Suc (?n + length as) \<and>
        (\<exists>g rc. phase (sn_trace t) = Settled g rc \<and> rc_status rc \<and> rc_transaction_hash rc = h)"
  let ?E = "\<lambda>_ t. well_sent (sn_trace t) \<and> sends (sn_trace t) \<le> Suc (?n + length as)"
  have again: "twp (send_attempts pv start m as) ?Q ?E t"
    if "well_sent (sn_trace t)" "phase (sn_trace t) = Settled g rc" "likely_oog rc g" "sends (sn_trace t) \<le> Suc ?n" for t g rc
    using Cons.IH [of t] that by (auto elim!: twp_mono simp: may_send_def)
  have bail: "wp (estimate_gas_with_timeout pv) (\<lambda>_. ?E e) ?E t"
    if "well_sent (sn_trace t)" "sends (sn_trace t) \<le> Suc ?n" for t e
    using wp_estimate [OF that(1) refl that(2)] by (rule wp_mono) auto
  have "wp (estimate_gas_with_timeout pv) (\<lambda>e. twp (let bumps = a - 1
       in task_bind (run_op (lift_res (calculate_gas_limit_with_cap e bumps))) (\<lambda>gas_limit.
       task_bind (run_op (await_call (pv_gas_price pv) AskedGasPrice)) (\<lambda>gas_price.
       task_bind (send_transaction pv gas_limit gas_price) (\<lambda>receipt.
       if rc_status receipt then run_op (fret (rc_transaction_hash receipt))
       else if \<not> rc_status receipt \<and> likely_oog receipt gas_limit then send_attempts pv start m as
       else task_bind (run_op (estimate_gas_with_timeout pv)) (\<lambda>_.
         run_op (ffail (new_transport_error unexpected_state))))))) ?Q ?E) ?E s"
    by (rule twp_attempt [OF Cons.prems]) (auto simp: twp_simps wp_simps intro!: again bail)
  then show ?case
    using Cons.prems(1) by (simp only: send_attempts.simps twp_bind twp_run_op twp_if wp_basic) simp
qed

section \<open>Gas limits without bounds\<close>

definition gas_formula :: "nat \<Rightarrow> nat \<Rightarrow> nat" where
  "gas_formula estimated bumps = max (((\<lambda>x. x * 110 div 100) ^^ bumps) (estimated * 120 div 100)) estimated"

text \<open>A saturated product stays above the cap, as the exact one does.\<close>

definition tracks :: "u64 \<Rightarrow> nat \<Rightarrow> bool" where
  "tracks g x \<longleftrightarrow> unat g = x \<or> 5000000 < unat g \<and> 5000000 < x"

lemma saturated_percent:
  assumes "tracks g x" and "100 \<le> k" and "k < 200"
  shows "tracks (saturating_mul g (word_of_nat k) div 100) (x * k div 100)"
proof -
  have k: "unat (word_of_nat k :: u64) = k" using assms(3) by (simp add: unat_of_nat)
  have u: "unat (saturating_mul g (word_of_nat k) div 100) = min (unat g * k) (2 ^ 64 - 1) div 100"
    by (simp add: unat_div k checked_simps)
  have grows: "n \<le> n * k div 100" for n
  proof -
    have "n = n * 100 div 100" by simp
    also have "\<dots> \<le> n * k div 100" using assms(2) by (intro div_le_mono mult_le_mono2)
    finally show ?thesis .
  qed
  have big: "5000000 < min (unat g * k) (2 ^ 64 - 1) div 100" if "5000000 < unat g"
    using grows [of "unat g"] that by (auto simp: min_def)
  show ?thesis
  proof (cases "unat g * k \<le> 2 ^ 64 - 1")
    case True
    then show ?thesis
      using assms(1) big u grows [of x] unfolding tracks_def by (auto simp: min_def)
  next
    case False
    then have "5000000 < unat g" using mult_le_mono [of "unat g" 5000000 k 200] assms(3) by force
    then show ?thesis using assms(1) big u grows [of x] by (auto simp: tracks_def)
  qed
qed

lemma bump_tracks: "tracks g x \<Longrightarrow> tracks ((bump ^^ n) g) (((\<lambda>x. x * 110 div 100) ^^ n) x)"
proof (induction n)
  case (Suc n)
  from saturated_percent [OF Suc.IH [OF Suc.prems], of 110] show ?case
    by (simp add: bump_def PER_ATTEMPT_BUMP_PERCENT_def)
qed simp

lemma bumped_gas_tracks: "tracks (bumped_gas e b) (gas_formula (unat e) (unat b))"
proof -
  have "tracks (saturating_mul e 120 div 100) (unat e * 120 div 100)"
    using saturated_percent [of e "unat e" 120] by (simp add: tracks_def)
  from bump_tracks [OF this, of "unat b"] show ?thesis
    by (auto simp: bumped_gas_def gas_formula_def tracks_def Let_def BASE_GAS_HEADROOM_PERCENT_def max_def
        word_le_nat_alt)
qed

section \<open>Properties\<close>

text \<open>
  C15. Sending with gas bumps always returns, and is safe whatever the provider answers and however
  long it takes: a transaction is sent only when none was sent before or the last one was mined and
  ran out of gas, never while one is pending or its fate is unknown; its gas limit never exceeds the
  cap; there are at most as many transactions as attempts; and a hash is returned only for the last
  one sent, mined with success.
\<close>

theorem send_tx_safe:
  "\<exists>r s. send_tx_with_gas_bump pv bumps \<lparr> sn_now = now, sn_trace = [] \<rparr> = Some (r, s) \<and>
     (\<forall>a g p x b. sn_trace s = a @ SentTransaction g p x # b \<longrightarrow> may_send (phase a) \<and> unat g \<le> 5000000) \<and>
     length (filter is_send (sn_trace s)) \<le> unat (bumps + 1) \<and>
     (\<forall>h. r = Inr h \<longrightarrow>
        (\<exists>g rc. phase (sn_trace s) = Settled g rc \<and> rc_status rc \<and> rc_transaction_hash rc = h))"
proof -
  let ?s = "\<lparr> sn_now = now, sn_trace = [] \<rparr> :: sender"
  let ?P = "\<lambda>t. well_sent (sn_trace t) \<and> sends (sn_trace t) \<le> unat (bumps + 1)"
  let ?Q = "\<lambda>h t. \<exists>g rc. phase (sn_trace t) = Settled g rc \<and> rc_status rc \<and> rc_transaction_hash rc = h"
  have "twp (send_tx_with_gas_bump pv bumps) (\<lambda>h t. ?P t \<and> ?Q h t) (\<lambda>_. ?P) ?s"
    using twp_send_attempts [of ?s pv now "bumps + 1" "map word_of_nat [1..<Suc (unat (bumps + 1))]"]
    by (simp add: may_send_def twp_def send_tx_with_gas_bump_def Let_def conj_assoc del: upt_Suc)
  then obtain r t where r: "send_tx_with_gas_bump pv bumps ?s = Some (r, t)" "?P t" "\<forall>h. r = Inr h \<longrightarrow> ?Q h t"
    by (rule twp_resultE)
  have "may_send (phase a) \<and> unat g \<le> 5000000" if "sn_trace t = a @ SentTransaction g p x # b" for a g p x b
    using each_afterD [of send_ok a "SentTransaction g p x" b] r(2) that
    by (simp add: MAX_GAS_LIMIT_def word_le_nat_alt)
  with r show ?thesis unfolding sends_def by blast
qed

text \<open>A provider whose first transaction runs out of gas and whose second one succeeds.\<close>

definition slow_chain :: provider where
  "slow_chain = \<lparr> pv_show_hash = (\<lambda>h. ''0x''), pv_estimate_gas = (\<lambda>t. (Inr 100000, 1)), pv_gas_price = (\<lambda>t. (Inr 7, 1)),
     pv_send = (\<lambda>t g p. (Inr (word_of_nat (length (filter is_send t))), 1)),
     pv_receipt = (\<lambda>t h. (Inr (Some \<lparr> rc_status = (h \<noteq> 0), rc_transaction_hash = h, rc_gas_used = 119000 \<rparr>), 1)),
     pv_oversleep = (\<lambda>t. 0) \<rparr>"

theorem send_tx_safe_witness:
  "\<exists>r s. send_tx_with_gas_bump slow_chain 3 \<lparr> sn_now = 0, sn_trace = [] \<rparr> = Some (r, s) \<and>
     length (filter is_send (sn_trace s)) \<le> 4"
  using send_tx_safe [of slow_chain 3 0] by auto

text \<open>
  C24. Polling for a receipt ends for every positive interval and every provider, after at most
  \<open>max_wait / poll_interval + 1\<close> questions, all of them for the hash that was asked for.
\<close>

theorem receipt_polling_ends:
  assumes "0 < poll_interval"
  shows "\<exists>r t asked. wait_for_receipt pv h poll_interval max_wait s = Some (r, t) \<and>
     sn_trace t = sn_trace s @ asked \<and> length asked \<le> max_wait div poll_interval + 1 \<and>
     (\<forall>a \<in> set asked. \<exists>answer. a = AskedReceipt h answer)"
proof -
  define I where "I t \<longleftrightarrow> (\<exists>asked. t = sn_trace s @ asked \<and> (\<forall>a \<in> set asked. \<exists>answer. a = AskedReceipt h answer))" for t
  have "I (sn_trace s)" and more: "I t \<Longrightarrow> I (t @ [AskedReceipt h x])" for t x by (auto simp: I_def)
  then have "twp (wait_for_receipt pv h poll_interval max_wait)
     (\<lambda>_ t. I (sn_trace t) \<and> length (sn_trace t) \<le> length (sn_trace s) + Suc (max_wait div poll_interval))
     (\<lambda>_ t. I (sn_trace t) \<and> length (sn_trace t) \<le> length (sn_trace s) + Suc (max_wait div poll_interval)) s"
    using twp_wait_loop [OF assms, where I = I and J = I and K = "\<lambda>_. I" and start = "sn_now s" and s = s
        and h = h and pv = pv and max_wait = max_wait]
    by (simp add: polls_left_def twp_def wait_for_receipt_def)
  then obtain r t where "wait_for_receipt pv h poll_interval max_wait s = Some (r, t)" "I (sn_trace t)"
      "length (sn_trace t) \<le> length (sn_trace s) + Suc (max_wait div poll_interval)"
    by (auto elim: twp_stateE)
  then show ?thesis unfolding I_def by force
qed

theorem receipt_polling_ends_witness:
  "\<exists>r t. wait_for_receipt slow_chain 5 (from_secs 2) timeout_2min \<lparr> sn_now = 0, sn_trace = [] \<rparr> = Some (r, t) \<and>
     length (sn_trace t) \<le> 61"
  using receipt_polling_ends [of "from_secs 2" slow_chain 5 timeout_2min "\<lparr> sn_now = 0, sn_trace = [] \<rparr>"]
  by (auto simp: from_secs_def timeout_2min_def)

text \<open>
  C40. The gas limit is the estimate with its headroom and compound bumps as unbounded arithmetic gives
  it, and is refused exactly when that exceeds the cap; saturation never changes either. It is never
  below the estimate and never shrinks from one attempt to the next.
\<close>

theorem gas_limit_exact:
  "(calculate_gas_limit_with_cap e b = Inr g \<longleftrightarrow>
      unat g = gas_formula (unat e) (unat b) \<and> gas_formula (unat e) (unat b) \<le> 5000000) \<and>
   unat e \<le> gas_formula (unat e) n \<and> gas_formula (unat e) n \<le> gas_formula (unat e) (Suc n)"
proof -
  have "calculate_gas_limit_with_cap e b = Inr g \<longleftrightarrow>
      unat g = gas_formula (unat e) (unat b) \<and> gas_formula (unat e) (unat b) \<le> 5000000"
    using bumped_gas_tracks [of e b]
    by (auto simp: calculate_gas_limit_with_cap_def Let_def tracks_def MAX_GAS_LIMIT_def word_less_nat_alt
        word_unat_eq_iff)
  moreover have "x \<le> x * 110 div 100" for x :: nat by simp
  then have "gas_formula (unat e) n \<le> gas_formula (unat e) (Suc n)" by (auto simp: gas_formula_def max_def intro: order_trans)
  ultimately show ?thesis by (simp add: gas_formula_def)
qed

end
