(* ===== verification/Coordinator_Base.thy ===== *)
theory Coordinator_Base
  imports Bitvmx_Types Rsk_Events Flow_Monad
begin

text \<open>
  What the processors of the coordinator share: the messages BitVMX sends
  (\<^verbatim>\<open>crates/common/bitvmx/src/bitvmx_types.rs\<close>), the requests of users and the kinds of flows
  (\<^verbatim>\<open>types.rs\<close>, \<^verbatim>\<open>user_requests.rs\<close>, \<^verbatim>\<open>event_processor.rs\<close>), the committees and keys of
  this member (\<^verbatim>\<open>flows/common/context.rs\<close>), the force flags of test environments
  (\<^verbatim>\<open>force_flags.rs\<close>), all under \<^verbatim>\<open>crates/coordinator/src\<close>.
\<close>

section \<open>Messages of BitVMX\<close>

type_synonym private_key = bytes

datatype outgoing_bitvmx_api_messages =
    OPong uuid
  | OTransaction uuid transaction_status "string option"
  | OOutputPatternTransactionFound txid transaction_status bytes
  | OPeginTransactionFound txid transaction_status
  | OSpendingUTXOTransactionFound uuid txid u32 transaction_status
  | OSpeedUpProgramNoFunds txid
  | OSetupCompleted uuid
  | OAggregatedPubkey uuid public_key
  | OAggregatedPubkeyNotReady uuid
  | OTransactionInfo uuid string btc_tx
  | OZKPResult uuid bytes bytes
  | OExecutionResult
  | OCommInfo uuid comms_address
  | OKeyPair uuid private_key public_key
  | OPubKey uuid public_key
  | OSignedMessage uuid h256 h256 u8
  | OVariable uuid string variable_types
  | OWitness uuid string witness_types
  | ONotFound uuid string
  | OHashedMessage uuid string u32 u32 string
  | OProofReady uuid
  | OProofNotReady uuid
  | OProofGenerationError uuid string
  | OSPVProof txid "btc_tx_spv_proof option"
  | OFundsSent uuid txid
  | OFundingAddress uuid string
  | OFundingBalance uuid u64
  | OWalletNotReady uuid
  | OWalletError uuid string

section \<open>Requests of users\<close>

datatype flow_kind = KPegin | KPegout | KAdvanceFunds | KCommitteeSetup

record stream_utxo =
  su_value :: u64

record apply_to_stream =
  at_stream_id :: u64
  at_role :: participant_role
  at_funding_utxo :: stream_utxo
  at_speed_up_utxo :: stream_utxo
  at_advance_funds :: stream_utxo

datatype admin_request = FailFlow flow_kind uuid string

datatype user_requests = FundingInfo uuid | ApplyToStream apply_to_stream | Admin admin_request

record flow_details =
  fd_kind :: flow_kind
  fd_id :: string
  fd_step :: string
  fd_created_at :: "u64 option"

section \<open>The context of this member\<close>

record signed_public_key =
  sk_public_key :: public_key
  sk_signature_r :: h256
  sk_signature_s :: h256
  sk_recovery_id :: u8

record my_keys =
  mk_take_key :: "signed_public_key option"
  mk_dispute_key :: "signed_public_key option"
  mk_comm_key :: "signed_public_key option"

record global_context =
  gc_my_committees :: "(u128 \<times> participant_role) list"
  gc_my_keys :: my_keys

definition keys_new :: my_keys where
  "keys_new = \<lparr> mk_take_key = None, mk_dispute_key = None, mk_comm_key = None \<rparr>"

definition set_take_key :: "signed_public_key \<Rightarrow> my_keys \<Rightarrow> my_keys" where
  "set_take_key key k = k \<lparr> mk_take_key := Some key \<rparr>"

definition set_dispute_key :: "signed_public_key \<Rightarrow> my_keys \<Rightarrow> my_keys" where
  "set_dispute_key key k = k \<lparr> mk_dispute_key := Some key \<rparr>"

definition set_comm_key :: "signed_public_key \<Rightarrow> my_keys \<Rightarrow> my_keys" where
  "set_comm_key key k = k \<lparr> mk_comm_key := Some key \<rparr>"

definition keys_is_set :: "my_keys \<Rightarrow> bool" where
  "keys_is_set k \<longleftrightarrow> mk_take_key k \<noteq> None \<and> mk_dispute_key k \<noteq> None \<and> mk_comm_key k \<noteq> None"

definition context_new :: global_context where
  "context_new = \<lparr> gc_my_committees = [], gc_my_keys = keys_new \<rparr>"

definition committees_add :: "u128 \<Rightarrow> participant_role \<Rightarrow> (u128 \<times> participant_role) list \<Rightarrow> (u128 \<times> participant_role) list" where
  "committees_add committee_id role committees = AList.update committee_id role committees"

definition committees_remove :: "u128 \<Rightarrow> (u128 \<times> participant_role) list \<Rightarrow> (u128 \<times> participant_role) list" where
  "committees_remove committee_id committees = AList.delete committee_id committees"

definition im_member :: "u128 \<Rightarrow> (u128 \<times> participant_role) list \<Rightarrow> bool" where
  "im_member committee_id committees \<longleftrightarrow> map_of committees committee_id \<noteq> None"

definition my_role :: "u128 \<Rightarrow> (u128 \<times> participant_role) list \<Rightarrow> participant_role option" where
  "my_role committee_id committees = map_of committees committee_id"

section \<open>Force flags\<close>

text \<open>
  ASCII letters and blanks only: the texts compared here are environment names and addresses in
  hexadecimal. A flag is read from a file, then from an environment variable.
\<close>

definition ascii_lower :: "char \<Rightarrow> char" where
  "ascii_lower c = (let n = (of_char c :: nat) in if 65 \<le> n \<and> n \<le> 90 then char_of (n + 32) else c)"

definition is_blank :: "char \<Rightarrow> bool" where
  "is_blank c \<longleftrightarrow> (let n = (of_char c :: nat) in n = 32 \<or> 9 \<le> n \<and> n \<le> 13)"

definition trim :: "string \<Rightarrow> string" where
  "trim s = rev (dropWhile is_blank (rev (dropWhile is_blank s)))"

definition lowercase :: "string \<Rightarrow> string" where
  "lowercase s = map ascii_lower s"

definition RUNTIME_ENV_LOCAL_ANVIL :: string where "RUNTIME_ENV_LOCAL_ANVIL = ''local-anvil''"
definition RUNTIME_ENV_LOCAL_RSKJ :: string where "RUNTIME_ENV_LOCAL_RSKJ = ''local-rskj''"

definition is_force_flags_allowed :: "string option \<Rightarrow> bool" where
  "is_force_flags_allowed runtime_environment =
     (case runtime_environment of
        None \<Rightarrow> False
      | Some env \<Rightarrow> lowercase env = lowercase RUNTIME_ENV_LOCAL_ANVIL \<or> lowercase env = lowercase RUNTIME_ENV_LOCAL_RSKJ)"

definition nonempty_text :: "string option \<Rightarrow> string option" where
  "nonempty_text x = (case map_option trim x of Some s \<Rightarrow> if s = [] then None else Some s | None \<Rightarrow> None)"

definition get_force_advance_address :: "string option \<Rightarrow> string option \<Rightarrow> string option \<Rightarrow> string option" where
  "get_force_advance_address runtime_environment file_text env_var =
     (if \<not> is_force_flags_allowed runtime_environment then None
      else case nonempty_text file_text of Some s \<Rightarrow> Some s | None \<Rightarrow> nonempty_text env_var)"

definition is_force_dispute_enabled :: "string option \<Rightarrow> bool \<Rightarrow> string option \<Rightarrow> bool" where
  "is_force_dispute_enabled runtime_environment file_exists env_var =
     (if \<not> is_force_flags_allowed runtime_environment then False
      else file_exists \<or> (case env_var of None \<Rightarrow> False | Some v \<Rightarrow> lowercase v = ''true'' \<or> v = ''1''))"

lemma force_flags_local_only:
  assumes "runtime_environment \<noteq> Some RUNTIME_ENV_LOCAL_ANVIL" and "runtime_environment \<noteq> Some RUNTIME_ENV_LOCAL_RSKJ"
    and "\<And>s. runtime_environment = Some s \<Longrightarrow> lowercase s = s"
  shows "get_force_advance_address runtime_environment f v = None"
    and "\<not> is_force_dispute_enabled runtime_environment b v"
proof -
  have "lowercase RUNTIME_ENV_LOCAL_ANVIL = RUNTIME_ENV_LOCAL_ANVIL" "lowercase RUNTIME_ENV_LOCAL_RSKJ = RUNTIME_ENV_LOCAL_RSKJ"
    by code_simp+
  then have "\<not> is_force_flags_allowed runtime_environment"
    using assms by (auto simp: is_force_flags_allowed_def split: option.splits)
  then show "get_force_advance_address runtime_environment f v = None" "\<not> is_force_dispute_enabled runtime_environment b v"
    by (simp_all add: get_force_advance_address_def is_force_dispute_enabled_def)
qed

end
