(* ===== verification/Pegout_Flow.thy ===== *)
theory Pegout_Flow
  imports Pegin_Flow
begin

text \<open>
  The state machine of one pegout (\<^verbatim>\<open>crates/coordinator/src/flows/pegout/pegout_flow.rs\<close>), in the
  style of the pegin flow: the world is a parameter whose answers may depend on everything done
  before, and a trace records what was done. The trace also has entries of the type \<open>'x\<close> for what
  the processor of the flows does with the same store. Committees, their members and the reading of
  their addresses are those of the pegin flow. The widths of event fields that are only shown in a
  completion marker do not matter.
\<close>

section \<open>Steps and data\<close>

datatype pegout_steps =
    Po_WaitPegoutRequested
  | Po_GetCommInfoAuthoritativeCheckpoint
  | Po_PrepareUserTakeSetup
  | Po_WaitUserTakeSignaturesReady
  | Po_DispatchUserTakeTransactionAllConvergeCheckpoint
  | Po_TriggerOperatorTake
  | Po_ConfirmUserTakeTransaction
  | Po_RequestUserTakeSpvProof
  | Po_RegisterPegout
  | Po_Done
  | Po_Failed

definition allows_fast_forward_to_pegout_registered :: "pegout_steps \<Rightarrow> bool" where
  "allows_fast_forward_to_pegout_registered s =
     (s = Po_DispatchUserTakeTransactionAllConvergeCheckpoint \<or> s = Po_ConfirmUserTakeTransaction \<or>
      s = Po_RequestUserTakeSpvProof \<or> s = Po_RegisterPegout)"

text \<open>The events of the pegout contract, with the fields the flow reads.\<close>

record pegout_requested =
  pq_user_pub_key :: bytes
  pq_committee :: u256
  pq_signature_txid :: h256
  pq_signature_hash :: h256
  pq_stream_id :: u64
  pq_packet_number :: u64
  pq_slot_id :: u64
  pq_request_amount :: u64

record pegout_registered =
  pg_txid :: h256
  pg_rest :: bytes

datatype pegout_step_data =
    Pd_PegoutRequested
  | Pd_CommInfo comms_address
  | Pd_PegoutAccepted pegout_accepted
  | Pd_UserTakeSignaturesReady
  | Pd_UserTakeTransactionDispatched
  | Pd_TriggerOperatorTakeTimeout
  | Pd_TransactionConfirmed transaction_status
  | Pd_SpvProof btc_tx_spv_proof
  | Pd_RetryRegisterPegout
  | Pd_PegoutRegistered pegout_registered h256

record pegout_context =
  oc_pegout_requested :: pegout_requested
  oc_pegout_requested_tx_hash :: h256
  oc_bitvmx_protocol_id :: uuid
  oc_my_p2p_address :: "comms_address option"
  oc_committee_output :: "committee option"
  oc_peg_out_accepted :: "pegout_accepted option"
  oc_spv_proof :: "btc_tx_spv_proof option"
  oc_pegout_registered :: "pegout_registered option"
  oc_pegout_registered_tx :: "string option"
  oc_transaction_status :: "transaction_status option"

record pegout_state =
  os_flow_id :: uuid
  os_log_id :: string
  os_step :: pegout_steps
  os_ctx :: pegout_context
  os_created_at :: "u64 option"

record peg_out_request =
  pr_request_committee_id :: uuid
  pr_slot_index :: usize
  pr_amount :: u64
  pr_pegout_id :: bytes
  pr_user_pubkey :: public_key
  pr_pegout_sighash :: bytes
  pr_take_aggregated_key :: public_key

record pegout_marker =
  om_request_pegout_tx_hash :: h256
  om_committee_id :: u256
  om_stream_id :: u64
  om_packet_number :: u64
  om_slot_id :: u64
  om_amount :: u64
  om_user_take_txid :: "txid option"
  om_registered_txid :: "string option"

section \<open>The world of a flow\<close>

datatype 'x pegout_action =
    PoSaved uuid pegout_state bool
  | PoSent incoming_bitvmx_api_messages bool
  | PoAskedCommittee u128
  | PoAskedCommunicationData u128 h160
  | PoAskedPublicKeys h160
  | PoAskedConfirmations confirmations_input
  | CalledRegisterPegout btc_tx_spv_proof_input "domain_errors + string"
  | CalledTriggerOperatorTake string "domain_errors + string"
  | PoSignalled string uuid pegout_marker bool
  | CountedPegout u64
  | Elsewhere 'x

type_synonym 'x pegout_trace = "'x pegout_action list"

datatype pegout_error =
    PoStoreFailed | PoBrokerFailed | PoSignalFailed | PoSerializationFailed | PoContractFailed domain_errors
  | PoUnreachableInitStep | PoOutOfFuel | PoInvalidStateTransition pegout_steps pegout_step_data
  | PoSpvProofNotAvailable | ExpectedUserTakeTxidNotFound | UserTakeStatusMismatch txid txid
  | PegoutRegisteredTxidMismatch txid txid | CommitteeIdTooLarge u256 | PoCommitteeOutputNotAvailable
  | PoP2pAddressNotAvailable | InvalidUserPubKeyLength nat | BadUserPubKey | PoBadAggregatedKey
  | PoBadCommunicationData pack_error | PoCommunicationKeyNotFound h160 | PoCommsFailed comms_error
  | TriggerOperatorTakeFailed domain_errors

record 'x pegout_env =
  oe_ops :: bridge_ops
  oe_net :: net_ops
  oe_sha256 :: "bytes \<Rightarrow> h256"
  oe_show_uuid :: "uuid \<Rightarrow> string"
  oe_show_hash :: "h256 \<Rightarrow> string"
  oe_parse_socket :: "string \<Rightarrow> socket_addr option"
  oe_show_socket :: "socket_addr \<Rightarrow> string"
  oe_public_key_from_slice :: "bytes \<Rightarrow> public_key option"
  oe_request_json :: "peg_out_request \<Rightarrow> string option"
  oe_registered_json :: "pegout_registered \<Rightarrow> string option"
  oe_verifier :: native_bridge_verifier
  oe_file_signals :: bool
  oe_my_address :: h160
  oe_now :: "'x pegout_trace \<Rightarrow> u64"
  oe_new_v4 :: "'x pegout_trace \<Rightarrow> uuid"
  oe_save :: "'x pegout_trace \<Rightarrow> pegout_state \<Rightarrow> bool"
  oe_send :: "'x pegout_trace \<Rightarrow> incoming_bitvmx_api_messages \<Rightarrow> bool"
  oe_signal :: "'x pegout_trace \<Rightarrow> pegout_marker \<Rightarrow> bool"
  oe_get_committee :: "'x pegout_trace \<Rightarrow> u128 \<Rightarrow> domain_errors + committee"
  oe_get_communication_data :: "'x pegout_trace \<Rightarrow> u128 \<Rightarrow> h160 \<Rightarrow> domain_errors + slots list"
  oe_get_member_public_keys :: "'x pegout_trace \<Rightarrow> h160 \<Rightarrow> domain_errors + string list"
  oe_get_btc_confirmations :: "'x pegout_trace \<Rightarrow> confirmations_input \<Rightarrow> domain_errors + u32"
  oe_register_pegout :: "'x pegout_trace \<Rightarrow> btc_tx_spv_proof_input \<Rightarrow> domain_errors + string"
  oe_trigger_operator_take :: "'x pegout_trace \<Rightarrow> string \<Rightarrow> domain_errors + string"

record 'x pegout_flow =
  of_state :: pegout_state
  of_trace :: "'x pegout_trace"

type_synonym ('x, 'a) pegout_op = "'x pegout_flow \<Rightarrow> (pegout_error + 'a) \<times> 'x pegout_flow"

definition po_perform :: "('x pegout_trace \<Rightarrow> 'r) \<Rightarrow> ('r \<Rightarrow> 'x pegout_action) \<Rightarrow> 'x pegout_flow \<Rightarrow> 'r \<times> 'x pegout_flow" where
  "po_perform answer act f =
     (let r = answer (of_trace f) in (r, f \<lparr> of_trace := of_trace f @ [act r] \<rparr>))"

definition po_perform_ok :: "('x pegout_trace \<Rightarrow> bool) \<Rightarrow> (bool \<Rightarrow> 'x pegout_action) \<Rightarrow> pegout_error \<Rightarrow> ('x, unit) pegout_op" where
  "po_perform_ok answer act e f = (case po_perform answer act f of (ok, g) \<Rightarrow> (ensure ok e, g))"

definition po_perform_contract ::
  "('x pegout_trace \<Rightarrow> domain_errors + 'a) \<Rightarrow> (domain_errors + 'a \<Rightarrow> 'x pegout_action) \<Rightarrow> ('x, 'a) pegout_op" where
  "po_perform_contract answer act f =
     (case po_perform answer act f of (r, g) \<Rightarrow> (case r of Inl e \<Rightarrow> Inl (PoContractFailed e) | Inr x \<Rightarrow> Inr x, g))"

definition octx :: "'x pegout_flow \<Rightarrow> pegout_context" where
  "octx f = os_ctx (of_state f)"

definition po_step :: "'x pegout_flow \<Rightarrow> pegout_steps" where
  "po_step f = os_step (of_state f)"

definition map_octx :: "(pegout_context \<Rightarrow> pegout_context) \<Rightarrow> 'x pegout_flow \<Rightarrow> 'x pegout_flow" where
  "map_octx g f = f \<lparr> of_state := (of_state f) \<lparr> os_ctx := g (octx f) \<rparr> \<rparr>"

definition set_po_step :: "pegout_steps \<Rightarrow> 'x pegout_flow \<Rightarrow> 'x pegout_flow" where
  "set_po_step s f = f \<lparr> of_state := (of_state f) \<lparr> os_step := s \<rparr> \<rparr>"

section \<open>Creation and persistence\<close>

definition flow_id_from_pegout_requested_tx_hash :: "'x pegout_env \<Rightarrow> h256 \<Rightarrow> uuid" where
  "flow_id_from_pegout_requested_tx_hash env t = flow_id_from_tx (oe_sha256 env) ''pegout_flow'' (be_word 32 t)"

definition po_build_log_id :: "'x pegout_env \<Rightarrow> pegout_state \<Rightarrow> string" where
  "po_build_log_id env st =
     oe_show_uuid env (os_flow_id st) @ '' ('' @ oe_show_hash env (oc_pegout_requested_tx_hash (os_ctx st)) @ '')''"

definition pegout_flow_new ::
  "'x pegout_env \<Rightarrow> pegout_requested \<Rightarrow> h256 \<Rightarrow> 'x pegout_trace \<Rightarrow> pegout_error + 'x pegout_flow" where
  "pegout_flow_new env requested tx_hash trace =
     (let fid = flow_id_from_pegout_requested_tx_hash env tx_hash
      in case committee_id_try_from (pq_committee requested) of
           Inl _ \<Rightarrow> Inl (CommitteeIdTooLarge (pq_committee requested))
         | Inr committee_uuid \<Rightarrow>
             let st = \<lparr> os_flow_id = fid, os_log_id = '''', os_step = Po_WaitPegoutRequested,
                    os_ctx = \<lparr> oc_pegout_requested = requested, oc_pegout_requested_tx_hash = tx_hash,
                      oc_bitvmx_protocol_id =
                        user_take_protocol_id (oe_sha256 env) committee_uuid (pq_slot_id requested),
                      oc_my_p2p_address = None, oc_committee_output = None, oc_peg_out_accepted = None,
                      oc_spv_proof = None, oc_pegout_registered = None, oc_pegout_registered_tx = None,
                      oc_transaction_status = None \<rparr>,
                    os_created_at = Some (oe_now env trace) \<rparr>
             in Inr \<lparr> of_state = st \<lparr> os_log_id := po_build_log_id env st \<rparr>, of_trace = trace \<rparr>)"

definition po_from_saved_state :: "'x pegout_env \<Rightarrow> pegout_state \<Rightarrow> 'x pegout_trace \<Rightarrow> 'x pegout_flow" where
  "po_from_saved_state env st trace =
     \<lparr> of_state = st \<lparr> os_log_id := po_build_log_id env st \<rparr>, of_trace = trace \<rparr>"

definition po_persist_state :: "'x pegout_env \<Rightarrow> ('x, unit) pegout_op" where
  "po_persist_state env = fbind (fget of_state) (\<lambda>st.
     po_perform_ok (\<lambda>t. oe_save env t st) (PoSaved (os_flow_id st) st) PoStoreFailed)"

definition po_record_completion_metrics :: "('x, unit) pegout_op" where
  "po_record_completion_metrics f =
     (case po_perform (\<lambda>_. ()) (\<lambda>_. CountedPegout (pq_request_amount (oc_pegout_requested (octx f)))) f of
        (_, g) \<Rightarrow> (Inr (), g))"

definition get_user_take_txid :: "pegout_context \<Rightarrow> txid option" where
  "get_user_take_txid c = map_option pa_user_take_txid (oc_peg_out_accepted c)"

definition po_is_terminal :: "pegout_state \<Rightarrow> bool" where
  "po_is_terminal st = (os_step st = Po_Done \<or> os_step st = Po_Failed)"

section \<open>Messages to BitVMX\<close>

definition po_send_bitvmx_msg :: "'x pegout_env \<Rightarrow> incoming_bitvmx_api_messages \<Rightarrow> ('x, unit) pegout_op" where
  "po_send_bitvmx_msg env m = po_perform_ok (\<lambda>t. oe_send env t m) (PoSent m) PoBrokerFailed"

definition po_request_bitvmx_comm_info :: "'x pegout_env \<Rightarrow> ('x, unit) pegout_op" where
  "po_request_bitvmx_comm_info env = fbind (fget (\<lambda>f. oe_new_v4 env (of_trace f))) (\<lambda>req_id.
     po_send_bitvmx_msg env (GetCommInfo req_id))"

definition USER_TAKE_TX :: string where "USER_TAKE_TX = ''USER_TAKE_TX''"
definition PROGRAM_TYPE_USER_TAKE :: string where "PROGRAM_TYPE_USER_TAKE = ''take''"
definition PEGOUT_COMPLETED_VAR_NAME :: string where "PEGOUT_COMPLETED_VAR_NAME = ''PEG_OUT_COMPLETED''"
definition PEGOUT_REQUEST :: string where "PEGOUT_REQUEST = ''pegout_request''"
definition PEGOUT_ACCEPTED_NAME :: string where "PEGOUT_ACCEPTED_NAME = ''pegout_accepted''"

definition po_dispatch_transaction :: "'x pegout_env \<Rightarrow> ('x, unit) pegout_op" where
  "po_dispatch_transaction env = fbind (fget octx) (\<lambda>c.
     po_send_bitvmx_msg env (DispatchTransactionName (oc_bitvmx_protocol_id c) USER_TAKE_TX))"

definition po_request_transaction_status :: "'x pegout_env \<Rightarrow> ('x, unit) pegout_op" where
  "po_request_transaction_status env = fbind (fget octx) (\<lambda>c.
     fbind (fok_or (get_user_take_txid c) ExpectedUserTakeTxidNotFound) (\<lambda>tx_id.
     po_send_bitvmx_msg env (GetTransaction (oc_bitvmx_protocol_id c) tx_id)))"

definition po_request_spv_proof :: "'x pegout_env \<Rightarrow> ('x, unit) pegout_op" where
  "po_request_spv_proof env = fbind (fget octx) (\<lambda>c.
     fbind (fok_or (get_user_take_txid c) ExpectedUserTakeTxidNotFound) (\<lambda>tx_id.
     po_send_bitvmx_msg env (GetSPVProof tx_id)))"

definition request_pegout_accepted_var :: "'x pegout_env \<Rightarrow> ('x, unit) pegout_op" where
  "request_pegout_accepted_var env = fbind (fget octx) (\<lambda>c.
     po_send_bitvmx_msg env (GetVar (oc_bitvmx_protocol_id c) PEGOUT_ACCEPTED_NAME))"

definition redrive_pending_bitvmx_request :: "'x pegout_env \<Rightarrow> ('x, unit) pegout_op" where
  "redrive_pending_bitvmx_request env = fbind (fget po_step) (\<lambda>s.
     case s of
       Po_PrepareUserTakeSetup \<Rightarrow> request_pegout_accepted_var env
     | Po_GetCommInfoAuthoritativeCheckpoint \<Rightarrow> po_request_bitvmx_comm_info env
     | Po_RequestUserTakeSpvProof \<Rightarrow> po_request_spv_proof env
     | _ \<Rightarrow> fret ())"

definition send_pegout_completed_to_bitvmx :: "'x pegout_env \<Rightarrow> pegout_registered \<Rightarrow> ('x, unit) pegout_op" where
  "send_pegout_completed_to_bitvmx env registered =
     fbind (fok_or (oe_registered_json env registered) PoSerializationFailed) (\<lambda>data.
     fbind (fget octx) (\<lambda>c.
     po_send_bitvmx_msg env (SetVar (oc_bitvmx_protocol_id c) PEGOUT_COMPLETED_VAR_NAME (VString data))))"

section \<open>Setup of the user-take program\<close>

definition po_get_committee_output :: "'x pegout_env \<Rightarrow> u128 \<Rightarrow> ('x, committee) pegout_op" where
  "po_get_committee_output env committee_id =
     po_perform_contract (\<lambda>t. oe_get_committee env t committee_id) (\<lambda>_. PoAskedCommittee committee_id)"

fun po_member_key_hashes :: "'x pegout_env \<Rightarrow> committee_member list \<Rightarrow> pub_key_hash list \<Rightarrow> ('x, pub_key_hash list) pegout_op" where
  "po_member_key_hashes env [] acc = fret acc"
| "po_member_key_hashes env (m # ms) acc =
     fbind (po_perform_contract (\<lambda>t. oe_get_member_public_keys env t (cm_member_address m))
        (\<lambda>_. PoAskedPublicKeys (cm_member_address m))) (\<lambda>keys.
     fbind (fok_or (if COMM_KEY_INDEX < length keys then Some (keys ! COMM_KEY_INDEX) else None)
        (PoCommunicationKeyNotFound (cm_member_address m))) (\<lambda>key.
     po_member_key_hashes env ms (acc @ [key])))"

definition po_get_committee_pubkey_hashes :: "'x pegout_env \<Rightarrow> committee \<Rightarrow> ('x, pub_key_hash list) pegout_op" where
  "po_get_committee_pubkey_hashes env committee_output = po_member_key_hashes env (co_members committee_output) []"

fun po_read_addresses :: "'x pegout_env \<Rightarrow> slots list \<Rightarrow> pegout_error + string list" where
  "po_read_addresses env [] = Inr []"
| "po_read_addresses env (d # ds) =
     res_bind (case socket_addr_from_contracts (oe_net env) d of
                 Inl e \<Rightarrow> Inl (PoBadCommunicationData e)
               | Inr a \<Rightarrow> Inr (case a of None \<Rightarrow> '''' | Some addr \<Rightarrow> oe_show_socket env addr)) (\<lambda>s.
     res_bind (po_read_addresses env ds) (\<lambda>ss. Inr (s # ss)))"

definition get_committee_member_address :: "'x pegout_env \<Rightarrow> u128 \<Rightarrow> ('x, string list) pegout_op" where
  "get_committee_member_address env committee_id =
     fbind (po_perform_contract (\<lambda>t. oe_get_communication_data env t committee_id (oe_my_address env))
        (\<lambda>_. PoAskedCommunicationData committee_id (oe_my_address env))) (\<lambda>data. lift_res (po_read_addresses env data))"

definition po_build_take_aggregated_key :: "'x pegout_env \<Rightarrow> committee \<Rightarrow> pegout_error + public_key" where
  "po_build_take_aggregated_key env committee =
     ok_or (oe_public_key_from_slice env (co_aggregated_key committee)) PoBadAggregatedKey"

definition po_committee_id :: "pegout_requested \<Rightarrow> pegout_error + u128" where
  "po_committee_id event =
     (case committee_id_try_from (pq_committee event) of Inl _ \<Rightarrow> Inl (CommitteeIdTooLarge (pq_committee event)) | Inr c \<Rightarrow> Inr c)"

definition pegout_requested_to_bitvmx_request ::
  "'x pegout_env \<Rightarrow> pegout_requested \<Rightarrow> committee \<Rightarrow> pegout_error + peg_out_request" where
  "pegout_requested_to_bitvmx_request env event committee_output =
     res_bind (po_committee_id event) (\<lambda>committee_id.
     res_bind (if length (pq_user_pub_key event) = 33
               then ok_or (oe_public_key_from_slice env (pq_user_pub_key event)) BadUserPubKey
               else Inl (InvalidUserPubKeyLength (length (pq_user_pub_key event)))) (\<lambda>user_pubkey.
     res_bind (po_build_take_aggregated_key env committee_output) (\<lambda>take_aggregated_key.
     Inr \<lparr> pr_request_committee_id = committee_id, pr_slot_index = pq_slot_id event, pr_amount = pq_request_amount event,
           pr_pegout_id = be_word 32 (pq_signature_txid event), pr_user_pubkey = user_pubkey,
           pr_pegout_sighash = be_word 32 (pq_signature_hash event),
           pr_take_aggregated_key = take_aggregated_key \<rparr>)))"

definition send_pegout_requested_to_bitvmx :: "'x pegout_env \<Rightarrow> u128 \<Rightarrow> ('x, unit) pegout_op" where
  "send_pegout_requested_to_bitvmx env committee_id =
     fbind (po_get_committee_output env committee_id) (\<lambda>committee_output.
     fseq (fmod (map_octx (\<lambda>c. c \<lparr> oc_committee_output := Some committee_output \<rparr>)))
     (fbind (fget octx) (\<lambda>c.
      fbind (lift_res (pegout_requested_to_bitvmx_request env (oc_pegout_requested c) committee_output)) (\<lambda>data_to_send.
      fbind (fok_or (oe_request_json env data_to_send) PoSerializationFailed) (\<lambda>data.
      po_send_bitvmx_msg env (SetVar (oc_bitvmx_protocol_id c) PEGOUT_REQUEST (VString data)))))))"

definition po_send_setup_to_bitvmx :: "'x pegout_env \<Rightarrow> u128 \<Rightarrow> ('x, unit) pegout_op" where
  "po_send_setup_to_bitvmx env committee_id =
     fbind (fget octx) (\<lambda>c.
     fbind (fok_or (oc_committee_output c) PoCommitteeOutputNotAvailable) (\<lambda>committee_output.
     fbind (po_get_committee_pubkey_hashes env committee_output) (\<lambda>hashes.
     fbind (get_committee_member_address env committee_id) (\<lambda>addresses.
     fbind (fok_or (oc_my_p2p_address c) PoP2pAddressNotAvailable) (\<lambda>mine.
     fbind (lift_res (case build_communication_data (oe_parse_socket env)
                        (oe_show_socket env (ca_address mine)) addresses hashes of
                        Inl e \<Rightarrow> Inl (PoCommsFailed e) | Inr cs \<Rightarrow> Inr cs)) (\<lambda>comms_addresses.
     po_send_bitvmx_msg env (Setup (oc_bitvmx_protocol_id c) PROGRAM_TYPE_USER_TAKE comms_addresses 0)))))))"

definition communicate_pegout_requested_to_bitvmx :: "'x pegout_env \<Rightarrow> ('x, unit) pegout_op" where
  "communicate_pegout_requested_to_bitvmx env = fbind (fget octx) (\<lambda>c.
     fbind (lift_res (po_committee_id (oc_pegout_requested c))) (\<lambda>committee_id.
     fseq (send_pegout_requested_to_bitvmx env committee_id) (po_send_setup_to_bitvmx env committee_id)))"

section \<open>Contract calls\<close>

definition register_pegout :: "'x pegout_env \<Rightarrow> btc_tx_spv_proof \<Rightarrow> ('x, unit) pegout_op" where
  "register_pegout env proof f =
     (let input = from_spv_proof (bridge_text (oe_ops env)) proof
      in case invoke_contract_safe (oe_ops env) (oe_verifier env)
           (\<lambda>q. po_perform (\<lambda>t. oe_get_btc_confirmations env t q) (\<lambda>_. PoAskedConfirmations q)) proof
           (po_perform (\<lambda>t. oe_register_pegout env t input) (CalledRegisterPegout input)) f of
           (Inl e, g) \<Rightarrow> (Inl (PoContractFailed e), g)
         | (Inr _, g) \<Rightarrow> (Inr (), g))"

definition get_pegout_txid :: "'x pegout_env \<Rightarrow> pegout_context \<Rightarrow> string" where
  "get_pegout_txid env c = hex_encode (bridge_text (oe_ops env)) (be_word 32 (pq_signature_txid (oc_pegout_requested c)))"

definition trigger_operator_take :: "'x pegout_env \<Rightarrow> ('x, unit) pegout_op" where
  "trigger_operator_take env = fbind (fget octx) (\<lambda>c f.
     let pegout_txid = get_pegout_txid env c
     in case po_perform (\<lambda>t. oe_trigger_operator_take env t pegout_txid) (CalledTriggerOperatorTake pegout_txid) f of
          (Inl e, g) \<Rightarrow> (Inl (TriggerOperatorTakeFailed e), g)
        | (Inr _, g) \<Rightarrow> (Inr (), g))"

definition po_write_completion_marker :: "'x pegout_env \<Rightarrow> ('x, unit) pegout_op" where
  "po_write_completion_marker env = fbind (fget octx) (\<lambda>c.
     let r = oc_pegout_requested c;
         payload = \<lparr> om_request_pegout_tx_hash = oc_pegout_requested_tx_hash c, om_committee_id = pq_committee r,
           om_stream_id = pq_stream_id r, om_packet_number = pq_packet_number r, om_slot_id = pq_slot_id r,
           om_amount = pq_request_amount r, om_user_take_txid = get_user_take_txid c,
           om_registered_txid = oc_pegout_registered_tx c \<rparr>
     in if oe_file_signals env
        then po_perform_ok (\<lambda>t. oe_signal env t payload) (PoSignalled ''pegout'' (oc_bitvmx_protocol_id c) payload) PoSignalFailed
        else fret ())"

section \<open>Transitions\<close>

definition complete_with_confirmed_pegout_registration ::
  "'x pegout_env \<Rightarrow> pegout_registered \<Rightarrow> h256 \<Rightarrow> ('x, pegout_steps) pegout_op" where
  "complete_with_confirmed_pegout_registration env registered tx_hash = fbind (fget octx) (\<lambda>c.
     fbind (fok_or (get_user_take_txid c) ExpectedUserTakeTxidNotFound) (\<lambda>expected_tx_id.
     let registered_tx_id = fb_32_to_txid (pg_txid registered)
     in if registered_tx_id \<noteq> expected_tx_id
        then ffail (PegoutRegisteredTxidMismatch registered_tx_id expected_tx_id)
        else fseq (fmod (map_octx (\<lambda>c. c \<lparr> oc_pegout_registered := Some registered \<rparr>)))
            (fseq (fmod (map_octx (\<lambda>c. c \<lparr> oc_pegout_registered_tx := Some (oe_show_hash env tx_hash) \<rparr>)))
            (fseq (send_pegout_completed_to_bitvmx env registered) (fret Po_Done)))))"

definition confirm_user_take_transaction :: "transaction_status \<Rightarrow> ('x, pegout_steps) pegout_op" where
  "confirm_user_take_transaction tx_status = fbind (fget octx) (\<lambda>c.
     fbind (fok_or (get_user_take_txid c) ExpectedUserTakeTxidNotFound) (\<lambda>expected_tx_id.
     if ts_tx_id tx_status \<noteq> expected_tx_id then ffail (UserTakeStatusMismatch (ts_tx_id tx_status) expected_tx_id)
     else fseq (fmod (map_octx (\<lambda>c. c \<lparr> oc_transaction_status := Some tx_status \<rparr>))) (fret Po_RequestUserTakeSpvProof)))"

definition po_process_step_data :: "'x pegout_env \<Rightarrow> pegout_steps \<Rightarrow> pegout_step_data \<Rightarrow> ('x, pegout_steps) pegout_op" where
  "po_process_step_data env step data =
     (let invalid = ffail (PoInvalidStateTransition step data)
      in case data of
        Pd_PegoutRequested \<Rightarrow>
          if step = Po_WaitPegoutRequested then fret Po_GetCommInfoAuthoritativeCheckpoint else invalid
      | Pd_CommInfo comm_info \<Rightarrow>
          if step = Po_GetCommInfoAuthoritativeCheckpoint
          then fseq (fmod (map_octx (\<lambda>c. c \<lparr> oc_my_p2p_address := Some comm_info \<rparr>))) (fret Po_PrepareUserTakeSetup)
          else invalid
      | Pd_PegoutAccepted accepted \<Rightarrow>
          if step = Po_PrepareUserTakeSetup
          then fseq (fmod (map_octx (\<lambda>c. c \<lparr> oc_peg_out_accepted := Some accepted \<rparr>))) (fret Po_WaitUserTakeSignaturesReady)
          else invalid
      | Pd_UserTakeSignaturesReady \<Rightarrow>
          if step = Po_WaitUserTakeSignaturesReady
          then fret Po_DispatchUserTakeTransactionAllConvergeCheckpoint else invalid
      | Pd_UserTakeTransactionDispatched \<Rightarrow>
          if step = Po_DispatchUserTakeTransactionAllConvergeCheckpoint
          then fret Po_ConfirmUserTakeTransaction else invalid
      | Pd_TriggerOperatorTakeTimeout \<Rightarrow>
          if step = Po_WaitUserTakeSignaturesReady then fret Po_TriggerOperatorTake
          else if step = Po_TriggerOperatorTake then fret Po_Done else invalid
      | Pd_TransactionConfirmed tx_status \<Rightarrow>
          if step = Po_ConfirmUserTakeTransaction then confirm_user_take_transaction tx_status else invalid
      | Pd_SpvProof proof \<Rightarrow>
          if step = Po_RequestUserTakeSpvProof
          then fseq (fmod (map_octx (\<lambda>c. c \<lparr> oc_spv_proof := Some proof \<rparr>))) (fret Po_RegisterPegout)
          else invalid
      | Pd_RetryRegisterPegout \<Rightarrow> if step = Po_RegisterPegout then fret Po_RegisterPegout else invalid
      | Pd_PegoutRegistered registered tx_hash \<Rightarrow>
          if allows_fast_forward_to_pegout_registered step
          then complete_with_confirmed_pegout_registration env registered tx_hash else invalid)"

text \<open>
  The entry action of a step; its value tells whether \<^verbatim>\<open>start_step\<close> goes on to save the flow. It
  does not after a successful call of \<^verbatim>\<open>triggerOperatorTake\<close>.
\<close>

definition po_entry_action ::
  "'x pegout_env \<Rightarrow> (pegout_step_data \<Rightarrow> ('x, unit) pegout_op) \<Rightarrow> pegout_steps \<Rightarrow> ('x, bool) pegout_op" where
  "po_entry_action env complete next_step =
     (case next_step of
        Po_WaitPegoutRequested \<Rightarrow> ffail PoUnreachableInitStep
      | Po_GetCommInfoAuthoritativeCheckpoint \<Rightarrow> fseq (po_request_bitvmx_comm_info env) (fret True)
      | Po_PrepareUserTakeSetup \<Rightarrow> fseq (communicate_pegout_requested_to_bitvmx env) (fret True)
      | Po_WaitUserTakeSignaturesReady \<Rightarrow> fret True
      | Po_DispatchUserTakeTransactionAllConvergeCheckpoint \<Rightarrow>
          fseq (po_dispatch_transaction env) (fseq (complete Pd_UserTakeTransactionDispatched) (fret True))
      | Po_TriggerOperatorTake \<Rightarrow> (\<lambda>f. case trigger_operator_take env f of
            (Inr _, g) \<Rightarrow> (Inr False, g)
          | (Inl _, g) \<Rightarrow> (Inr True, g))
      | Po_ConfirmUserTakeTransaction \<Rightarrow> fret True
      | Po_RequestUserTakeSpvProof \<Rightarrow> fseq (po_request_spv_proof env) (fret True)
      | Po_RegisterPegout \<Rightarrow> fbind (fget octx) (\<lambda>c.
          fbind (fok_or (oc_spv_proof c) PoSpvProofNotAvailable) (\<lambda>proof.
          fseq (register_pegout env proof) (fret True)))
      | Po_Done \<Rightarrow> fbind (fget octx) (\<lambda>c.
          if oc_pegout_registered_tx c \<noteq> None then fseq (po_write_completion_marker env) (fret True) else fret True)
      | Po_Failed \<Rightarrow> fret True)"

primrec po_start_step_at :: "nat \<Rightarrow> 'x pegout_env \<Rightarrow> pegout_steps \<Rightarrow> ('x, unit) pegout_op" where
  "po_start_step_at 0 env next_step = ffail PoOutOfFuel"
| "po_start_step_at (Suc n) env next_step =
     fseq (fmod (set_po_step next_step))
     (fbind (fget (\<lambda>f. next_step = Po_Done \<and> oc_pegout_registered_tx (octx f) \<noteq> None)) (\<lambda>record_completion_metrics.
      fseq (if next_step = Po_RegisterPegout then po_persist_state env else fret ())
     (fbind (po_entry_action env
              (\<lambda>data. fbind (fget po_step) (\<lambda>current_step.
                 fbind (po_process_step_data env current_step data) (po_start_step_at n env))) next_step) (\<lambda>go_on.
      if \<not> go_on then fret ()
      else fseq (po_persist_state env)
             (if record_completion_metrics then po_record_completion_metrics else fret ())))))"

text \<open>Two nested calls are enough, as for the pegin flow.\<close>

definition po_start_step :: "'x pegout_env \<Rightarrow> pegout_steps \<Rightarrow> ('x, unit) pegout_op" where
  "po_start_step = po_start_step_at 2"

definition po_complete_step :: "'x pegout_env \<Rightarrow> pegout_step_data \<Rightarrow> ('x, unit) pegout_op" where
  "po_complete_step env data = fbind (fget po_step) (\<lambda>current_step.
     fbind (po_process_step_data env current_step data) (po_start_step env))"

definition po_mark_failed :: "'x pegout_env \<Rightarrow> ('x, unit) pegout_op" where
  "po_mark_failed env = po_start_step env Po_Failed"

end
