(* ===== verification/Pegout_Safety.thy ===== *)
theory Pegout_Safety
  imports Pegout_Flow Journal
begin

text \<open>
  What the pegout state machine guarantees in every state it can reach: the data its steps rely on,
  the order of saves and contract calls, and its moves. The rules for operations that only exchange
  messages are those of the journal contract.
\<close>

section \<open>What is known at a step\<close>

primrec po_stage :: "pegout_steps \<Rightarrow> nat" where
  "po_stage Po_Failed = 0"
| "po_stage Po_WaitPegoutRequested = 1"
| "po_stage Po_GetCommInfoAuthoritativeCheckpoint = 2"
| "po_stage Po_PrepareUserTakeSetup = 3"
| "po_stage Po_WaitUserTakeSignaturesReady = 4"
| "po_stage Po_TriggerOperatorTake = 5"
| "po_stage Po_DispatchUserTakeTransactionAllConvergeCheckpoint = 6"
| "po_stage Po_ConfirmUserTakeTransaction = 7"
| "po_stage Po_RequestUserTakeSpvProof = 8"
| "po_stage Po_RegisterPegout = 9"
| "po_stage Po_Done = 10"

definition program_known :: "'x pegout_env \<Rightarrow> pegout_context \<Rightarrow> bool" where
  "program_known env c \<longleftrightarrow>
     (\<exists>cid. committee_id_try_from (pq_committee (oc_pegout_requested c)) = Inr cid \<and>
        oc_bitvmx_protocol_id c = user_take_protocol_id (oe_sha256 env) cid (pq_slot_id (oc_pegout_requested c)))"

definition user_take_confirmed :: "pegout_context \<Rightarrow> bool" where
  "user_take_confirmed c \<longleftrightarrow>
     (\<exists>t a. oc_transaction_status c = Some t \<and> oc_peg_out_accepted c = Some a \<and> ts_tx_id t = pa_user_take_txid a)"

definition registration_matches :: "pegout_context \<Rightarrow> bool" where
  "registration_matches c \<longleftrightarrow>
     (\<exists>r a. oc_pegout_registered c = Some r \<and> oc_peg_out_accepted c = Some a \<and>
            fb_32_to_txid (pg_txid r) = pa_user_take_txid a)"

definition triggered :: "'x pegout_env \<Rightarrow> 'x pegout_action set \<Rightarrow> pegout_context \<Rightarrow> bool" where
  "triggered env S c \<longleftrightarrow> (\<exists>r. CalledTriggerOperatorTake (get_pegout_txid env c) r \<in> S)"

definition po_data :: "'x pegout_env \<Rightarrow> pegout_context \<Rightarrow> pegout_steps \<Rightarrow> bool" where
  "po_data env c s \<longleftrightarrow>
     program_known env c \<and>
     (3 \<le> po_stage s \<longrightarrow> oc_my_p2p_address c \<noteq> None) \<and>
     (4 \<le> po_stage s \<longrightarrow> oc_peg_out_accepted c \<noteq> None) \<and>
     (8 \<le> po_stage s \<and> po_stage s \<le> 9 \<longrightarrow> user_take_confirmed c) \<and>
     (po_stage s = 9 \<longrightarrow> oc_spv_proof c \<noteq> None) \<and>
     (1 \<le> po_stage s \<and> po_stage s \<le> 5 \<longrightarrow> oc_pegout_registered_tx c = None) \<and>
     (oc_pegout_registered_tx c \<noteq> None \<longrightarrow> registration_matches c)"

definition po_holds :: "'x pegout_env \<Rightarrow> 'x pegout_action set \<Rightarrow> pegout_context \<Rightarrow> pegout_steps \<Rightarrow> bool" where
  "po_holds env S c s \<longleftrightarrow> po_data env c s \<and>
     (s = Po_TriggerOperatorTake \<or> s = Po_Done \<and> oc_pegout_registered_tx c = None \<longrightarrow> triggered env S c)"

definition po_state_inv :: "'x pegout_env \<Rightarrow> 'x pegout_action set \<Rightarrow> pegout_state \<Rightarrow> bool" where
  "po_state_inv env S st = po_holds env S (os_ctx st) (os_step st)"

lemma po_state_inv_mono: "S \<subseteq> T \<Longrightarrow> po_state_inv env S st \<Longrightarrow> po_state_inv env T st"
  unfolding po_state_inv_def po_holds_def triggered_def by blast

text \<open>What must have been recorded before an action.\<close>

fun po_justified :: "'x pegout_env \<Rightarrow> 'x pegout_action set \<Rightarrow> 'x pegout_action \<Rightarrow> bool" where
  "po_justified env before (PoSaved fid st ok) \<longleftrightarrow> fid = os_flow_id st \<and> po_state_inv env before st"
| "po_justified env before (CalledRegisterPegout input r) \<longleftrightarrow>
     (\<exists>st proof. PoSaved (os_flow_id st) st True \<in> before \<and> os_step st = Po_RegisterPegout \<and>
        oc_spv_proof (os_ctx st) = Some proof \<and> input = from_spv_proof (bridge_text (oe_ops env)) proof)"
| "po_justified env before (CountedPegout amount) \<longleftrightarrow>
     (\<exists>st. PoSaved (os_flow_id st) st True \<in> before \<and> os_step st = Po_Done \<and>
        oc_pegout_registered_tx (os_ctx st) \<noteq> None \<and> amount = pq_request_amount (oc_pegout_requested (os_ctx st)))"
| "po_justified env before a \<longleftrightarrow> True"

text \<open>Errors that would mean that a step was entered without its data.\<close>

fun po_lacks :: "pegout_error \<Rightarrow> bool" where
  "po_lacks PoUnreachableInitStep = True"
| "po_lacks PoOutOfFuel = True"
| "po_lacks PoSpvProofNotAvailable = True"
| "po_lacks ExpectedUserTakeTxidNotFound = True"
| "po_lacks (CommitteeIdTooLarge c) = True"
| "po_lacks PoCommitteeOutputNotAvailable = True"
| "po_lacks PoP2pAddressNotAvailable = True"
| "po_lacks e = False"

definition po_note :: "'x pegout_action \<Rightarrow> 'x pegout_flow \<Rightarrow> 'x pegout_flow" where
  "po_note a f = f \<lparr> of_trace := of_trace f @ [a] \<rparr>"

interpretation pj: journal of_trace of_state po_note "po_justified env" po_lacks for env
  by unfold_locales (simp_all add: po_note_def)

lemmas po_quiet_facts = pj.quiet_state pj.quiet_journaled

section \<open>Exchanges\<close>

lemma po_octx_step [simp]:
  "octx (po_note a f) = octx f" "po_step (po_note a f) = po_step f"
  "octx (set_po_step s f) = octx f" "po_step (set_po_step s f) = s" "of_trace (set_po_step s f) = of_trace f"
  "octx (map_octx g f) = g (octx f)" "po_step (map_octx g f) = po_step f" "of_trace (map_octx g f) = of_trace f"
  by (simp_all add: octx_def po_step_def po_note_def set_po_step_def map_octx_def)

lemma quiet_octx: "pj.quiet env f g \<Longrightarrow> octx g = octx f" "pj.quiet env f g \<Longrightarrow> po_step g = po_step f"
  by (simp_all add: pj.quiet_def octx_def po_step_def)

lemma perform_ok_safe:
  "pj.journaled env (of_trace f) \<Longrightarrow> (\<And>ok. po_justified env (set (of_trace f)) (act ok)) \<Longrightarrow> \<not> po_lacks e \<Longrightarrow>
     pj.safe env (po_perform_ok answer act e) f"
  by (rule pj.safe_exchange [where a = "act (answer (of_trace f))"])
    (auto simp: po_perform_ok_def po_perform_def Let_def po_note_def ensure_def split: if_splits)

lemma perform_contract_safe:
  "pj.journaled env (of_trace f) \<Longrightarrow> (\<And>r. po_justified env (set (of_trace f)) (act r)) \<Longrightarrow>
     pj.safe env (po_perform_contract answer act) f"
  by (rule pj.safe_exchange [where a = "act (answer (of_trace f))"])
    (auto simp: po_perform_contract_def po_perform_def Let_def po_note_def split: sum.splits)

lemma po_send_safe: "pj.journaled env (of_trace f) \<Longrightarrow> pj.safe env (po_send_bitvmx_msg env m) f"
  unfolding po_send_bitvmx_msg_def by (rule perform_ok_safe) simp_all

lemma po_persist_safe:
  "pj.journaled env (of_trace f) \<Longrightarrow> po_state_inv env (set (of_trace f)) (of_state f) \<Longrightarrow>
     pj.safe env (po_persist_state env) f"
  unfolding po_persist_state_def by (intro pj.safe_get perform_ok_safe) simp_all

lemma po_requests_safe:
  assumes "pj.journaled env (of_trace f)"
  shows "pj.safe env (po_request_bitvmx_comm_info env) f" "pj.safe env (po_dispatch_transaction env) f"
    "pj.safe env (request_pegout_accepted_var env) f" "pj.safe env (send_pegout_completed_to_bitvmx env r) f"
  unfolding po_request_bitvmx_comm_info_def po_dispatch_transaction_def request_pegout_accepted_var_def
    send_pegout_completed_to_bitvmx_def
  by (intro pj.safe_get pj.safe_ok_or_error po_send_safe assms; simp)+

lemma po_txid_requests_safe:
  assumes "pj.journaled env (of_trace f)" and "oc_peg_out_accepted (octx f) \<noteq> None"
  shows "pj.safe env (po_request_transaction_status env) f" "pj.safe env (po_request_spv_proof env) f"
proof -
  obtain a where "get_user_take_txid (octx f) = Some a" using assms(2) by (auto simp: get_user_take_txid_def)
  then show "pj.safe env (po_request_transaction_status env) f" "pj.safe env (po_request_spv_proof env) f"
    unfolding po_request_transaction_status_def po_request_spv_proof_def
    by (intro pj.safe_get pj.safe_ok_or [of _ a] po_send_safe assms(1); simp)+
qed

lemma po_marker_safe: "pj.journaled env (of_trace f) \<Longrightarrow> pj.safe env (po_write_completion_marker env) f"
  unfolding po_write_completion_marker_def Let_def
  by (cases "oe_file_signals env") (auto intro!: pj.safe_get perform_ok_safe pj.safe_ret)

lemma register_pegout_safe:
  assumes j: "pj.journaled env (of_trace f)" and "PoSaved (os_flow_id st) st True \<in> set (of_trace f)"
    and "os_step st = Po_RegisterPegout" and "oc_spv_proof (os_ctx st) = Some proof"
  shows "pj.safe env (register_pegout env proof) f"
proof -
  let ?input = "from_spv_proof (bridge_text (oe_ops env)) proof"
  have asked: "pj.quiet env f (po_note (PoAskedConfirmations q) f)" for q using j by simp
  have called: "pj.quiet env f (po_note (CalledRegisterPegout ?input r) g)" if "pj.quiet env f g" for g r
  proof -
    have "pj.quiet env g (po_note (CalledRegisterPegout ?input r) g)"
      using pj.quiet_journaled [OF that] pj.quiet_grows [OF that] assms(2-4) by auto
    with that show ?thesis by (rule pj.quiet_trans)
  qed
  let ?m = "invoke_contract_safe (oe_ops env) (oe_verifier env)
           (\<lambda>q. po_perform (\<lambda>t. oe_get_btc_confirmations env t q) (\<lambda>_. PoAskedConfirmations q)) proof
           (po_perform (\<lambda>t. oe_register_pegout env t ?input) (CalledRegisterPegout ?input))"
  have "pj.quiet env f (snd (?m f))"
    using j asked called [of f] called [OF asked]
    by (simp add: invoke_contract_safe_def verify_confirmations_def verify_btc_confirmations_def
        fbind_def ffail_def po_perform_def Let_def po_note_def
        split: native_bridge_verifier.splits sum.splits verification_status.splits option.splits)
  moreover obtain r g where "?m f = (r, g)" by fastforce
  ultimately show ?thesis by (cases r) (simp_all add: register_pegout_def pj.safe_def wp_def Let_def)
qed

section \<open>At a step\<close>

definition at_po :: "'x pegout_env \<Rightarrow> pegout_steps \<Rightarrow> 'x pegout_flow \<Rightarrow> bool" where
  "at_po env s f \<longleftrightarrow> pj.journaled env (of_trace f) \<and> po_state_inv env (set (of_trace f)) (of_state f) \<and> po_step f = s"

definition po_inv :: "'x pegout_env \<Rightarrow> 'x pegout_flow \<Rightarrow> bool" where
  "po_inv env f \<longleftrightarrow> pj.journaled env (of_trace f) \<and> po_state_inv env (set (of_trace f)) (of_state f)"

lemma at_po_inv: "at_po env s f \<longleftrightarrow> po_inv env f \<and> po_step f = s"
  by (auto simp: at_po_def po_inv_def)

lemma at_po_journaled: "at_po env s f \<Longrightarrow> pj.journaled env (of_trace f)"
  by (simp add: at_po_def)

lemma po_state_inv_iff: "po_state_inv env S (of_state f) \<longleftrightarrow> po_holds env S (octx f) (po_step f)"
  by (simp add: po_state_inv_def octx_def po_step_def)

lemma at_po_holds: "at_po env s f \<Longrightarrow> po_holds env (set (of_trace f)) (octx f) s"
  by (auto simp: at_po_def po_state_inv_iff)

lemma at_po_data: "at_po env s f \<Longrightarrow> po_data env (octx f) s"
  using at_po_holds by (auto simp: po_holds_def)

lemma safe_at_po:
  assumes "pj.safe env m f" and "at_po env s f"
  shows "wp m (\<lambda>_ g. at_po env s g \<and> of_state g = of_state f \<and> set (of_trace f) \<subseteq> set (of_trace g))
     (\<lambda>e g. at_po env s g \<and> \<not> po_lacks e) f"
proof -
  have "wp m (\<lambda>_ g. pj.quiet env f g \<and> (po_state_inv env (set (of_trace g)) (of_state g) \<and> os_step (of_state g) = s))
     (\<lambda>e g. pj.quiet env f g \<and> (po_state_inv env (set (of_trace g)) (of_state g) \<and> os_step (of_state g) = s) \<and> \<not> po_lacks e) f"
    using assms by (intro pj.safe_keeps [where P = "\<lambda>st S. po_state_inv env S st \<and> os_step st = s"])
      (auto simp: at_po_def po_step_def intro: po_state_inv_mono)
  then show ?thesis
    by (rule wp_mono) (auto simp: at_po_def po_step_def pj.quiet_journaled pj.quiet_state dest: pj.quiet_grows)
qed

section \<open>Setup\<close>

lemma po_setup_errors:
  "po_read_addresses env ds = Inl e \<Longrightarrow> \<not> po_lacks e"
  by (induction env ds rule: po_read_addresses.induct) (auto simp: res_bind_Inl_iff split: sum.splits)

lemma request_errors:
  "program_known env c \<Longrightarrow> pegout_requested_to_bitvmx_request env (oc_pegout_requested c) co = Inl e \<Longrightarrow> \<not> po_lacks e"
  by (auto simp: pegout_requested_to_bitvmx_request_def po_build_take_aggregated_key_def po_committee_id_def program_known_def
      res_bind_Inl_iff ok_or_Inl_iff split: if_splits sum.splits)

lemma po_lift_safe:
  "pj.journaled env (of_trace f) \<Longrightarrow> (\<And>e. r = Inl e \<Longrightarrow> \<not> po_lacks e) \<Longrightarrow> (\<And>x. r = Inr x \<Longrightarrow> pj.safe env (k x) f) \<Longrightarrow>
     pj.safe env (fbind (lift_res r) k) f"
  by (auto simp: pj.safe_def wp_simps split: sum.splits)

lemma po_member_keys_safe: "pj.journaled env (of_trace f) \<Longrightarrow> pj.safe env (po_member_key_hashes env ms acc) f"
proof (induction env ms acc arbitrary: f rule: po_member_key_hashes.induct)
  case (2 env m ms acc)
  show ?case
    unfolding po_member_key_hashes.simps
    by (rule pj.safe_bind [OF perform_contract_safe])
      (use 2 in \<open>auto intro!: pj.safe_ok_or_error 2(1) simp: po_quiet_facts\<close>)
qed (simp add: pj.safe_ret)

lemma po_setup_safe:
  assumes j: "pj.journaled env (of_trace f)" and co: "oc_committee_output (octx f) = Some co"
    and p2p: "oc_my_p2p_address (octx f) = Some mine"
  shows "pj.safe env (po_send_setup_to_bitvmx env cid) f"
proof -
  have hashes: "pj.safe env (po_get_committee_pubkey_hashes env co) f"
    unfolding po_get_committee_pubkey_hashes_def by (rule po_member_keys_safe [OF j])
  have addresses: "pj.safe env (get_committee_member_address env cid) g" if "pj.quiet env f g" for g
    unfolding get_committee_member_address_def
    by (rule pj.safe_bind [OF perform_contract_safe])
      (use that in \<open>auto simp: po_quiet_facts intro!: pj.safe_result dest: po_setup_errors\<close>)
  show ?thesis
    unfolding po_send_setup_to_bitvmx_def
    by (intro pj.safe_get pj.safe_ok_or [OF co] pj.safe_bind [OF hashes] pj.safe_bind [OF addresses] pj.safe_ok_or [OF p2p]
        po_lift_safe po_send_safe)
      (auto simp: po_quiet_facts split: sum.splits)
qed

lemma at_prepare_committee:
  "at_po env Po_PrepareUserTakeSetup f \<Longrightarrow>
     at_po env Po_PrepareUserTakeSetup (map_octx (\<lambda>c. c \<lparr> oc_committee_output := Some co \<rparr>) f)"
  by (simp add: at_po_def po_state_inv_iff po_holds_def po_data_def program_known_def registration_matches_def)

lemma communicate_at:
  assumes at: "at_po env Po_PrepareUserTakeSetup f"
  shows "wp (communicate_pegout_requested_to_bitvmx env) (\<lambda>_. at_po env Po_PrepareUserTakeSetup)
     (\<lambda>e g. at_po env Po_PrepareUserTakeSetup g \<and> \<not> po_lacks e) f"
proof -
  let ?s = Po_PrepareUserTakeSetup and ?E = "\<lambda>e g. at_po env Po_PrepareUserTakeSetup g \<and> \<not> po_lacks e"
  obtain cid where cid: "po_committee_id (oc_pegout_requested (octx f)) = Inr cid"
    using at_po_data [OF at] by (auto simp: po_data_def program_known_def po_committee_id_def)
  have sets_up: "wp (po_send_setup_to_bitvmx env cid) (\<lambda>_. at_po env ?s) ?E g"
    if g: "at_po env ?s g" and "oc_committee_output (octx g) = Some co" for g co
  proof -
    obtain mine where "oc_my_p2p_address (octx g) = Some mine" using at_po_data [OF g] by (auto simp: po_data_def)
    from safe_at_po [OF po_setup_safe [OF at_po_journaled [OF g] that(2) this] g]
    show ?thesis by (rule wp_mono) auto
  qed
  let ?rest = "\<lambda>co. fbind (fget octx) (\<lambda>c.
      fbind (lift_res (pegout_requested_to_bitvmx_request env (oc_pegout_requested c) co)) (\<lambda>data_to_send.
      fbind (fok_or (oe_request_json env data_to_send) PoSerializationFailed) (\<lambda>data.
      po_send_bitvmx_msg env (SetVar (oc_bitvmx_protocol_id c) PEGOUT_REQUEST (VString data)))))"
  have rest: "wp (?rest co) (\<lambda>_. wp (po_send_setup_to_bitvmx env cid) (\<lambda>_. at_po env ?s) ?E) ?E g"
    if g: "at_po env ?s g" and co: "oc_committee_output (octx g) = Some co" for g co
  proof -
    have "pj.safe env (?rest co) g"
      using at_po_data [OF g]
      by (intro pj.safe_get po_lift_safe pj.safe_ok_or_error po_send_safe at_po_journaled [OF g])
        (auto dest: request_errors simp: po_data_def)
    from safe_at_po [OF this g] show ?thesis
      by (rule wp_mono) (use co in \<open>auto intro!: sets_up simp: octx_def\<close>)
  qed
  have asked: "wp (po_get_committee_output env cid) (\<lambda>_. at_po env ?s) ?E f"
    unfolding po_get_committee_output_def
    using safe_at_po [OF perform_contract_safe [OF at_po_journaled [OF at], of "\<lambda>_. PoAskedCommittee cid"] at]
    by (rule wp_mono) auto
  have "wp (send_pegout_requested_to_bitvmx env cid) (\<lambda>_. wp (po_send_setup_to_bitvmx env cid) (\<lambda>_. at_po env ?s) ?E) ?E f"
    unfolding send_pegout_requested_to_bitvmx_def wp_bind [of "po_get_committee_output env cid"] wp_seq wp_basic
    using asked by (rule wp_mono) (auto intro!: rest at_prepare_committee)
  then show ?thesis
    by (simp add: communicate_pegout_requested_to_bitvmx_def wp_bind wp_basic wp_lift_res wp_seq cid)
qed

section \<open>Transitions\<close>

definition po_edges :: "(pegout_steps \<times> pegout_steps) set" where
  "po_edges =
     {(Po_WaitPegoutRequested, Po_GetCommInfoAuthoritativeCheckpoint),
      (Po_GetCommInfoAuthoritativeCheckpoint, Po_PrepareUserTakeSetup),
      (Po_PrepareUserTakeSetup, Po_WaitUserTakeSignaturesReady),
      (Po_WaitUserTakeSignaturesReady, Po_DispatchUserTakeTransactionAllConvergeCheckpoint),
      (Po_WaitUserTakeSignaturesReady, Po_TriggerOperatorTake),
      (Po_DispatchUserTakeTransactionAllConvergeCheckpoint, Po_ConfirmUserTakeTransaction),
      (Po_ConfirmUserTakeTransaction, Po_RequestUserTakeSpvProof),
      (Po_RequestUserTakeSpvProof, Po_RegisterPegout),
      (Po_RegisterPegout, Po_RegisterPegout),
      (Po_TriggerOperatorTake, Po_Done),
      (Po_DispatchUserTakeTransactionAllConvergeCheckpoint, Po_Done),
      (Po_ConfirmUserTakeTransaction, Po_Done),
      (Po_RequestUserTakeSpvProof, Po_Done),
      (Po_RegisterPegout, Po_Done)}"

text \<open>Between the moment a step is chosen and the moment it is entered.\<close>

definition po_ready :: "'x pegout_env \<Rightarrow> pegout_steps \<Rightarrow> 'x pegout_flow \<Rightarrow> bool" where
  "po_ready env s f \<longleftrightarrow> pj.journaled env (of_trace f) \<and> s \<noteq> Po_WaitPegoutRequested \<and> po_data env (octx f) s \<and>
     (s = Po_Done \<and> oc_pegout_registered_tx (octx f) = None \<longrightarrow> triggered env (set (of_trace f)) (octx f))"

definition po_chosen :: "'x pegout_env \<Rightarrow> 'x pegout_flow \<Rightarrow> pegout_steps \<Rightarrow> 'x pegout_flow \<Rightarrow> bool" where
  "po_chosen env f s g \<longleftrightarrow> po_ready env s g \<and> (po_step f, s) \<in> po_edges"

definition po_refused :: "'x pegout_env \<Rightarrow> 'x pegout_flow \<Rightarrow> pegout_error \<Rightarrow> 'x pegout_flow \<Rightarrow> bool" where
  "po_refused env f e g \<longleftrightarrow> at_po env (po_step f) g \<and> \<not> po_lacks e"

lemma po_refused_invalid: "at_po env s f \<Longrightarrow> po_refused env f (PoInvalidStateTransition s' d) f"
  by (simp add: po_refused_def at_po_def)

lemmas po_choice_defs = po_chosen_def po_ready_def po_edges_def po_data_def program_known_def

lemma po_chosen_plain:
  assumes "at_po env s f"
  shows "s = Po_WaitPegoutRequested \<Longrightarrow> po_chosen env f Po_GetCommInfoAuthoritativeCheckpoint f"
    and "s = Po_WaitUserTakeSignaturesReady \<Longrightarrow> po_chosen env f Po_DispatchUserTakeTransactionAllConvergeCheckpoint f"
    and "s = Po_WaitUserTakeSignaturesReady \<Longrightarrow> po_chosen env f Po_TriggerOperatorTake f"
    and "s = Po_DispatchUserTakeTransactionAllConvergeCheckpoint \<Longrightarrow> po_chosen env f Po_ConfirmUserTakeTransaction f"
    and "s = Po_RegisterPegout \<Longrightarrow> po_chosen env f Po_RegisterPegout f"
  using at_po_data [OF assms] at_po_journaled [OF assms] assms
  by (simp_all add: po_choice_defs at_po_def)

lemma po_chosen_done: "at_po env Po_TriggerOperatorTake f \<Longrightarrow> po_chosen env f Po_Done f"
  using at_po_holds [of env Po_TriggerOperatorTake f] at_po_journaled [of env Po_TriggerOperatorTake f]
  by (simp add: po_choice_defs po_holds_def at_po_def)

lemma po_chosen_update:
  assumes "at_po env s f"
  shows "s = Po_GetCommInfoAuthoritativeCheckpoint \<Longrightarrow>
      po_chosen env f Po_PrepareUserTakeSetup (map_octx (\<lambda>c. c \<lparr> oc_my_p2p_address := Some m \<rparr>) f)"
    and "s = Po_PrepareUserTakeSetup \<Longrightarrow>
      po_chosen env f Po_WaitUserTakeSignaturesReady (map_octx (\<lambda>c. c \<lparr> oc_peg_out_accepted := Some a \<rparr>) f)"
    and "s = Po_RequestUserTakeSpvProof \<Longrightarrow>
      po_chosen env f Po_RegisterPegout (map_octx (\<lambda>c. c \<lparr> oc_spv_proof := Some p \<rparr>) f)"
  using at_po_data [OF assms] at_po_journaled [OF assms] assms
  by (simp_all add: po_choice_defs at_po_def user_take_confirmed_def registration_matches_def)

lemma po_chosen_confirmed:
  assumes at: "at_po env Po_ConfirmUserTakeTransaction f"
  shows "wp (confirm_user_take_transaction t) (po_chosen env f) (po_refused env f) f"
proof -
  obtain a where "oc_peg_out_accepted (octx f) = Some a" using at_po_data [OF at] by (auto simp: po_data_def)
  then show ?thesis
    using at_po_data [OF at] at_po_journaled [OF at] at
    by (simp add: confirm_user_take_transaction_def wp_simps get_user_take_txid_def po_refused_def at_po_def
        po_choice_defs user_take_confirmed_def registration_matches_def)
qed

lemma po_chosen_registered:
  assumes at: "at_po env s f" and ff: "allows_fast_forward_to_pegout_registered s"
  shows "wp (complete_with_confirmed_pegout_registration env r h) (po_chosen env f) (po_refused env f) f"
proof -
  let ?g = "map_octx (\<lambda>c. c \<lparr> oc_pegout_registered_tx := Some (oe_show_hash env h) \<rparr>)
      (map_octx (\<lambda>c. c \<lparr> oc_pegout_registered := Some r \<rparr>) f)"
  have s: "6 \<le> po_stage s" "s \<noteq> Po_Done" "(s, Po_Done) \<in> po_edges"
    using ff by (auto simp: allows_fast_forward_to_pegout_registered_def po_edges_def)
  obtain a where a: "oc_peg_out_accepted (octx f) = Some a" using at_po_data [OF at] s(1) by (auto simp: po_data_def)
  have step: "po_step f = s" using at by (simp add: at_po_def)
  show ?thesis
  proof (cases "fb_32_to_txid (pg_txid r) = pa_user_take_txid a")
    case True
    have g: "at_po env s ?g"
      using at_po_data [OF at] at_po_journaled [OF at] s a True step
      by (auto simp: at_po_def po_state_inv_iff po_holds_def po_data_def program_known_def registration_matches_def user_take_confirmed_def)
    from safe_at_po [OF po_requests_safe(4) [OF at_po_journaled [OF g]] g, of r]
    have "wp (send_pegout_completed_to_bitvmx env r) (\<lambda>_. po_chosen env f Po_Done) (po_refused env f) ?g"
    proof (rule wp_mono)
      fix h
      assume h: "at_po env s h \<and> of_state h = of_state ?g \<and> set (of_trace ?g) \<subseteq> set (of_trace h)"
      then have "octx h = octx ?g" by (simp add: octx_def)
      then show "po_chosen env f Po_Done h"
        using at_po_data [of env s h] at_po_journaled [of env s h] h s step a True
        by (auto simp: po_chosen_def po_ready_def po_data_def)
    qed (use step in \<open>auto simp: po_refused_def\<close>)
    with True a show ?thesis
      by (simp add: complete_with_confirmed_pegout_registration_def wp_simps get_user_take_txid_def)
  next
    case False
    with a at step show ?thesis
      by (simp add: complete_with_confirmed_pegout_registration_def wp_simps get_user_take_txid_def po_refused_def)
  qed
qed

lemma po_process_chosen:
  assumes "at_po env s f"
  shows "wp (po_process_step_data env s data) (po_chosen env f) (po_refused env f) f"
  using assms po_chosen_plain [OF assms] po_chosen_update [OF assms] po_refused_invalid [OF assms]
    po_chosen_confirmed [of env f] po_chosen_registered [OF assms] po_chosen_done [of env f]
  by (cases data) (auto simp: po_process_step_data_def wp_simps)

section \<open>Entering a step\<close>

lemma ready_at_po:
  "po_ready env s f \<Longrightarrow> s \<noteq> Po_TriggerOperatorTake \<Longrightarrow> at_po env s (set_po_step s f)"
  by (simp add: po_ready_def at_po_def po_state_inv_iff po_holds_def)

definition po_saved_now :: "'x pegout_flow \<Rightarrow> bool" where
  "po_saved_now f \<longleftrightarrow> PoSaved (os_flow_id (of_state f)) (of_state f) True \<in> set (of_trace f)"

lemma po_persist_at:
  assumes "at_po env s f"
  shows "wp (po_persist_state env) (\<lambda>_ g. at_po env s g \<and> po_saved_now g \<and> of_state g = of_state f)
     (\<lambda>e g. at_po env s g \<and> \<not> po_lacks e) f"
proof -
  have "wp (po_persist_state env) (\<lambda>_ g. po_saved_now g) (\<lambda>_ _. True) f"
    by (simp add: po_persist_state_def wp_simps wp_def po_perform_ok_def po_perform_def Let_def ensure_def po_saved_now_def)
  from wp_conj [OF safe_at_po [OF po_persist_safe assms] this] assms
  show ?thesis by (auto simp: at_po_def elim: wp_mono)
qed

lemma po_finish:
  assumes at: "at_po env s f" and rec: "rec \<longleftrightarrow> s = Po_Done \<and> oc_pegout_registered_tx (octx f) \<noteq> None"
  shows "wp (fseq (po_persist_state env) (if rec then po_record_completion_metrics else fret ()))
     (\<lambda>_. at_po env s) (\<lambda>e g. at_po env s g \<and> \<not> po_lacks e) f"
  unfolding wp_seq using po_persist_at [OF at]
proof (rule wp_mono)
  fix g
  assume g: "at_po env s g \<and> po_saved_now g \<and> of_state g = of_state f"
  show "wp (if rec then po_record_completion_metrics else fret ()) (\<lambda>_. at_po env s) (\<lambda>e g. at_po env s g \<and> \<not> po_lacks e) g"
  proof (cases rec)
    case True
    then have just: "po_justified env (set (of_trace g)) (CountedPegout (pq_request_amount (oc_pegout_requested (octx g))))"
      using g rec at by (auto simp: po_saved_now_def at_po_def octx_def po_step_def)
    have "pj.safe env po_record_completion_metrics g"
      by (rule pj.safe_exchange [OF _ at_po_journaled just])
        (use g in \<open>auto simp: po_record_completion_metrics_def po_perform_def po_note_def\<close>)
    from safe_at_po [OF this, of s] g True show ?thesis by (auto elim: wp_mono)
  qed (use g in \<open>simp add: wp_simps\<close>)
qed auto

lemma po_entry_simple:
  assumes at: "at_po env s f"
    and s: "s \<noteq> Po_WaitPegoutRequested" "s \<noteq> Po_DispatchUserTakeTransactionAllConvergeCheckpoint" "s \<noteq> Po_TriggerOperatorTake"
    and saved: "s = Po_RegisterPegout \<Longrightarrow> po_saved_now f"
  shows "wp (po_entry_action env k s) (\<lambda>go_on g. at_po env s g \<and> go_on \<and> oc_pegout_registered_tx (octx g) = oc_pegout_registered_tx (octx f))
     (\<lambda>e g. at_po env s g \<and> \<not> po_lacks e) f"
proof -
  note j = at_po_journaled [OF at] and d = at_po_data [OF at]
  have keep: "wp (fseq m (fret True)) (\<lambda>go_on g. at_po env s g \<and> go_on \<and> oc_pegout_registered_tx (octx g) = oc_pegout_registered_tx (octx f))
     (\<lambda>e g. at_po env s g \<and> \<not> po_lacks e) f" if "pj.safe env m f" for m :: "('a, unit) pegout_op"
    unfolding wp_seq wp_basic using safe_at_po [OF that at] by (rule wp_mono) (auto simp: octx_def)
  show ?thesis
  proof (cases s)
    case Po_PrepareUserTakeSetup
    have "wp (communicate_pegout_requested_to_bitvmx env) (\<lambda>_ g. at_po env s g) (\<lambda>e g. at_po env s g \<and> \<not> po_lacks e) f"
      using communicate_at [of env f] at Po_PrepareUserTakeSetup by simp
    then have "wp (communicate_pegout_requested_to_bitvmx env) (\<lambda>_ g. at_po env s g \<and> True \<and>
        oc_pegout_registered_tx (octx g) = oc_pegout_registered_tx (octx f)) (\<lambda>e g. at_po env s g \<and> \<not> po_lacks e) f"
      by (rule wp_mono) (use d in \<open>auto dest: at_po_data simp: po_data_def Po_PrepareUserTakeSetup\<close>)
    then show ?thesis by (simp add: Po_PrepareUserTakeSetup po_entry_action_def wp_seq wp_basic)
  next
    case Po_RegisterPegout
    obtain p where p: "oc_spv_proof (octx f) = Some p" using d Po_RegisterPegout by (auto simp: po_data_def)
    have "pj.safe env (register_pegout env p) f"
      using register_pegout_safe [OF j, of "of_state f"] saved [OF Po_RegisterPegout] p at Po_RegisterPegout
      by (simp add: po_saved_now_def at_po_def octx_def po_step_def)
    from keep [OF this] show ?thesis by (simp add: Po_RegisterPegout po_entry_action_def wp_simps p)
  next
    case Po_Done
    from keep [OF po_marker_safe [OF j]] at show ?thesis by (simp add: Po_Done po_entry_action_def wp_simps)
  next
    case Po_RequestUserTakeSpvProof
    from keep [OF po_txid_requests_safe(2) [OF j]] d show ?thesis
      by (simp add: Po_RequestUserTakeSpvProof po_entry_action_def po_data_def)
  qed (use s keep [OF po_requests_safe(1) [OF j]] at in \<open>simp_all add: po_entry_action_def wp_simps\<close>)
qed

lemma po_start_simple:
  assumes r: "po_ready env s f"
    and s: "s \<noteq> Po_DispatchUserTakeTransactionAllConvergeCheckpoint" "s \<noteq> Po_TriggerOperatorTake"
  shows "wp (po_start_step_at (Suc n) env s) (\<lambda>_. at_po env s) (\<lambda>e g. at_po env s g \<and> \<not> po_lacks e) f"
proof -
  let ?E = "\<lambda>e g. at_po env s g \<and> \<not> po_lacks e"
  let ?g = "set_po_step s f"
  let ?rec = "s = Po_Done \<and> oc_pegout_registered_tx (octx ?g) \<noteq> None"
  let ?tail = "\<lambda>go_on. if \<not> go_on then fret ()
      else fseq (po_persist_state env) (if ?rec then po_record_completion_metrics else fret ())"
  have g: "at_po env s ?g" using r s(2) by (rule ready_at_po)
  have saved: "wp (if s = Po_RegisterPegout then po_persist_state env else fret ())
      (\<lambda>_ h. at_po env s h \<and> (s = Po_RegisterPegout \<longrightarrow> po_saved_now h) \<and> of_state h = of_state ?g) ?E ?g"
  proof (cases "s = Po_RegisterPegout")
    case True
    with po_persist_at [OF g] show ?thesis by simp
  qed (use g in \<open>simp add: wp_simps\<close>)
  have "wp (if s = Po_RegisterPegout then po_persist_state env else fret ())
      (\<lambda>_. wp (po_entry_action env k s) (\<lambda>go_on. wp (?tail go_on) (\<lambda>_. at_po env s) ?E) ?E) ?E ?g" for k
    using saved
  proof (rule wp_mono)
    fix h
    assume h: "at_po env s h \<and> (s = Po_RegisterPegout \<longrightarrow> po_saved_now h) \<and> of_state h = of_state ?g"
    have "wp (po_entry_action env k s) (\<lambda>go_on k. at_po env s k \<and> go_on \<and> oc_pegout_registered_tx (octx k) = oc_pegout_registered_tx (octx h)) ?E h"
      by (rule po_entry_simple) (use h s r in \<open>auto simp: po_ready_def\<close>)
    then show "wp (po_entry_action env k s) (\<lambda>go_on. wp (?tail go_on) (\<lambda>_. at_po env s) ?E) ?E h"
    proof (rule wp_mono)
      fix go_on i
      assume i: "at_po env s i \<and> go_on \<and> oc_pegout_registered_tx (octx i) = oc_pegout_registered_tx (octx h)"
      have "octx h = octx ?g" using h by (simp add: octx_def)
      then have "wp (fseq (po_persist_state env) (if ?rec then po_record_completion_metrics else fret ()))
          (\<lambda>_. at_po env s) ?E i"
        by (intro po_finish) (use i in auto)
      with i show "wp (?tail go_on) (\<lambda>_. at_po env s) ?E i" by simp
    qed
  qed auto
  then show ?thesis by (simp only: po_start_step_at.simps wp_seq wp_bind wp_basic)
qed

text \<open>The call of \<^verbatim>\<open>triggerOperatorTake\<close> is made whatever its outcome; only a failed one is saved.\<close>

lemma po_start_trigger:
  assumes "po_ready env Po_TriggerOperatorTake f"
  shows "wp (po_start_step_at (Suc n) env Po_TriggerOperatorTake) (\<lambda>_. at_po env Po_TriggerOperatorTake)
     (\<lambda>e g. at_po env Po_TriggerOperatorTake g \<and> \<not> po_lacks e) f"
proof -
  let ?s = Po_TriggerOperatorTake
  let ?txid = "get_pegout_txid env (octx f)"
  let ?r = "oe_trigger_operator_take env (of_trace f) ?txid"
  let ?h = "po_note (CalledTriggerOperatorTake ?txid ?r) (set_po_step ?s f)"
  have h: "at_po env ?s ?h"
    using assms by (simp add: po_ready_def at_po_def po_state_inv_iff po_holds_def triggered_def) auto
  have "trigger_operator_take env (set_po_step ?s f) = (case ?r of Inl e \<Rightarrow> Inl (TriggerOperatorTakeFailed e) | Inr _ \<Rightarrow> Inr (), ?h)"
    by (simp add: trigger_operator_take_def flow_simps po_perform_def Let_def po_note_def split: sum.splits)
  then have "po_entry_action env k ?s (set_po_step ?s f) = (Inr (\<not> is_ok ?r), ?h)" for k
    by (simp add: po_entry_action_def split: sum.splits)
  then have "po_start_step_at (Suc n) env ?s f =
      (if is_ok ?r then (Inr (), ?h) else fseq (po_persist_state env) (fret ()) ?h)"
    by (simp add: flow_simps fbind_def [of "po_entry_action _ _ _"])
  moreover have "wp (fseq (po_persist_state env) (fret ())) (\<lambda>_. at_po env ?s) (\<lambda>e g. at_po env ?s g \<and> \<not> po_lacks e) ?h"
    using po_finish [OF h, of False] by simp
  ultimately show ?thesis using h by (simp add: wp_def)
qed

lemma po_start_dispatch:
  fixes env :: "'x pegout_env"
  defines "s \<equiv> Po_DispatchUserTakeTransactionAllConvergeCheckpoint"
  assumes r: "po_ready env s f"
  shows "wp (po_start_step_at (Suc (Suc n)) env s) (\<lambda>_ g. at_po env Po_ConfirmUserTakeTransaction g)
     (\<lambda>e g. (at_po env s g \<or> at_po env Po_ConfirmUserTakeTransaction g) \<and> \<not> po_lacks e) f"
proof -
  let ?t = Po_ConfirmUserTakeTransaction
  let ?E = "\<lambda>e g. (at_po env s g \<or> at_po env ?t g) \<and> \<not> po_lacks e"
  let ?g = "set_po_step s f"
  have g: "at_po env s ?g" using r by (intro ready_at_po) (simp_all add: s_def)
  let ?complete = "\<lambda>data. fbind (fget po_step) (\<lambda>current_step.
      fbind (po_process_step_data env current_step data) (po_start_step_at (Suc n) env))"
  let ?tail = "fseq (po_persist_state env) (fret ())"
  have tail: "wp ?tail (\<lambda>_. at_po env ?t) ?E h" if "at_po env ?t h" for h
    using po_finish [OF that, of False] by (auto elim: wp_mono)
  have completed: "wp (?complete Pd_UserTakeTransactionDispatched) (\<lambda>_. wp ?tail (\<lambda>_. at_po env ?t) ?E) ?E h"
    if h: "at_po env s h" for h
  proof -
    have "po_ready env ?t h" using po_chosen_plain(4) [OF h] by (simp add: s_def po_chosen_def)
    then have "wp (po_start_step_at (Suc n) env ?t) (\<lambda>_. at_po env ?t) (\<lambda>e g. at_po env ?t g \<and> \<not> po_lacks e) h"
      by (rule po_start_simple) simp_all
    then have "wp (po_start_step_at (Suc n) env ?t) (\<lambda>_. wp ?tail (\<lambda>_. at_po env ?t) ?E) ?E h"
      by (rule wp_mono) (auto intro: tail)
    with h show ?thesis by (simp add: at_po_def wp_bind wp_basic po_process_step_data_def s_def)
  qed
  have "wp (po_dispatch_transaction env) (\<lambda>_. wp (?complete Pd_UserTakeTransactionDispatched)
      (\<lambda>_. wp ?tail (\<lambda>_. at_po env ?t) ?E) ?E) ?E ?g"
    using safe_at_po [OF po_requests_safe(2) [OF at_po_journaled [OF g]] g]
    by (rule wp_mono) (auto intro: completed)
  then show ?thesis
    by (simp add: s_def po_start_step_at.simps(2) [of "Suc n"] po_entry_action_def wp_seq wp_bind wp_basic
        del: po_start_step_at.simps)
qed

section \<open>What an operation never changes\<close>

text \<open>
  The history only grows, and by entries of the flow itself: it saves under its own id and program
  and calls \<^verbatim>\<open>triggerOperatorTake\<close>, where that is allowed at all, for its own pegout. The identity
  of a flow is fixed.
\<close>

fun own_entry :: "'x pegout_env \<Rightarrow> bool \<Rightarrow> 'x pegout_flow \<Rightarrow> 'x pegout_action \<Rightarrow> bool" where
  "own_entry env b f (PoSaved fid st ok) \<longleftrightarrow> fid = os_flow_id (of_state f) \<and> os_flow_id st = fid \<and>
     oc_bitvmx_protocol_id (os_ctx st) = oc_bitvmx_protocol_id (octx f)"
| "own_entry env b f (CalledTriggerOperatorTake x r) \<longleftrightarrow> b \<and> x = get_pegout_txid env (octx f)"
| "own_entry env b f (Elsewhere x) \<longleftrightarrow> False"
| "own_entry env b f a \<longleftrightarrow> True"

definition same_identity :: "'x pegout_flow \<Rightarrow> 'x pegout_flow \<Rightarrow> bool" where
  "same_identity f g \<longleftrightarrow> os_flow_id (of_state g) = os_flow_id (of_state f) \<and>
     oc_bitvmx_protocol_id (octx g) = oc_bitvmx_protocol_id (octx f) \<and>
     oc_pegout_requested (octx g) = oc_pegout_requested (octx f)"

definition same_flow :: "'x pegout_env \<Rightarrow> bool \<Rightarrow> 'x pegout_flow \<Rightarrow> 'x pegout_flow \<Rightarrow> bool" where
  "same_flow env b f g \<longleftrightarrow> same_identity f g \<and> (\<exists>t. of_trace g = of_trace f @ t \<and> (\<forall>a \<in> set t. own_entry env b f a))"

lemma own_entry_cong: "same_identity f g \<Longrightarrow> own_entry env b g a = own_entry env b f a"
  by (cases a) (auto simp: same_identity_def get_pegout_txid_def)

lemma same_flow_refl [simp]: "same_flow env b f f"
  by (simp add: same_flow_def same_identity_def)

lemma same_flow_trans:
  assumes "same_flow env b f g" and "same_flow env b g h"
  shows "same_flow env b f h"
proof -
  have i: "same_identity f g" "same_identity g h" using assms by (auto simp: same_flow_def)
  then have "same_identity f h" by (simp add: same_identity_def)
  with assms own_entry_cong [OF i(1)] show ?thesis unfolding same_flow_def by (auto 0 4)
qed

lemma same_flow_note:
  "own_entry env b f a \<Longrightarrow> same_flow env b f (po_note a f)"
  "own_entry env b f a \<Longrightarrow> same_flow env b f (f \<lparr> of_trace := of_trace f @ [a] \<rparr>)"
  by (auto simp: same_flow_def same_identity_def po_note_def octx_def)

definition keeps_flow :: "'x pegout_env \<Rightarrow> bool \<Rightarrow> ('x, 'a) pegout_op \<Rightarrow> bool" where
  "keeps_flow env b m \<longleftrightarrow> (\<forall>f0. keeps (same_flow env b f0) m)"

lemma keeps_flowD: "keeps_flow env b m \<Longrightarrow> same_flow env b f (snd (m f))"
  by (auto simp: keeps_flow_def keeps_def)

lemma keeps_flowI: "(\<And>f. same_flow env b f (snd (m f))) \<Longrightarrow> keeps_flow env b m"
  by (auto simp: keeps_flow_def keeps_def intro: same_flow_trans)

named_theorems same_intros

lemma keeps_flow_basic [same_intros]:
  "keeps_flow env b (fret x)" "keeps_flow env b (ffail e)" "keeps_flow env b (fget v)"
  "keeps_flow env b (fok_or y e)" "keeps_flow env b (lift_res r)"
  by (auto intro!: keeps_flowI simp: flow_defs lift_res_def)

lemma keeps_flow_bind [same_intros]: "keeps_flow env b m \<Longrightarrow> (\<And>x. keeps_flow env b (k x)) \<Longrightarrow> keeps_flow env b (fbind m k)"
  and keeps_flow_seq [same_intros]: "keeps_flow env b m \<Longrightarrow> keeps_flow env b m' \<Longrightarrow> keeps_flow env b (fseq m m')"
  and keeps_flow_if [same_intros]: "keeps_flow env b n \<Longrightarrow> keeps_flow env b n' \<Longrightarrow> keeps_flow env b (if c then n else n')"
  by (auto simp: keeps_flow_def intro!: keeps_intros)

lemma keeps_flow_bind_result:
  assumes "keeps_flow env b m" and "\<And>f x g. m f = (Inr x, g) \<Longrightarrow> keeps_flow env b (k x)"
  shows "keeps_flow env b (fbind m k)"
proof (rule keeps_flowI)
  fix f
  obtain r g where mf: "m f = (r, g)" by fastforce
  then have "same_flow env b f g" using keeps_flowD [OF assms(1), of f] by simp
  with mf show "same_flow env b f (snd (fbind m k f))"
    using keeps_flowD [OF assms(2) [of f _ g], of _ g] by (cases r) (auto simp: fbind_def intro: same_flow_trans)
qed

lemma keeps_flow_mod [same_intros]:
  "(\<And>c. oc_bitvmx_protocol_id (g c) = oc_bitvmx_protocol_id c \<and> oc_pegout_requested (g c) = oc_pegout_requested c) \<Longrightarrow>
     keeps_flow env b (fmod (map_octx g))"
  "keeps_flow env b (fmod (set_po_step s))"
  by (auto intro!: keeps_flowI simp: flow_defs same_flow_def same_identity_def map_octx_def set_po_step_def octx_def)

text \<open>Entries any flow may make.\<close>

definition plain_entry :: "'x pegout_action \<Rightarrow> bool" where
  "plain_entry a = (case a of PoSaved _ _ _ \<Rightarrow> False | CalledTriggerOperatorTake _ _ \<Rightarrow> False | Elsewhere _ \<Rightarrow> False | _ \<Rightarrow> True)"

lemma plain_own: "plain_entry a \<Longrightarrow> own_entry env b f a"
  by (cases a) (auto simp: plain_entry_def)

lemma plain_entries [simp]:
  "plain_entry (PoSent m ok)" "plain_entry (PoAskedCommittee c)" "plain_entry (PoAskedCommunicationData c d)"
  "plain_entry (PoAskedPublicKeys d)" "plain_entry (PoAskedConfirmations q)" "plain_entry (CalledRegisterPegout i r)"
  "plain_entry (PoSignalled s p k ok)" "plain_entry (CountedPegout n)"
  by (simp_all add: plain_entry_def)

lemma keeps_flow_exchange [same_intros]:
  "(\<And>ok. plain_entry (act ok)) \<Longrightarrow> keeps_flow env b (po_perform_ok answer act e)"
  "(\<And>r. plain_entry (act' r)) \<Longrightarrow> keeps_flow env b (po_perform_contract answer' act')"
  by (auto intro!: keeps_flowI same_flow_note plain_own simp: po_perform_ok_def po_perform_contract_def po_perform_def Let_def)

lemma keeps_flow_persist [same_intros]: "keeps_flow env b (po_persist_state env')"
  by (auto intro!: keeps_flowI same_flow_note
      simp: po_persist_state_def flow_simps po_perform_ok_def po_perform_def Let_def octx_def)

lemma keeps_flow_register [same_intros]: "keeps_flow env b (register_pegout env' proof)"
proof (rule keeps_flowI)
  fix f :: "'a pegout_flow"
  have called: "same_flow env b f (h \<lparr> of_trace := of_trace h @ [a] \<rparr>)" if "same_flow env b f h" "plain_entry a" for h a
    using that same_flow_note(2) [OF plain_own] same_flow_trans by blast
  show "same_flow env b f (snd (register_pegout env' proof f))"
    using called [OF same_flow_refl] called [OF called [OF same_flow_refl]]
    by (simp add: register_pegout_def invoke_contract_safe_def verify_confirmations_def verify_btc_confirmations_def
        fbind_def ffail_def po_perform_def Let_def
        split: native_bridge_verifier.splits sum.splits verification_status.splits option.splits prod.splits)
qed

lemma keeps_flow_trigger: "keeps_flow env True (trigger_operator_take env)"
  by (auto intro!: keeps_flowI same_flow_note
      simp: trigger_operator_take_def flow_simps po_perform_def Let_def split: sum.splits)

lemma keeps_flow_keys [same_intros]: "keeps_flow env b (po_member_key_hashes env' ms acc)"
  by (induction env' ms acc rule: po_member_key_hashes.induct) (auto intro!: same_intros)

lemma keeps_flow_metrics [same_intros]: "keeps_flow env b po_record_completion_metrics"
  by (auto intro!: keeps_flowI same_flow_note simp: po_record_completion_metrics_def po_perform_def Let_def)

lemmas po_message_defs = po_send_bitvmx_msg_def po_request_bitvmx_comm_info_def po_dispatch_transaction_def
  po_request_transaction_status_def po_request_spv_proof_def request_pegout_accepted_var_def
  send_pegout_completed_to_bitvmx_def

lemma keeps_flow_messages [same_intros]:
  "keeps_flow env b (po_request_bitvmx_comm_info env')"
  "keeps_flow env b (po_dispatch_transaction env')" "keeps_flow env b (po_request_transaction_status env')"
  "keeps_flow env b (po_request_spv_proof env')" "keeps_flow env b (request_pegout_accepted_var env')"
  "keeps_flow env b (send_pegout_completed_to_bitvmx env' r)" "keeps_flow env b (po_write_completion_marker env')"
  unfolding po_message_defs po_write_completion_marker_def Let_def
  by (intro same_intros; simp)+

lemma keeps_flow_redrive: "keeps_flow env b (redrive_pending_bitvmx_request env')"
  unfolding redrive_pending_bitvmx_request_def
  by (rule keeps_flow_bind) (auto intro: same_intros split: pegout_steps.splits)

lemma keeps_flow_setup [same_intros]: "keeps_flow env b (communicate_pegout_requested_to_bitvmx env')"
  unfolding communicate_pegout_requested_to_bitvmx_def send_pegout_requested_to_bitvmx_def po_send_setup_to_bitvmx_def
    po_get_committee_output_def po_get_committee_pubkey_hashes_def get_committee_member_address_def po_send_bitvmx_msg_def
  by (intro same_intros) simp_all

lemma keeps_flow_process [same_intros]: "keeps_flow env b (po_process_step_data env' s data)"
  unfolding po_process_step_data_def complete_with_confirmed_pegout_registration_def confirm_user_take_transaction_def Let_def
  by (cases data) (auto intro!: same_intros)

text \<open>Only the timeout leads to the call of \<^verbatim>\<open>triggerOperatorTake\<close>.\<close>

lemma process_triggers:
  assumes "po_process_step_data env s data f = (Inr Po_TriggerOperatorTake, g)"
  shows "data = Pd_TriggerOperatorTakeTimeout"
proof (rule ccontr)
  assume "data \<noteq> Pd_TriggerOperatorTakeTimeout"
  then have "wp (po_process_step_data env s data) (\<lambda>s' _. s' \<noteq> Po_TriggerOperatorTake) (\<lambda>_ _. True) f"
    by (cases data) (auto simp: po_process_step_data_def complete_with_confirmed_pegout_registration_def
        confirm_user_take_transaction_def wp_simps wp_state split: option.splits)
  with assms show False by (simp add: wp_def)
qed

lemma keeps_flow_entry:
  assumes "keeps_flow env b (k Pd_UserTakeTransactionDispatched)" and "s = Po_TriggerOperatorTake \<Longrightarrow> b"
  shows "keeps_flow env b (po_entry_action env k s)"
proof (cases s)
  case Po_TriggerOperatorTake
  then show ?thesis
    using keeps_flowD [OF keeps_flow_trigger, of env] assms(2)
    by (auto intro!: keeps_flowI simp: po_entry_action_def split: prod.splits sum.splits) (metis snd_conv)+
qed (use assms(1) in \<open>auto simp: po_entry_action_def intro!: same_intros\<close>)

lemma keeps_flow_start: "(s = Po_TriggerOperatorTake \<Longrightarrow> b) \<Longrightarrow> keeps_flow env b (po_start_step_at n env s)"
proof (induction n arbitrary: s)
  case (Suc n)
  have again: "keeps_flow env b (fbind (fget po_step) (\<lambda>current_step.
      fbind (po_process_step_data env current_step Pd_UserTakeTransactionDispatched) (po_start_step_at n env)))"
    by (intro keeps_flow_bind keeps_flow_bind_result same_intros Suc.IH) (auto dest: process_triggers)
  show ?case
    unfolding po_start_step_at.simps by (intro same_intros keeps_flow_entry again Suc.prems)
qed (simp add: keeps_flow_basic)

lemma keeps_flow_complete:
  "(data = Pd_TriggerOperatorTakeTimeout \<Longrightarrow> b) \<Longrightarrow> keeps_flow env b (po_complete_step env data)"
  "keeps_flow env b (po_mark_failed env)"
  unfolding po_complete_step_def po_mark_failed_def po_start_step_def
  by (intro keeps_flow_bind keeps_flow_bind_result same_intros keeps_flow_start; auto dest: process_triggers)+

section \<open>Outcomes\<close>

definition po_moved :: "'x pegout_env \<Rightarrow> 'x pegout_flow \<Rightarrow> 'x pegout_flow \<Rightarrow> bool" where
  "po_moved env f g \<longleftrightarrow> po_inv env g \<and> (po_step f, po_step g) \<in> po_edges\<^sup>*"

lemma po_start_entered:
  assumes "po_ready env s f"
  shows "wp (po_start_step env s) (\<lambda>_ g. po_inv env g \<and> (s, po_step g) \<in> po_edges\<^sup>*)
     (\<lambda>e g. po_inv env g \<and> (s, po_step g) \<in> po_edges\<^sup>* \<and> \<not> po_lacks e) f"
proof -
  consider (dispatch) "s = Po_DispatchUserTakeTransactionAllConvergeCheckpoint" | (trigger) "s = Po_TriggerOperatorTake"
    | (plain) "s \<noteq> Po_DispatchUserTakeTransactionAllConvergeCheckpoint" "s \<noteq> Po_TriggerOperatorTake" by blast
  then show ?thesis
  proof cases
    case dispatch
    have "(s, Po_ConfirmUserTakeTransaction) \<in> po_edges\<^sup>*" by (auto simp: dispatch po_edges_def)
    with po_start_dispatch [of env f 0] assms show ?thesis
      unfolding po_start_step_def numeral_2_eq_2 dispatch by (auto simp: at_po_inv elim!: wp_mono)
  next
    case trigger
    with po_start_trigger [of env f "Suc 0"] assms show ?thesis
      unfolding po_start_step_def numeral_2_eq_2 by (auto simp: at_po_inv elim!: wp_mono)
  next
    case plain
    with po_start_simple [OF assms plain, of "Suc 0"] show ?thesis
      unfolding po_start_step_def numeral_2_eq_2 by (auto simp: at_po_inv elim!: wp_mono)
  qed
qed

lemma po_complete_step_moved:
  assumes "po_inv env f"
  shows "wp (po_complete_step env data) (\<lambda>_. po_moved env f) (\<lambda>e g. po_moved env f g \<and> \<not> po_lacks e) f"
proof -
  have at: "at_po env (po_step f) f" using assms by (simp add: at_po_inv)
  have "wp (po_process_step_data env (po_step f) data)
      (\<lambda>s. wp (po_start_step env s) (\<lambda>_. po_moved env f) (\<lambda>e g. po_moved env f g \<and> \<not> po_lacks e))
      (\<lambda>e g. po_moved env f g \<and> \<not> po_lacks e) f"
    using po_process_chosen [OF at]
  proof (rule wp_mono)
    fix s g
    assume "po_chosen env f s g"
    then have r: "po_ready env s g" and edge: "(po_step f, s) \<in> po_edges" by (auto simp: po_chosen_def)
    from po_start_entered [OF r]
    show "wp (po_start_step env s) (\<lambda>_. po_moved env f) (\<lambda>e g. po_moved env f g \<and> \<not> po_lacks e) g"
      by (rule wp_mono) (auto simp: po_moved_def intro: converse_rtrancl_into_rtrancl [OF edge])
  qed (auto simp: po_refused_def po_moved_def at_po_inv)
  then show ?thesis by (simp add: po_complete_step_def wp_simps)
qed

lemma po_mark_failed_inv:
  assumes "po_inv env f"
  shows "wp (po_mark_failed env) (\<lambda>_. at_po env Po_Failed) (\<lambda>e g. at_po env Po_Failed g \<and> \<not> po_lacks e) f"
proof -
  have "po_ready env Po_Failed f"
    using assms by (simp add: po_ready_def po_inv_def po_state_inv_iff po_holds_def po_data_def)
  from po_start_simple [OF this, of "Suc 0"] show ?thesis
    unfolding po_mark_failed_def po_start_step_def numeral_2_eq_2 by simp
qed

end
