(* ===== verification/Pegout_Processor.thy ===== *)
theory Pegout_Processor
  imports Pegout_Flow Btc_Signature Schedulers Coordinator_Base
begin

text \<open>
  The processor of the pegout flows (\<^verbatim>\<open>crates/coordinator/src/flows/pegout/pegout_processor.rs\<close>).
  All flows write to one store and talk to one BitVMX, so they share one history; deleting a flow
  and saving the state of the processor are entries of it. The payloads of contract events are
  generated outside the repository: an event carries the data of its own kind. Log spans are left
  out, and with them the lookup that only names them.
\<close>

section \<open>State\<close>

datatype pegout_payload = RequestedData pegout_requested | RegisteredData pegout_registered | OtherData

type_synonym pegout_event = "pegout_payload rsk_peg_manager_events"

record pegout_processor_state =
  sp_events_confirming :: "(string \<times> pegout_event confirmable_event_with_data_snapshot) list"
  sp_tx_status_scheduler :: "uuid tick_scheduler"
  sp_advance_funds_timeout_scheduler :: "uuid time_based_scheduler"
  sp_flows_pending_timeout :: "uuid list"
  sp_unconfirmed_register_pegout :: "(uuid \<times> i16) list"
  sp_register_pegout_retry_scheduler :: "uuid tick_scheduler"
  sp_signature_flows :: "(uuid \<times> sig_sub_flow_snapshot) list"

datatype pegout_proc_action = DeletedFlow uuid bool | SavedProcessor pegout_processor_state bool

type_synonym pp_trace = "pegout_proc_action pegout_trace"

record pegout_processor =
  pp_flows :: "(uuid \<times> pegout_state) list"
  pp_signature_flows :: "(uuid \<times> sig_sub_flow) list"
  pp_view :: blockchain_view
  pp_events_confirming :: "(string \<times> pegout_event confirmable_event_with_data) list"
  pp_tx_status :: "uuid tick_scheduler"
  pp_advance_funds :: "uuid time_based_scheduler"
  pp_pending_timeout :: "uuid list"
  pp_unconfirmed :: "(uuid \<times> i16) list"
  pp_register_retry :: "uuid tick_scheduler"
  pp_trace :: pp_trace

record pegout_proc_env =
  pn_flow :: "pegout_proc_action pegout_env"
  pn_sig :: sig_env
  pn_context :: "pp_trace \<Rightarrow> global_context"
  pn_accepted_json :: "string \<Rightarrow> pegout_accepted option"
  pn_show_address :: "h160 \<Rightarrow> string"
  pn_force_file :: "pp_trace \<Rightarrow> string option"
  pn_force_var :: "pp_trace \<Rightarrow> string option"
  pn_environment :: "string option"
  pn_delete :: "pp_trace \<Rightarrow> uuid \<Rightarrow> bool"
  pn_save :: "pp_trace \<Rightarrow> pegout_processor_state \<Rightarrow> bool"
  pn_load :: "pp_trace \<Rightarrow> bool"
  pn_required_confirmations :: u32
  pn_btc_confirmations :: u32
  pn_btc_status_retry_blocks :: u32
  pn_advance_funds_timeout_secs :: u64

datatype pegout_proc_error =
    PpFlowFailed pegout_error | PpSignatureFailed sig_error | PpViewFailed view_error | PpStoreFailed
  | PpFlowNotFound uuid | PpProtocolNotFound uuid | PpBadCommitteeId u256 | PpDuplicateProtocolId uuid uuid
  | PpBadAcceptedData | PpStepMismatch pegout_steps pegout_steps | PpTxStatusMismatch uuid txid
  | PpUserTakeTxidNotFound | PpSpvProofMissing txid

type_synonym 'a pp_op = "pegout_processor \<Rightarrow> (pegout_proc_error + 'a) \<times> pegout_processor"

definition pp_new :: "pp_trace \<Rightarrow> pegout_processor" where
  "pp_new trace = \<lparr> pp_flows = [], pp_signature_flows = [], pp_view = view_new, pp_events_confirming = [],
     pp_tx_status = tick_new, pp_advance_funds = time_new, pp_pending_timeout = [], pp_unconfirmed = [],
     pp_register_retry = tick_new, pp_trace = trace \<rparr>"

section \<open>Access to the flows\<close>

definition pp_perform :: "(pp_trace \<Rightarrow> bool) \<Rightarrow> (bool \<Rightarrow> pegout_proc_action) \<Rightarrow> bool pp_op" where
  "pp_perform answer act p = (let ok = answer (pp_trace p) in (Inr ok, p \<lparr> pp_trace := pp_trace p @ [Elsewhere (act ok)] \<rparr>))"

definition map_failure :: "('e \<Rightarrow> 'f) \<Rightarrow> 'e + 'a \<Rightarrow> 'f + 'a" where
  "map_failure h r = (case r of Inl e \<Rightarrow> Inl (h e) | Inr x \<Rightarrow> Inr x)"

text \<open>A method of one flow of the map, run on the shared history; \<open>try_flow\<close> hands over its result.\<close>

definition try_flow :: "uuid \<Rightarrow> (pegout_proc_action, 'a) pegout_op \<Rightarrow> (pegout_error + 'a) pp_op" where
  "try_flow key m p =
     (case map_of (pp_flows p) key of
        None \<Rightarrow> (Inl (PpFlowNotFound key), p)
      | Some st \<Rightarrow>
          (case m \<lparr> of_state = st, of_trace = pp_trace p \<rparr> of (r, g) \<Rightarrow>
            (Inr r, p \<lparr> pp_flows := AList.update key (of_state g) (pp_flows p), pp_trace := of_trace g \<rparr>)))"

definition on_flow :: "uuid \<Rightarrow> (pegout_proc_action, 'a) pegout_op \<Rightarrow> 'a pp_op" where
  "on_flow key m = fbind (try_flow key m) (\<lambda>r. lift_res (map_failure PpFlowFailed r))"

definition pegout_flow_by_protocol_id :: "uuid \<Rightarrow> pegout_processor \<Rightarrow> (uuid \<times> pegout_state) option" where
  "pegout_flow_by_protocol_id protocol_id p =
     find (\<lambda>(_, st). oc_bitvmx_protocol_id (os_ctx st) = protocol_id) (pp_flows p)"

definition flow_by_user_take_txid :: "txid \<Rightarrow> pegout_processor \<Rightarrow> (uuid \<times> pegout_state) option" where
  "flow_by_user_take_txid tx_id p = find (\<lambda>(_, st). get_user_take_txid (os_ctx st) = Some tx_id) (pp_flows p)"

definition flow_at :: "uuid \<Rightarrow> pegout_steps \<Rightarrow> pegout_processor \<Rightarrow> bool" where
  "flow_at key s p = (case map_of (pp_flows p) key of None \<Rightarrow> False | Some st \<Rightarrow> os_step st = s)"

definition on_signature_flow ::
  "uuid \<Rightarrow> (sig_sub_flow \<Rightarrow> (sig_error + unit) \<times> sig_sub_flow) \<Rightarrow> unit pp_op" where
  "on_signature_flow key m p =
     (case map_of (pp_signature_flows p) key of
        None \<Rightarrow> (Inr (), p)
      | Some f \<Rightarrow>
          (case m f of (r, g) \<Rightarrow>
            (map_failure PpSignatureFailed r, p \<lparr> pp_signature_flows := AList.update key g (pp_signature_flows p) \<rparr>)))"

section \<open>The state of the processor in the store\<close>

definition snapshot_processor_state :: "pegout_processor \<Rightarrow> pegout_processor_state" where
  "snapshot_processor_state p =
     \<lparr> sp_events_confirming = snapshot_confirmable_events (pp_events_confirming p) (pp_view p),
       sp_tx_status_scheduler = pp_tx_status p, sp_advance_funds_timeout_scheduler = pp_advance_funds p,
       sp_flows_pending_timeout = pp_pending_timeout p, sp_unconfirmed_register_pegout = pp_unconfirmed p,
       sp_register_pegout_retry_scheduler = pp_register_retry p,
       sp_signature_flows = map (\<lambda>(i, f). (i, sub_flow_snapshot f)) (pp_signature_flows p) \<rparr>"

definition persist_processor_state :: "pegout_proc_env \<Rightarrow> unit pp_op" where
  "persist_processor_state env = fbind (fget snapshot_processor_state) (\<lambda>st.
     fbind (pp_perform (\<lambda>t. pn_save env t st) (SavedProcessor st)) (\<lambda>ok. fensure ok PpStoreFailed))"

section \<open>Terminal flows\<close>

definition forget_flow :: "uuid \<times> uuid \<Rightarrow> pegout_processor \<Rightarrow> pegout_processor" where
  "forget_flow ids p =
     (case ids of (fid, pid) \<Rightarrow>
        p \<lparr> pp_signature_flows := AList.delete pid (pp_signature_flows p),
            pp_tx_status := tick_cancel fid (pp_tx_status p),
            pp_advance_funds := time_cancel fid (pp_advance_funds p),
            pp_register_retry := tick_cancel fid (pp_register_retry p),
            pp_pending_timeout := removeAll fid (pp_pending_timeout p),
            pp_unconfirmed := AList.delete fid (pp_unconfirmed p) \<rparr>)"

definition cleanup_terminal_flow_state :: "pegout_processor \<Rightarrow> pegout_processor" where
  "cleanup_terminal_flow_state p =
     fold forget_flow (map (\<lambda>(_, st). (os_flow_id st, oc_bitvmx_protocol_id (os_ctx st)))
       (filter (\<lambda>(_, st). po_is_terminal st) (pp_flows p))) p"

definition cleanup_terminal_flows :: "pegout_proc_env \<Rightarrow> unit pp_op" where
  "cleanup_terminal_flows env =
     fseq (fmod cleanup_terminal_flow_state)
     (fbind (fget (\<lambda>p. map (\<lambda>(_, st). os_flow_id st) (filter (\<lambda>(_, st). po_is_terminal st) (pp_flows p)))) (\<lambda>terminal_flow_ids.
      fseq (ffor (\<lambda>flow_id. fseq (pp_perform (\<lambda>t. pn_delete env t flow_id) (DeletedFlow flow_id)) (fret ())) terminal_flow_ids)
        (fmod (\<lambda>p. p \<lparr> pp_flows := filter (\<lambda>(_, st). \<not> po_is_terminal st) (pp_flows p) \<rparr>))))"

section \<open>Contract events\<close>

definition create_flow_for_pegout_requested ::
  "pegout_proc_env \<Rightarrow> pegout_requested \<Rightarrow> h256 \<Rightarrow> unit pp_op" where
  "create_flow_for_pegout_requested env requested tx_hash p =
     (case committee_id_try_from (pq_committee requested) of
        Inl _ \<Rightarrow> (Inl (PpBadCommitteeId (pq_committee requested)), p)
      | Inr committee_id \<Rightarrow>
          if \<not> im_member committee_id (gc_my_committees (pn_context env (pp_trace p))) then (Inr (), p)
          else case pegout_flow_new (pn_flow env) requested tx_hash (pp_trace p) of
            Inl e \<Rightarrow> (Inl (PpFlowFailed e), p)
          | Inr flow \<Rightarrow>
              (case pegout_flow_by_protocol_id (oc_bitvmx_protocol_id (octx flow)) p of
                 Some (_, existing) \<Rightarrow> (Inl (PpDuplicateProtocolId (os_flow_id (of_state flow)) (os_flow_id existing)), p)
               | None \<Rightarrow>
                   (case po_complete_step (pn_flow env) Pd_PegoutRequested flow of
                      (Inl e, g) \<Rightarrow> (Inl (PpFlowFailed e), p \<lparr> pp_trace := of_trace g \<rparr>)
                    | (Inr _, g) \<Rightarrow> (Inr (), p \<lparr> pp_flows := AList.update (os_flow_id (of_state flow)) (of_state g) (pp_flows p),
                         pp_trace := of_trace g \<rparr>))))"

definition handle_pegout_registered ::
  "pegout_proc_env \<Rightarrow> pegout_registered \<Rightarrow> h256 \<Rightarrow> unit pp_op" where
  "handle_pegout_registered env registered tx_hash =
     fbind (fget (flow_by_user_take_txid (fb_32_to_txid (pg_txid registered)))) (\<lambda>flow_opt.
     case flow_opt of
       Some (key, _) \<Rightarrow> on_flow key (po_complete_step (pn_flow env) (Pd_PegoutRegistered registered tx_hash))
     | None \<Rightarrow> fret ())"

definition process_confirmed_rsk_event :: "pegout_proc_env \<Rightarrow> pegout_event \<Rightarrow> unit pp_op" where
  "process_confirmed_rsk_event env event =
     (case event of
        PegoutRequested e \<Rightarrow>
          (case ev_inner e of
             RequestedData requested \<Rightarrow>
               (case committee_id_try_from (pq_committee requested) of
                  Inl _ \<Rightarrow> ffail (PpBadCommitteeId (pq_committee requested))
                | Inr committee_id \<Rightarrow>
                    fbind (fget (\<lambda>p. im_member committee_id (gc_my_committees (pn_context env (pp_trace p))))) (\<lambda>member.
                    if \<not> member then fret ()
                    else fseq (create_flow_for_pegout_requested env requested (ev_tx_hash e)) (cleanup_terminal_flows env)))
           | _ \<Rightarrow> cleanup_terminal_flows env)
      | PegoutRegistered e \<Rightarrow>
          (case ev_inner e of
             RegisteredData registered \<Rightarrow>
               fseq (handle_pegout_registered env registered (ev_tx_hash e)) (cleanup_terminal_flows env)
           | _ \<Rightarrow> cleanup_terminal_flows env)
      | _ \<Rightarrow> cleanup_terminal_flows env)"

section \<open>Confirmation of contract events\<close>

definition build_pegout_requested_event_info ::
  "pegout_proc_env \<Rightarrow> pegout_payload event_with_block \<Rightarrow> string \<times> bool \<times> u64 \<times> pegout_event" where
  "build_pegout_requested_event_info env e =
     (''pegout-requested-'' @ oe_show_hash (pn_flow env) (ev_tx_hash e), ev_removed e, ev_block_number e, PegoutRequested e)"

definition build_pegout_registered_event_info ::
  "pegout_proc_env \<Rightarrow> pegout_payload event_with_block \<Rightarrow> string \<times> bool \<times> u64 \<times> pegout_event" where
  "build_pegout_registered_event_info env e =
     (''pegout-registered-'' @ oe_show_hash (pn_flow env) (ev_tx_hash e), ev_removed e, ev_block_number e, PegoutRegistered e)"

definition stop_confirming_event :: "string \<Rightarrow> pegout_event option pp_op" where
  "stop_confirming_event i p =
     (case map_of (pp_events_confirming p) i of
        None \<Rightarrow> (Inr None, p)
      | Some e \<Rightarrow>
          let evs = AList.delete i (pp_events_confirming p);
              v = snd (stop_confirming (cd_confirmation e) (pp_view p))
          in (Inr (Some (cd_data e)),
              p \<lparr> pp_events_confirming := evs, pp_view := (if evs = [] then view_clear v else v) \<rparr>))"

definition pp_update_view :: "block_and_uncles \<Rightarrow> unit pp_op" where
  "pp_update_view block p =
     (case view_update block (pp_view p) of
        Inl e \<Rightarrow> (Inl (PpViewFailed e), p)
      | Inr v \<Rightarrow> (Inr (), p \<lparr> pp_view := v \<rparr>))"

definition confirmed_keys :: "pegout_processor \<Rightarrow> string list" where
  "confirmed_keys p = map fst (filter (\<lambda>(_, e). event_is_confirmed (cd_confirmation e) (pp_view p)) (pp_events_confirming p))"

definition process_block_confirmations :: "pegout_proc_env \<Rightarrow> block_and_uncles \<Rightarrow> unit pp_op" where
  "process_block_confirmations env block = fbind (fget pp_events_confirming) (\<lambda>evs.
     if evs = [] then fret ()
     else fseq (pp_update_view block)
       (fbind (fget confirmed_keys) (\<lambda>keys.
        fseq (ffor (\<lambda>key. fbind (stop_confirming_event key) (\<lambda>event.
                case event of Some data \<Rightarrow> process_confirmed_rsk_event env data | None \<Rightarrow> fret ())) keys)
          (cleanup_terminal_flows env))))"

section \<open>Signatures\<close>

definition dispatch_signed_flow :: "pegout_proc_env \<Rightarrow> uuid \<Rightarrow> unit pp_op" where
  "dispatch_signed_flow env protocol_id =
     fseq (fmod (\<lambda>p. p \<lparr> pp_signature_flows := AList.delete protocol_id (pp_signature_flows p) \<rparr>))
     (fbind (fget (pegout_flow_by_protocol_id protocol_id)) (\<lambda>found.
      case found of
        None \<Rightarrow> fret ()
      | Some (key, st) \<Rightarrow>
          if os_step st \<noteq> Po_WaitUserTakeSignaturesReady then fret ()
          else fseq (on_flow key (po_complete_step (pn_flow env) Pd_UserTakeSignaturesReady))
            (fmod (\<lambda>p. p \<lparr> pp_advance_funds := time_cancel (os_flow_id st) (pp_advance_funds p) \<rparr>))))"

definition process_unhandled_confirmed_sig_flow_events :: "pegout_proc_env \<Rightarrow> block_and_uncles \<Rightarrow> unit pp_op" where
  "process_unhandled_confirmed_sig_flow_events env block =
     fbind (fget (\<lambda>p. map fst (pp_signature_flows p))) (\<lambda>keys.
     fseq (ffor (\<lambda>key. on_signature_flow key (delegate_block (pn_sig env) block)) keys)
     (fbind (fget (\<lambda>p. map fst (filter (\<lambda>(_, f). sf_is_done f) (pp_signature_flows p)))) (\<lambda>flows_to_dispatch.
      ffor (dispatch_signed_flow env) flows_to_dispatch)))"

section \<open>Status of the user-take transaction\<close>

definition handle_transaction_status_received :: "pegout_proc_env \<Rightarrow> uuid \<Rightarrow> transaction_status \<Rightarrow> unit pp_op" where
  "handle_transaction_status_received env protocol_id tx_status =
     fbind (fget (pegout_flow_by_protocol_id protocol_id)) (\<lambda>found.
     case found of
       None \<Rightarrow> fret ()
     | Some (key, st) \<Rightarrow>
         fbind (fok_or (get_user_take_txid (os_ctx st)) PpUserTakeTxidNotFound) (\<lambda>expected_txid.
         if expected_txid \<noteq> ts_tx_id tx_status then ffail (PpTxStatusMismatch (os_flow_id st) (ts_tx_id tx_status))
         else if os_step st \<noteq> Po_ConfirmUserTakeTransaction
         then ffail (PpStepMismatch Po_ConfirmUserTakeTransaction (os_step st))
         else if pn_btc_confirmations env \<le> ts_confirmations tx_status
         then fseq (on_flow key (po_complete_step (pn_flow env) (Pd_TransactionConfirmed tx_status)))
                (fmod (\<lambda>p. p \<lparr> pp_tx_status := tick_cancel (os_flow_id st) (pp_tx_status p) \<rparr>))
         else fmod (\<lambda>p. p \<lparr> pp_tx_status :=
                tick_schedule (os_flow_id st) (pn_btc_status_retry_blocks env) (pp_tx_status p) \<rparr>)))"

definition handle_transaction_status_tick :: "pegout_proc_env \<Rightarrow> unit pp_op" where
  "handle_transaction_status_tick env = fbind (fget pp_tx_status) (\<lambda>scheduler.
     if tick_is_empty scheduler then fret ()
     else case tick scheduler of (ready, scheduler') \<Rightarrow>
       fseq (fmod (\<lambda>p. p \<lparr> pp_tx_status := scheduler' \<rparr>))
        (ffor (\<lambda>key. fbind (fget (flow_at key Po_ConfirmUserTakeTransaction)) (\<lambda>waiting.
            if waiting then on_flow key (po_request_transaction_status (pn_flow env)) else fret ())) ready))"

section \<open>The advance-funds timeout\<close>

definition schedule_pending_timeouts :: "pegout_proc_env \<Rightarrow> block_and_uncles \<Rightarrow> pegout_processor \<Rightarrow> pegout_processor" where
  "schedule_pending_timeouts env block p =
     fold (\<lambda>key p.
        let q = (if flow_at key Po_WaitUserTakeSignaturesReady p
                 then p \<lparr> pp_advance_funds := time_schedule key (cb_timestamp (bu_block block))
                        (pn_advance_funds_timeout_secs env) (pp_advance_funds p) \<rparr>
                 else p)
        in q \<lparr> pp_pending_timeout := removeAll key (pp_pending_timeout q) \<rparr>) (pp_pending_timeout p) p"

definition trigger_operator_take_for_flow :: "pegout_proc_env \<Rightarrow> uuid \<Rightarrow> unit pp_op" where
  "trigger_operator_take_for_flow env key = fbind (fget (\<lambda>p. map_of (pp_flows p) key)) (\<lambda>flow.
     fbind (fok_or flow (PpFlowNotFound key)) (\<lambda>st.
     if os_step st \<noteq> Po_WaitUserTakeSignaturesReady then fret ()
     else fseq (fmod (\<lambda>p. p \<lparr> pp_signature_flows :=
              AList.delete (oc_bitvmx_protocol_id (os_ctx st)) (pp_signature_flows p) \<rparr>))
      (fseq (on_flow key (po_complete_step (pn_flow env) Pd_TriggerOperatorTakeTimeout))
      (fbind (fget (flow_at key Po_TriggerOperatorTake)) (\<lambda>triggered.
       if triggered then on_flow key (po_complete_step (pn_flow env) Pd_TriggerOperatorTakeTimeout) else fret ())))))"

definition handle_advance_funds_timeout_expired :: "pegout_proc_env \<Rightarrow> block_and_uncles \<Rightarrow> unit pp_op" where
  "handle_advance_funds_timeout_expired env block = fbind (fget pp_advance_funds) (\<lambda>scheduler.
     if time_is_empty scheduler then fret ()
     else case check_expired (cb_timestamp (bu_block block)) scheduler of (expired_flows, scheduler') \<Rightarrow>
       fseq (fmod (\<lambda>p. p \<lparr> pp_advance_funds := scheduler' \<rparr>)) (ffor (trigger_operator_take_for_flow env) expired_flows))"

definition fail_flow :: "pegout_proc_env \<Rightarrow> uuid \<Rightarrow> unit pp_op" where
  "fail_flow env key = fbind (fget (\<lambda>p. map_of (pp_flows p) key)) (\<lambda>flow.
     fseq (case flow of Some _ \<Rightarrow> on_flow key (po_mark_failed (pn_flow env)) | None \<Rightarrow> fret ())
       (cleanup_terminal_flows env))"

section \<open>Registration retries\<close>

fun is_missing_native_bridge_confirmations :: "pegout_error \<Rightarrow> bool" where
  "is_missing_native_bridge_confirmations (PoContractFailed (MissingConfirmationsOnNativeBridge _)) = True"
| "is_missing_native_bridge_confirmations _ = False"

fun is_peg_status_completed :: "pegout_error \<Rightarrow> bool" where
  "is_peg_status_completed (PoContractFailed PegStatusAlreadyCompleted) = True"
| "is_peg_status_completed _ = False"

definition i16_saturating_add :: "i16 \<Rightarrow> i16 \<Rightarrow> i16" where
  "i16_saturating_add a b = word_of_int (max (- 32768) (min 32767 (sint a + sint b)))"

definition schedule_register_pegout_retry :: "pegout_proc_env \<Rightarrow> uuid \<Rightarrow> i16 \<Rightarrow> pegout_processor \<Rightarrow> pegout_processor" where
  "schedule_register_pegout_retry env key attempt p =
     p \<lparr> pp_unconfirmed := AList.update key attempt (pp_unconfirmed p),
         pp_register_retry := tick_schedule key (pn_btc_status_retry_blocks env) (pp_register_retry p) \<rparr>"

definition retry_register_pegout :: "pegout_proc_env \<Rightarrow> uuid \<Rightarrow> unit pp_op" where
  "retry_register_pegout env key = fbind (fget (\<lambda>p. map_of (pp_unconfirmed p) key)) (\<lambda>attempt_opt.
     fseq (fmod (\<lambda>p. p \<lparr> pp_unconfirmed := AList.delete key (pp_unconfirmed p) \<rparr>))
     (case attempt_opt of
        None \<Rightarrow> fret ()
      | Some attempt \<Rightarrow>
          fbind (fget (\<lambda>p. map_of (pp_flows p) key)) (\<lambda>flow.
          case flow of
            None \<Rightarrow> fret ()
          | Some st \<Rightarrow>
              if os_step st \<noteq> Po_RegisterPegout then fret ()
              else fbind (try_flow key (po_complete_step (pn_flow env) Pd_RetryRegisterPegout)) (\<lambda>r.
                case r of
                  Inr _ \<Rightarrow> fret ()
                | Inl err \<Rightarrow>
                    if is_peg_status_completed err then fret ()
                    else if \<not> is_missing_native_bridge_confirmations err then fret ()
                    else fmod (schedule_register_pegout_retry env (os_flow_id st) (i16_saturating_add attempt 1))))))"

definition handle_register_pegout_retry_tick :: "pegout_proc_env \<Rightarrow> unit pp_op" where
  "handle_register_pegout_retry_tick env = fbind (fget pp_register_retry) (\<lambda>scheduler.
     if tick_is_empty scheduler then fret ()
     else case tick scheduler of (ready, scheduler') \<Rightarrow>
       fseq (fmod (\<lambda>p. p \<lparr> pp_register_retry := scheduler' \<rparr>)) (ffor (retry_register_pegout env) ready))"

section \<open>Handlers\<close>

definition pp_process_user_request :: "pegout_proc_env \<Rightarrow> user_requests \<Rightarrow> unit pp_op" where
  "pp_process_user_request env req =
     fseq (cleanup_terminal_flows env)
     (fseq (case req of
              Admin (FailFlow kind key reason) \<Rightarrow> if kind = KPegout then fail_flow env key else fret ()
            | _ \<Rightarrow> fret ())
       (persist_processor_state env))"

definition complete_comm_info :: "pegout_proc_env \<Rightarrow> comms_address \<Rightarrow> unit pp_op" where
  "complete_comm_info env comm_info = fbind (fget (\<lambda>p. map fst (pp_flows p))) (\<lambda>keys.
     ffor (\<lambda>key. fbind (fget (flow_at key Po_GetCommInfoAuthoritativeCheckpoint)) (\<lambda>waiting.
       if waiting then on_flow key (po_complete_step (pn_flow env) (Pd_CommInfo comm_info)) else fret ())) keys)"

definition skip_signatures :: "pegout_proc_env \<Rightarrow> pegout_processor \<Rightarrow> bool" where
  "skip_signatures env p =
     (case get_force_advance_address (pn_environment env) (pn_force_file env (pp_trace p)) (pn_force_var env (pp_trace p)) of
        None \<Rightarrow> False
      | Some force_addr \<Rightarrow>
          lowercase (pn_show_address env (oe_my_address (pn_flow env))) = lowercase (trim force_addr))"

definition start_signatures ::
  "pegout_proc_env \<Rightarrow> uuid \<Rightarrow> string \<Rightarrow> uuid \<Rightarrow> register_signatures_data \<Rightarrow> unit pp_op" where
  "start_signatures env protocol_id pegout_log_id pegout_flow_id register_input p =
     (case start_signature_flow (pn_sig env) protocol_id register_input
             (sub_flow_new protocol_id pegout_log_id (pn_required_confirmations env) (Some (SpanPegout pegout_flow_id))) of
        (Inl e, _) \<Rightarrow> (Inl (PpSignatureFailed e), p)
      | (Inr _, f) \<Rightarrow> (Inr (), p \<lparr> pp_signature_flows := AList.update protocol_id f (pp_signature_flows p) \<rparr>))"

definition handle_pegout_accepted :: "pegout_proc_env \<Rightarrow> uuid \<Rightarrow> string \<Rightarrow> unit pp_op" where
  "handle_pegout_accepted env protocol_id data =
     fbind (fget (pegout_flow_by_protocol_id protocol_id)) (\<lambda>found.
     fbind (fok_or found (PpProtocolNotFound protocol_id)) (\<lambda>(key, st).
     fbind (fok_or (pn_accepted_json env data) PpBadAcceptedData) (\<lambda>input.
     if os_step st \<noteq> Po_PrepareUserTakeSetup then ffail (PpStepMismatch Po_PrepareUserTakeSetup (os_step st))
     else
       let register_input = \<lparr> rs_hash_to_sign = pq_signature_txid (oc_pegout_requested (os_ctx st)),
             rs_nonce = pa_user_take_nonce input, rs_signature = pa_user_take_signature input \<rparr>
       in fseq (on_flow key (po_complete_step (pn_flow env) (Pd_PegoutAccepted input)))
         (fbind (fget (skip_signatures env)) (\<lambda>skip.
          fseq (if skip then fret () else start_signatures env protocol_id (os_log_id st) (os_flow_id st) register_input)
            (fmod (\<lambda>p. p \<lparr> pp_pending_timeout := List.insert (os_flow_id st) (pp_pending_timeout p) \<rparr>)))))))"

text \<open>
  What is left to do after a handler: \<open>True\<close> to save the state of the processor. The branch for a
  registration that the contract says is complete returns without saving.
\<close>

definition handle_spv_proof :: "pegout_proc_env \<Rightarrow> txid \<Rightarrow> btc_tx_spv_proof option \<Rightarrow> bool pp_op" where
  "handle_spv_proof env tx_id spv_proof_opt =
     fbind (fok_or spv_proof_opt (PpSpvProofMissing tx_id)) (\<lambda>spv_proof.
     fbind (fget (flow_by_user_take_txid tx_id)) (\<lambda>found.
     case found of
       None \<Rightarrow> fret False
     | Some (key, st) \<Rightarrow>
         if os_step st \<noteq> Po_RequestUserTakeSpvProof
         then ffail (PpStepMismatch Po_RequestUserTakeSpvProof (os_step st))
         else fbind (try_flow key (po_complete_step (pn_flow env) (Pd_SpvProof spv_proof))) (\<lambda>r.
           case r of
             Inr _ \<Rightarrow> fret True
           | Inl err \<Rightarrow>
               if is_missing_native_bridge_confirmations err
               then fbind (fget (\<lambda>p. case map_of (pp_unconfirmed p) key of Some a \<Rightarrow> a | None \<Rightarrow> 0)) (\<lambda>attempt.
                    fseq (fmod (schedule_register_pegout_retry env (os_flow_id st) (i16_saturating_add attempt 1))) (fret True))
               else if is_peg_status_completed err then fret False
               else ffail (PpFlowFailed err))))"

definition pp_process_new_bitvmx_event :: "pegout_proc_env \<Rightarrow> outgoing_bitvmx_api_messages \<Rightarrow> unit pp_op" where
  "pp_process_new_bitvmx_event env event =
     fseq (cleanup_terminal_flows env)
     (fbind (case event of
          OCommInfo req_id comm_info \<Rightarrow> fseq (complete_comm_info env comm_info) (fret True)
        | OVariable protocol_id method (VString data) \<Rightarrow>
            if method = PEGOUT_ACCEPTED_NAME then fseq (handle_pegout_accepted env protocol_id data) (fret True) else fret True
        | OSPVProof tx_id spv_proof_opt \<Rightarrow> handle_spv_proof env tx_id spv_proof_opt
        | OTransaction protocol_id tx_status tx_opt \<Rightarrow>
            fseq (handle_transaction_status_received env protocol_id tx_status) (fret True)
        | _ \<Rightarrow> fret True) (\<lambda>saves.
      if saves then persist_processor_state env else fret ()))"

definition delegate_signature_event :: "pegout_event \<Rightarrow> unit pp_op" where
  "delegate_signature_event event = fbind (fget (\<lambda>p. map fst (pp_signature_flows p))) (\<lambda>keys.
     ffor (\<lambda>key. on_signature_flow key (delegate_rsk_event key event)) keys)"

definition pp_start_confirming :: "string \<Rightarrow> u32 \<Rightarrow> u64 \<Rightarrow> pegout_event \<Rightarrow> unit pp_op" where
  "pp_start_confirming i req n event p =
     (case start_confirming n (event_new i req) (pp_view p) of
        Inl e \<Rightarrow> (Inl (PpViewFailed e), p)
      | Inr (c, v) \<Rightarrow> (Inr (), p \<lparr> pp_view := v,
          pp_events_confirming := AList.update i \<lparr> cd_confirmation = c, cd_data = event \<rparr> (pp_events_confirming p) \<rparr>))"

definition pp_process_new_rsk_event :: "pegout_proc_env \<Rightarrow> pegout_event \<Rightarrow> unit pp_op" where
  "pp_process_new_rsk_event env event =
     (let register = (\<lambda>(i, is_removal, block_num, managed_event).
            fseq (if is_removal then fseq (stop_confirming_event i) (fret ())
                  else pp_start_confirming i (pn_required_confirmations env) block_num managed_event)
              (persist_processor_state env));
          unsigned_event = (\<lambda>info.
            if pn_required_confirmations env = 0
            then fseq (process_confirmed_rsk_event env event) (persist_processor_state env)
            else case info of Some i \<Rightarrow> register i | None \<Rightarrow> fret ())
      in fseq (cleanup_terminal_flows env)
        (case event of
           AllNoncesReady _ \<Rightarrow> fseq (delegate_signature_event event) (persist_processor_state env)
         | AllSignaturesReady _ \<Rightarrow> fseq (delegate_signature_event event) (persist_processor_state env)
         | PegoutRequested e \<Rightarrow> unsigned_event (Some (build_pegout_requested_event_info env e))
         | PegoutRegistered e \<Rightarrow> unsigned_event (Some (build_pegout_registered_event_info env e))
         | _ \<Rightarrow> unsigned_event None))"

definition pp_process_new_block :: "pegout_proc_env \<Rightarrow> block_and_uncles \<Rightarrow> unit pp_op" where
  "pp_process_new_block env block =
     fseq (cleanup_terminal_flows env)
     (fseq (fmod (schedule_pending_timeouts env block))
     (fseq (handle_advance_funds_timeout_expired env block)
     (fseq (process_unhandled_confirmed_sig_flow_events env block)
     (fseq (handle_transaction_status_tick env)
     (fseq (handle_register_pegout_retry_tick env)
     (fseq (process_block_confirmations env block)
       (persist_processor_state env)))))))"

definition pp_shutdown :: "pegout_processor \<Rightarrow> pegout_processor" where
  "pp_shutdown p = p \<lparr> pp_flows := [], pp_signature_flows := [], pp_events_confirming := [],
     pp_view := view_clear (pp_view p), pp_tx_status := tick_clear (pp_tx_status p),
     pp_advance_funds := time_clear (pp_advance_funds p), pp_pending_timeout := [],
     pp_register_retry := tick_clear (pp_register_retry p), pp_unconfirmed := [] \<rparr>"

section \<open>Restart\<close>

text \<open>What the store holds after a history: the last successful save that was not deleted since.\<close>

fun store_entry :: "pegout_proc_action pegout_action \<Rightarrow> (uuid \<times> pegout_state) list \<Rightarrow> (uuid \<times> pegout_state) list" where
  "store_entry (PoSaved fid st True) m = AList.update fid st m"
| "store_entry (Elsewhere (DeletedFlow fid True)) m = AList.delete fid m"
| "store_entry _ m = m"

definition stored_flows :: "pp_trace \<Rightarrow> (uuid \<times> pegout_state) list" where
  "stored_flows t = fold store_entry t []"

fun last_processor :: "pegout_proc_action pegout_action \<Rightarrow> pegout_processor_state option \<Rightarrow> pegout_processor_state option" where
  "last_processor (Elsewhere (SavedProcessor st True)) _ = Some st"
| "last_processor _ m = m"

definition stored_processor :: "pp_trace \<Rightarrow> pegout_processor_state option" where
  "stored_processor t = fold last_processor t None"

definition pp_restore_flows :: "pegout_proc_env \<Rightarrow> pp_trace \<Rightarrow> (uuid \<times> pegout_state) list" where
  "pp_restore_flows env t =
     fold (\<lambda>(_, st). let flow = of_state (po_from_saved_state (pn_flow env) st t) in AList.update (os_flow_id flow) flow)
       (stored_flows t) []"

fun restore_signature_flows ::
  "u32 \<Rightarrow> (uuid \<times> sig_sub_flow_snapshot) list \<Rightarrow> sig_error + (uuid \<times> sig_sub_flow) list" where
  "restore_signature_flows req [] = Inr []"
| "restore_signature_flows req ((i, s) # rest) =
     res_bind (sub_flow_from_snapshot s req []) (\<lambda>f.
     res_bind (restore_signature_flows req rest) (\<lambda>fs. Inr ((i, f) # fs)))"

definition apply_processor_state :: "pegout_proc_env \<Rightarrow> pegout_processor_state \<Rightarrow> unit pp_op" where
  "apply_processor_state env st =
     fbind (lift_res (map_failure PpViewFailed (restore_confirmable_events (sp_events_confirming st)))) (\<lambda>(view, evs).
     fseq (fmod (\<lambda>p. p \<lparr> pp_events_confirming := evs, pp_view := view, pp_tx_status := sp_tx_status_scheduler st,
             pp_advance_funds := sp_advance_funds_timeout_scheduler st, pp_pending_timeout := sp_flows_pending_timeout st,
             pp_unconfirmed := sp_unconfirmed_register_pegout st,
             pp_register_retry := sp_register_pegout_retry_scheduler st \<rparr>))
      (fbind (lift_res (map_failure PpSignatureFailed
          (restore_signature_flows (pn_required_confirmations env) (sp_signature_flows st)))) (\<lambda>fs.
       fmod (\<lambda>p. p \<lparr> pp_signature_flows := fs \<rparr>))))"

definition rearm :: "pegout_proc_env \<Rightarrow> uuid \<Rightarrow> pegout_steps \<Rightarrow> pegout_processor \<Rightarrow> pegout_processor" where
  "rearm env key step p =
     (case step of
        Po_WaitUserTakeSignaturesReady \<Rightarrow>
          if time_is_scheduled key (pp_advance_funds p) then p
          else p \<lparr> pp_pending_timeout := List.insert key (pp_pending_timeout p) \<rparr>
      | Po_ConfirmUserTakeTransaction \<Rightarrow>
          if tick_is_scheduled key (pp_tx_status p) then p
          else p \<lparr> pp_tx_status := tick_schedule key (pn_btc_status_retry_blocks env) (pp_tx_status p) \<rparr>
      | Po_RegisterPegout \<Rightarrow>
          p \<lparr> pp_unconfirmed := (if map_of (pp_unconfirmed p) key = None
                 then AList.update key 0 (pp_unconfirmed p) else pp_unconfirmed p),
              pp_register_retry := (if tick_is_scheduled key (pp_register_retry p) then pp_register_retry p
                 else tick_schedule key (pn_btc_status_retry_blocks env) (pp_register_retry p)) \<rparr>
      | _ \<Rightarrow> p)"

definition reconstruct_runtime_state_from_flows :: "pegout_proc_env \<Rightarrow> unit pp_op" where
  "reconstruct_runtime_state_from_flows env = fbind (fget pp_flows) (\<lambda>flows.
     ffor (\<lambda>(key, st). fseq (fmod (rearm env key (os_step st)))
       (on_flow key (redrive_pending_bitvmx_request (pn_flow env)))) flows)"

definition restore_processor_state :: "pegout_proc_env \<Rightarrow> unit pp_op" where
  "restore_processor_state env = fbind (fget pp_trace) (\<lambda>t.
     fseq (fensure (pn_load env t) PpStoreFailed)
     (fseq (case stored_processor t of Some st \<Rightarrow> apply_processor_state env st | None \<Rightarrow> fret ())
       (reconstruct_runtime_state_from_flows env)))"

definition pp_restore_or_new :: "pegout_proc_env \<Rightarrow> unit pp_op" where
  "pp_restore_or_new env = fbind (fget pp_trace) (\<lambda>t.
     fseq (fmod (\<lambda>_. pp_new t))
     (fseq (fensure (pn_load env t) PpStoreFailed)
     (fseq (fmod (\<lambda>p. p \<lparr> pp_flows := pp_restore_flows env t \<rparr>))
       (restore_processor_state env))))"

end
