(* ===== verification/Pegout_Proc_Rules.thy ===== *)
theory Pegout_Proc_Rules
  imports Pegout_Processor Pegout_Safety
begin

text \<open>
  Properties that the pegout processor keeps. A property has to be closed under what the handlers
  do to the flows, to the history and to the timers; that every handler keeps it then follows once,
  for all properties.
\<close>

section \<open>The contract of a kept property\<close>

definition timer_entries :: "pegout_processor \<Rightarrow> (uuid \<times> u64) set" where
  "timer_entries p = set (tb_pending (pp_advance_funds p))"

locale processor_property =
  fixes env :: pegout_proc_env and P :: "pegout_processor \<Rightarrow> bool" and timeouts :: bool
    and block_ok :: "block_and_uncles \<Rightarrow> bool"
  assumes runtime: "P p \<Longrightarrow> pp_flows q = pp_flows p \<Longrightarrow> pp_trace q = pp_trace p \<Longrightarrow>
      timer_entries q \<subseteq> timer_entries p \<Longrightarrow> P q"
    and timer: "P p \<Longrightarrow> block_ok b \<Longrightarrow> P (p \<lparr> pp_advance_funds :=
      time_schedule k (cb_timestamp (bu_block b)) (pn_advance_funds_timeout_secs env) (pp_advance_funds p) \<rparr>)"
    and complete [keeps_intros]: "(data = Pd_TriggerOperatorTakeTimeout \<Longrightarrow> timeouts) \<Longrightarrow>
      keeps P (try_flow k (po_complete_step (pn_flow env) data))"
    and failed [keeps_intros]: "keeps P (try_flow k (po_mark_failed (pn_flow env)))"
    and status [keeps_intros]: "keeps P (try_flow k (po_request_transaction_status (pn_flow env)))"
    and created [keeps_intros]: "keeps P (create_flow_for_pegout_requested env requested tx_hash)"
    and cleaned [keeps_intros]: "keeps P (cleanup_terminal_flows env)"
    and saved: "P p \<Longrightarrow> P (p \<lparr> pp_trace := pp_trace p @ [Elsewhere (SavedProcessor (snapshot_processor_state p) ok)] \<rparr>)"
begin

lemma runtime_mod [keeps_intros]:
  "(\<And>p. pp_flows (g p) = pp_flows p \<and> pp_trace (g p) = pp_trace p \<and> timer_entries (g p) \<subseteq> timer_entries p) \<Longrightarrow> keeps P (fmod g)"
  by (auto simp: keeps_def fmod_def intro: runtime)

lemma try_then [keeps_intros]: "keeps P (try_flow k m) \<Longrightarrow> keeps P (on_flow k m)"
  unfolding on_flow_def by (rule keeps_bind) (auto simp: keeps_def lift_res_def)

lemma persist_keeps [keeps_intros]: "keeps P (persist_processor_state env)"
  by (auto simp: keeps_def persist_processor_state_def pp_perform_def flow_defs Let_def intro: saved)

lemma signature_flow_keeps [keeps_intros]: "keeps P (on_signature_flow k m)"
  by (auto simp: keeps_def on_signature_flow_def timer_entries_def split: option.splits prod.splits intro: runtime)

lemma stop_confirming_keeps [keeps_intros]: "keeps P (stop_confirming_event i)"
  by (auto simp: keeps_def stop_confirming_event_def timer_entries_def Let_def split: option.splits intro: runtime)

lemma update_view_keeps [keeps_intros]: "keeps P (pp_update_view b)"
  by (auto simp: keeps_def pp_update_view_def timer_entries_def split: sum.splits intro: runtime)

lemma start_confirming_keeps [keeps_intros]: "keeps P (pp_start_confirming i req n e)"
  by (auto simp: keeps_def pp_start_confirming_def timer_entries_def split: sum.splits intro: runtime)

lemma start_signatures_keeps [keeps_intros]: "keeps P (start_signatures env' i l j d)"
  by (auto simp: keeps_def start_signatures_def timer_entries_def split: sum.splits prod.splits intro: runtime)

lemma registered_keeps [keeps_intros]: "keeps P (handle_pegout_registered env r h)"
  unfolding handle_pegout_registered_def by (rule keeps_bind) (auto intro!: keeps_intros split: option.splits)

lemma confirmed_event_keeps [keeps_intros]: "keeps P (process_confirmed_rsk_event env e)"
  unfolding process_confirmed_rsk_event_def
  by (auto intro!: keeps_intros split: rsk_peg_manager_events.splits pegout_payload.splits sum.splits)

lemma block_confirmations_keeps [keeps_intros]: "keeps P (process_block_confirmations env b)"
  unfolding process_block_confirmations_def by (intro keeps_intros)

lemma dispatch_keeps [keeps_intros]: "keeps P (dispatch_signed_flow env i)"
  unfolding dispatch_signed_flow_def
  by (auto intro!: keeps_intros simp: timer_entries_def time_cancel_def AList.delete_eq split: option.splits)

lemma sig_flows_keeps [keeps_intros]: "keeps P (process_unhandled_confirmed_sig_flow_events env b)"
  unfolding process_unhandled_confirmed_sig_flow_events_def by (intro keeps_intros)

lemma status_keeps [keeps_intros]:
  "keeps P (handle_transaction_status_received env i t)" "keeps P (handle_transaction_status_tick env)"
  unfolding handle_transaction_status_received_def handle_transaction_status_tick_def
  by (auto intro!: keeps_intros simp: timer_entries_def split: option.splits prod.splits)

lemma fail_keeps [keeps_intros]: "keeps P (fail_flow env k)"
  unfolding fail_flow_def by (auto intro!: keeps_intros split: option.splits)

lemma retry_keeps [keeps_intros]: "keeps P (retry_register_pegout env k)"
  unfolding retry_register_pegout_def
  by (auto intro!: keeps_intros simp: timer_entries_def schedule_register_pegout_retry_def split: option.splits sum.splits)

lemma retry_tick_keeps [keeps_intros]: "keeps P (handle_register_pegout_retry_tick env)"
  unfolding handle_register_pegout_retry_tick_def
  by (auto intro!: keeps_intros simp: timer_entries_def split: prod.splits)

lemma bitvmx_parts_keep [keeps_intros]:
  "keeps P (complete_comm_info env c)" "keeps P (handle_pegout_accepted env i d)"
  "keeps P (handle_spv_proof env x y)" "keeps P (delegate_signature_event e)"
  unfolding complete_comm_info_def handle_pegout_accepted_def handle_spv_proof_def delegate_signature_event_def Let_def
  by (auto intro!: keeps_intros simp: timer_entries_def schedule_register_pegout_retry_def
      split: option.splits sum.splits prod.splits)

lemma user_request_keeps: "keeps P (pp_process_user_request env r)"
  unfolding pp_process_user_request_def
  by (auto intro!: keeps_intros split: user_requests.splits admin_request.splits)

lemma bitvmx_event_keeps: "keeps P (pp_process_new_bitvmx_event env e)"
  unfolding pp_process_new_bitvmx_event_def
  by (intro keeps_intros; cases e) (auto intro!: keeps_intros split: variable_types.splits)

lemma rsk_event_keeps: "keeps P (pp_process_new_rsk_event env e)"
  unfolding pp_process_new_rsk_event_def Let_def
  by (intro keeps_intros; cases e) (auto intro!: keeps_intros split: prod.splits)

text \<open>The timers: setting one, and what their expiry does.\<close>

lemma schedule_timeouts_keeps:
  assumes "block_ok b"
  shows "keeps P (fmod (schedule_pending_timeouts env b))"
proof -
  let ?step = "\<lambda>key p. let q = (if flow_at key Po_WaitUserTakeSignaturesReady p
                 then p \<lparr> pp_advance_funds := time_schedule key (cb_timestamp (bu_block b))
                        (pn_advance_funds_timeout_secs env) (pp_advance_funds p) \<rparr>
                 else p)
        in q \<lparr> pp_pending_timeout := removeAll key (pp_pending_timeout q) \<rparr>"
  have "P (q \<lparr> pp_pending_timeout := x \<rparr>)" if "P q" for q x
    by (rule runtime [OF that]) (simp_all add: timer_entries_def)
  then have one: "P (?step k p)" if "P p" for k p
    using that timer [OF that assms] by (auto simp: Let_def)
  have "P (fold ?step xs p)" if "P p" for xs p
    using that by (induction xs arbitrary: p) (simp_all add: one del: Let_def)
  then show ?thesis by (auto simp: keeps_def fmod_def schedule_pending_timeouts_def)
qed

lemma expired_entries: "timer_entries (p \<lparr> pp_advance_funds := snd (check_expired n (pp_advance_funds p)) \<rparr>) \<subseteq> timer_entries p"
  by (auto simp: timer_entries_def check_expired_def Let_def fold_delete)

lemma trigger_keeps: "timeouts \<Longrightarrow> keeps P (trigger_operator_take_for_flow env k)"
  unfolding trigger_operator_take_for_flow_def by (auto intro!: keeps_intros simp: timer_entries_def)

lemma timeouts_keep: "timeouts \<Longrightarrow> keeps P (handle_advance_funds_timeout_expired env b)"
  unfolding keeps_def
proof (intro allI impI)
  fix p
  assume t: timeouts and p: "P p"
  let ?r = "check_expired (cb_timestamp (bu_block b)) (pp_advance_funds p)"
  have "P (p \<lparr> pp_advance_funds := snd ?r \<rparr>)" by (rule runtime [OF p _ _ expired_entries]) simp_all
  then have "P (snd (ffor (trigger_operator_take_for_flow env) (fst ?r) (p \<lparr> pp_advance_funds := snd ?r \<rparr>)))"
    by (rule keepsD [OF keeps_for [OF trigger_keeps [OF t]]])
  with p show "P (snd (handle_advance_funds_timeout_expired env b p))"
    by (auto simp: handle_advance_funds_timeout_expired_def flow_simps split: prod.splits)
qed

lemma rest_of_block_keeps:
  "keeps P (fseq (process_unhandled_confirmed_sig_flow_events env b) (fseq (handle_transaction_status_tick env)
     (fseq (handle_register_pegout_retry_tick env) (fseq (process_block_confirmations env b) (persist_processor_state env)))))"
  by (intro keeps_intros)

lemma block_keeps: "timeouts \<Longrightarrow> block_ok b \<Longrightarrow> keeps P (pp_process_new_block env b)"
  unfolding pp_process_new_block_def by (intro keeps_intros schedule_timeouts_keeps timeouts_keep rest_of_block_keeps)

end

end
