(* ===== verification/Pegout_Proc_Safety.thy ===== *)
theory Pegout_Proc_Safety
  imports Pegout_Proc_Rules
begin

text \<open>
  The processor of the pegout flows keeps what the flows guarantee: their saves and contract calls
  stay in order in the one history they share, whatever events arrive and wherever the process
  stops and restarts. A flow is found by the BitVMX program it runs, and no two flows share one.
\<close>

section \<open>The invariant of the flows\<close>

definition flow_fine :: "pegout_proc_env \<Rightarrow> pp_trace \<Rightarrow> uuid \<times> pegout_state \<Rightarrow> bool" where
  "flow_fine env t ks \<longleftrightarrow> fst ks = os_flow_id (snd ks) \<and> po_state_inv (pn_flow env) (set t) (snd ks)"

text \<open>Timers, in memory and in every saved state of the processor, expire at one of the times \<open>T\<close>.\<close>

definition saved_timers :: "u64 set \<Rightarrow> pp_trace \<Rightarrow> bool" where
  "saved_timers T t \<longleftrightarrow> (\<forall>st ok. Elsewhere (SavedProcessor st ok) \<in> set t \<longrightarrow>
     snd ` set (tb_pending (sp_advance_funds_timeout_scheduler st)) \<subseteq> T)"

definition pp_inv :: "pegout_proc_env \<Rightarrow> u64 set \<Rightarrow> pegout_processor \<Rightarrow> bool" where
  "pp_inv env T p \<longleftrightarrow> pj.journaled (pn_flow env) (pp_trace p) \<and> distinct (map fst (pp_flows p)) \<and>
     (\<forall>ks \<in> set (pp_flows p). flow_fine env (pp_trace p) ks) \<and>
     snd ` timer_entries p \<subseteq> T \<and> saved_timers T (pp_trace p)"

lemma flow_fine_mono: "flow_fine env t ks \<Longrightarrow> set t \<subseteq> set t' \<Longrightarrow> flow_fine env t' ks"
  by (auto simp: flow_fine_def intro: po_state_inv_mono)

lemma update_set: "ks \<in> set (AList.update k v m) \<Longrightarrow> ks = (k, v) \<or> ks \<in> set m"
  by (induction m) (auto split: if_splits)

text \<open>What a method of a flow must guarantee to be run by the processor.\<close>

definition flow_op_ok :: "pegout_proc_env \<Rightarrow> (pegout_proc_action, 'a) pegout_op \<Rightarrow> bool" where
  "flow_op_ok env m \<longleftrightarrow> keeps (po_inv (pn_flow env)) m \<and> (\<exists>b. keeps_flow (pn_flow env) b m)"

lemma run_flow_inv:
  assumes ok: "flow_op_ok env m" and inv: "pp_inv env T p"
    and st: "po_state_inv (pn_flow env) (set (pp_trace p)) st" "os_flow_id st = k"
    and run: "m \<lparr> of_state = st, of_trace = pp_trace p \<rparr> = (r, g)"
  shows "pp_inv env T (p \<lparr> pp_flows := AList.update k (of_state g) (pp_flows p), pp_trace := of_trace g \<rparr>)"
    and "pp_inv env T (p \<lparr> pp_trace := of_trace g \<rparr>)"
proof -
  let ?f = "\<lparr> of_state = st, of_trace = pp_trace p \<rparr>"
  have "po_inv (pn_flow env) ?f" using inv st by (simp add: po_inv_def pp_inv_def)
  then have g: "po_inv (pn_flow env) g" using ok run keepsD [of "po_inv (pn_flow env)" m ?f] by (simp add: flow_op_ok_def)
  obtain b where same: "same_flow (pn_flow env) b ?f g"
    using ok run keeps_flowD [of "pn_flow env" _ m ?f] by (auto simp: flow_op_ok_def)
  then obtain u where u: "of_trace g = pp_trace p @ u" "\<forall>a \<in> set u. own_entry (pn_flow env) b ?f a"
    by (auto simp: same_flow_def)
  have "Elsewhere x \<notin> set u" for x using bspec [OF u(2), of "Elsewhere x"] by auto
  then have saved: "saved_timers T (of_trace g)" using inv u(1) by (simp add: saved_timers_def pp_inv_def)
  from same have grows: "set (pp_trace p) \<subseteq> set (of_trace g)" and fid: "os_flow_id (of_state g) = k"
    using st(2) by (auto simp: same_flow_def same_identity_def)
  have "flow_fine env (of_trace g) (k, of_state g)" using g fid by (simp add: flow_fine_def po_inv_def)
  moreover have "flow_fine env (of_trace g) ks" if "ks \<in> set (pp_flows p)" for ks
    using inv that flow_fine_mono [OF _ grows] by (auto simp: pp_inv_def)
  ultimately show "pp_inv env T (p \<lparr> pp_flows := AList.update k (of_state g) (pp_flows p), pp_trace := of_trace g \<rparr>)"
    and "pp_inv env T (p \<lparr> pp_trace := of_trace g \<rparr>)"
    using g inv saved by (auto simp: pp_inv_def po_inv_def distinct_update timer_entries_def dest!: update_set)
qed

lemma flow_of_map: "pp_inv env T p \<Longrightarrow> map_of (pp_flows p) k = Some st \<Longrightarrow>
    po_state_inv (pn_flow env) (set (pp_trace p)) st \<and> os_flow_id st = k"
  by (auto simp: pp_inv_def flow_fine_def dest: map_of_SomeD)

named_theorems pp_intros

lemma run_known_flow_inv:
  assumes "flow_op_ok env m" and "pp_inv env T p" and "map_of (pp_flows p) k = Some st"
    and "m \<lparr> of_state = st, of_trace = pp_trace p \<rparr> = (r, g)"
  shows "pp_inv env T (p \<lparr> pp_flows := AList.update k (of_state g) (pp_flows p), pp_trace := of_trace g \<rparr>)"
  using run_flow_inv(1) [OF assms(1,2) _ _ assms(4)] flow_of_map [OF assms(2,3)] by blast

lemma keeps_try_flow [pp_intros]: "flow_op_ok env m \<Longrightarrow> keeps (pp_inv env T) (try_flow k m)"
  unfolding keeps_def try_flow_def
  by (auto split: option.splits prod.splits intro: run_known_flow_inv)

lemma flow_ops [pp_intros]:
  "flow_op_ok env (po_complete_step (pn_flow env) data)" "flow_op_ok env (po_mark_failed (pn_flow env))"
proof -
  have "keeps (po_inv (pn_flow env)) (po_complete_step (pn_flow env) data)"
    by (rule keeps_wp, rule wp_mono [OF po_complete_step_moved]) (auto simp: po_moved_def)
  moreover have "keeps (po_inv (pn_flow env)) (po_mark_failed (pn_flow env))"
    by (rule keeps_wp, rule wp_mono [OF po_mark_failed_inv]) (auto simp: at_po_inv)
  ultimately show "flow_op_ok env (po_complete_step (pn_flow env) data)" "flow_op_ok env (po_mark_failed (pn_flow env))"
    by (auto simp: flow_op_ok_def intro: keeps_flow_complete)
qed

text \<open>Requests that keep their promise even where the data they need is not there.\<close>

lemma po_send_inv: "keeps (po_inv env) (po_send_bitvmx_msg env m)"
proof (rule keeps_wp)
  fix f
  assume "po_inv env f"
  then show "wp (po_send_bitvmx_msg env m) (\<lambda>_. po_inv env) (\<lambda>_. po_inv env) f"
    using safe_at_po [OF po_send_safe, of env f "po_step f" m]
    by (auto simp: po_inv_def at_po_def elim!: wp_mono)
qed

lemma flow_requests [pp_intros]:
  "flow_op_ok env (po_request_transaction_status (pn_flow env))"
  "flow_op_ok env (redrive_pending_bitvmx_request (pn_flow env))"
proof -
  have "keeps (po_inv (pn_flow env)) (po_request_transaction_status (pn_flow env))"
    unfolding po_request_transaction_status_def by (intro keeps_intros po_send_inv)
  then show "flow_op_ok env (po_request_transaction_status (pn_flow env))"
    by (auto simp: flow_op_ok_def intro: same_intros)
  have "keeps (po_inv (pn_flow env)) (redrive_pending_bitvmx_request (pn_flow env))"
    unfolding redrive_pending_bitvmx_request_def request_pegout_accepted_var_def po_request_bitvmx_comm_info_def po_request_spv_proof_def
    by (rule keeps_bind) (auto intro!: keeps_intros po_send_inv split: pegout_steps.splits)
  then show "flow_op_ok env (redrive_pending_bitvmx_request (pn_flow env))"
    by (auto simp: flow_op_ok_def intro: keeps_flow_redrive)
qed

section \<open>Terminal flows\<close>

lemma forget_flow_flows: "pp_flows (forget_flow ids p) = pp_flows p" "pp_trace (forget_flow ids p) = pp_trace p"
  by (simp_all add: forget_flow_def split: prod.splits)

lemma cleanup_state_flows [simp]:
  "pp_flows (cleanup_terminal_flow_state p) = pp_flows p" "pp_trace (cleanup_terminal_flow_state p) = pp_trace p"
proof -
  have "pp_flows (fold forget_flow xs p) = pp_flows p \<and> pp_trace (fold forget_flow xs p) = pp_trace p" for xs p
    by (induction xs arbitrary: p) (simp_all add: forget_flow_flows)
  then show "pp_flows (cleanup_terminal_flow_state p) = pp_flows p" "pp_trace (cleanup_terminal_flow_state p) = pp_trace p"
    by (simp_all add: cleanup_terminal_flow_state_def)
qed

lemma cleanup_state_timers: "timer_entries (cleanup_terminal_flow_state p) \<subseteq> timer_entries p"
proof -
  have one: "timer_entries (forget_flow ids p) \<subseteq> timer_entries p" for ids p
    by (auto simp: forget_flow_def timer_entries_def time_cancel_def AList.delete_eq split: prod.splits)
  have "timer_entries (fold forget_flow xs p) \<subseteq> timer_entries p" for xs p
  proof (induction xs arbitrary: p)
    case (Cons x xs)
    then show ?case using one [of x p] by (simp add: order_trans [OF Cons.IH])
  qed simp
  then show ?thesis by (simp add: cleanup_terminal_flow_state_def)
qed

lemma keeps_deleted: "keeps (pp_inv env T) (pp_perform answer (DeletedFlow k))"
  unfolding keeps_def pp_perform_def
  by (auto simp: Let_def pp_inv_def timer_entries_def saved_timers_def elim!: flow_fine_mono)

lemma cleanup_state_inv: "pp_inv env T p \<Longrightarrow> pp_inv env T (cleanup_terminal_flow_state p)"
  using order_trans [OF image_mono [OF cleanup_state_timers, of snd p]] by (simp add: pp_inv_def)

lemma drop_terminal_inv:
  "pp_inv env T p \<Longrightarrow> pp_inv env T (p \<lparr> pp_flows := filter (\<lambda>(_, st). \<not> po_is_terminal st) (pp_flows p) \<rparr>)"
  by (simp add: pp_inv_def distinct_map_filter timer_entries_def)

lemma keeps_cleanup: "keeps (pp_inv env T) (cleanup_terminal_flows env')"
  unfolding cleanup_terminal_flows_def by (intro keeps_intros keeps_deleted cleanup_state_inv drop_terminal_inv)

section \<open>Creation of a flow\<close>

lemma new_flow_fine:
  assumes "pegout_flow_new (pn_flow env) requested tx_hash t = Inr f"
  shows "po_state_inv (pn_flow env) S (of_state f)" "of_trace f = t"
    "os_flow_id (of_state f) = flow_id_from_pegout_requested_tx_hash (pn_flow env) tx_hash"
    "os_step (of_state f) = Po_WaitPegoutRequested"
  using assms
  by (auto simp: pegout_flow_new_def Let_def po_state_inv_def po_holds_def po_data_def program_known_def split: sum.splits)

lemma flow_eta: "\<lparr> of_state = of_state f, of_trace = of_trace f \<rparr> = (f :: 'x pegout_flow)"
  by simp

lemma keeps_create [pp_intros]: "keeps (pp_inv env T) (create_flow_for_pegout_requested env requested tx_hash)"
  unfolding keeps_def
proof (intro allI impI)
  fix p
  assume inv: "pp_inv env T p"
  have "pp_inv env T (p \<lparr> pp_flows := AList.update (os_flow_id (of_state f)) (of_state g) (pp_flows p), pp_trace := of_trace g \<rparr>) \<and>
      pp_inv env T (p \<lparr> pp_trace := of_trace g \<rparr>)"
    if new: "pegout_flow_new (pn_flow env) requested tx_hash (pp_trace p) = Inr f"
      and run: "po_complete_step (pn_flow env) Pd_PegoutRequested f = (r, g)" for f r g
  proof -
    have "f = \<lparr> of_state = of_state f, of_trace = pp_trace p \<rparr>" using new_flow_fine(2) [OF new] flow_eta [of f] by simp
    with run have run': "po_complete_step (pn_flow env) Pd_PegoutRequested \<lparr> of_state = of_state f, of_trace = pp_trace p \<rparr> = (r, g)"
      by metis
    from run_flow_inv [OF flow_ops(1) inv new_flow_fine(1) [OF new] refl run'] show ?thesis by blast
  qed
  then show "pp_inv env T (snd (create_flow_for_pegout_requested env requested tx_hash p))"
    using inv by (auto simp: create_flow_for_pegout_requested_def split: sum.splits option.splits prod.splits)
qed

section \<open>Handlers\<close>

interpretation fine: processor_property env "pp_inv env T" True
  "\<lambda>b. cb_timestamp (bu_block b) + pn_advance_funds_timeout_secs env \<in> T" for env T
proof unfold_locales
  show "pp_inv env T q" if "pp_inv env T p" "pp_flows q = pp_flows p" "pp_trace q = pp_trace p"
      "timer_entries q \<subseteq> timer_entries p" for p q
    using that by (auto simp: pp_inv_def)
  show "pp_inv env T (p \<lparr> pp_advance_funds := time_schedule k (cb_timestamp (bu_block b))
      (pn_advance_funds_timeout_secs env) (pp_advance_funds p) \<rparr>)"
    if "pp_inv env T p" "cb_timestamp (bu_block b) + pn_advance_funds_timeout_secs env \<in> T" for p b k
    using that by (auto simp: pp_inv_def timer_entries_def time_schedule_def Let_def dest!: update_set)
  show "pp_inv env T (p \<lparr> pp_trace := pp_trace p @ [Elsewhere (SavedProcessor (snapshot_processor_state p) ok)] \<rparr>)"
    if "pp_inv env T p" for p ok
    using that by (auto simp: pp_inv_def timer_entries_def saved_timers_def snapshot_processor_state_def elim!: flow_fine_mono)
qed (intro keeps_try_flow flow_ops flow_requests keeps_create keeps_cleanup)+

text \<open>What can happen to the processor.\<close>

datatype pp_input =
    UserRequest user_requests
  | BitvmxEvent outgoing_bitvmx_api_messages
  | RskEvent pegout_event
  | NewBlock block_and_uncles

fun pp_handle :: "pegout_proc_env \<Rightarrow> pp_input \<Rightarrow> unit pp_op" where
  "pp_handle env (UserRequest r) = pp_process_user_request env r"
| "pp_handle env (BitvmxEvent e) = pp_process_new_bitvmx_event env e"
| "pp_handle env (RskEvent e) = pp_process_new_rsk_event env e"
| "pp_handle env (NewBlock b) = pp_process_new_block env b"

fun seen_blocks :: "pp_input \<Rightarrow> block_and_uncles list" where
  "seen_blocks (NewBlock b) = [b]"
| "seen_blocks _ = []"

definition expiries :: "pegout_proc_env \<Rightarrow> block_and_uncles list \<Rightarrow> u64 set" where
  "expiries env bs = (\<lambda>b. cb_timestamp (bu_block b) + pn_advance_funds_timeout_secs env) ` set bs"

lemma pp_inv_mono: "pp_inv env T p \<Longrightarrow> T \<subseteq> U \<Longrightarrow> pp_inv env U p"
  unfolding pp_inv_def saved_timers_def by (meson order_trans)

lemma handle_inv:
  assumes "pp_inv env (expiries env bs) p"
  shows "pp_inv env (expiries env (seen_blocks i @ bs)) (snd (pp_handle env i p))"
proof -
  have p: "pp_inv env (expiries env (seen_blocks i @ bs)) p" using assms by (rule pp_inv_mono) (auto simp: expiries_def)
  show ?thesis
    using keepsD [OF fine.user_request_keeps p] keepsD [OF fine.bitvmx_event_keeps p] keepsD [OF fine.rsk_event_keeps p]
      keepsD [OF fine.block_keeps p]
    by (cases i) (auto simp: expiries_def)
qed

section \<open>Restart\<close>

lemma store_entry_distinct: "distinct (map fst m) \<Longrightarrow> distinct (map fst (store_entry a m))"
  by (induction a m rule: store_entry.induct) (simp_all add: distinct_update distinct_delete)

lemma stored_flows_distinct: "distinct (map fst (stored_flows t))"
  unfolding stored_flows_def by (induction t rule: rev_induct) (simp_all add: store_entry_distinct)

lemma store_entry_saved:
  "ks \<in> set (store_entry a m) \<Longrightarrow> ks \<in> set m \<or> (\<exists>k st. ks = (k, st) \<and> a = PoSaved k st True)"
  by (induction a m rule: store_entry.induct) (auto dest: update_set simp: AList.delete_eq)

lemma stored_flows_saved: "(k, st) \<in> set (stored_flows t) \<Longrightarrow> PoSaved k st True \<in> set t"
  unfolding stored_flows_def
  by (induction t rule: rev_induct) (auto dest!: store_entry_saved)

lemma stored_flows_fine:
  assumes "pj.journaled (pn_flow env) t" and "ks \<in> set (stored_flows t)"
  shows "flow_fine env t ks"
proof -
  obtain k st where ks: "ks = (k, st)" by (cases ks)
  with assms stored_flows_saved obtain u where "set u \<subseteq> set t" "po_justified (pn_flow env) (set u) (PoSaved k st True)"
    using pj.journaled_in by metis
  then show ?thesis by (auto simp: ks flow_fine_def intro: po_state_inv_mono)
qed

lemma from_saved_fine [simp]:
  "po_state_inv env S (of_state (po_from_saved_state env' st t)) = po_state_inv env S st"
  "os_flow_id (of_state (po_from_saved_state env' st t)) = os_flow_id st"
  "os_step (of_state (po_from_saved_state env' st t)) = os_step st"
  "os_ctx (of_state (po_from_saved_state env' st t)) = os_ctx st"
  by (simp_all add: po_from_saved_state_def po_state_inv_def)

lemma restore_fold:
  "set (fold (\<lambda>(_, st). let flow = of_state (po_from_saved_state env st t) in AList.update (os_flow_id flow) flow) m acc)
     \<subseteq> set acc \<union> (\<lambda>(_, st). (os_flow_id st, of_state (po_from_saved_state env st t))) ` set m"
  "distinct (map fst acc) \<Longrightarrow>
     distinct (map fst (fold (\<lambda>(_, st). let flow = of_state (po_from_saved_state env st t) in AList.update (os_flow_id flow) flow) m acc))"
  by (induction m arbitrary: acc) (fastforce simp: Let_def distinct_update dest: update_set)+

lemma restore_flows_fine:
  assumes "pj.journaled (pn_flow env) t" and "saved_timers T t"
  shows "pp_inv env T ((pp_new t) \<lparr> pp_flows := pp_restore_flows env t \<rparr>)"
  using assms restore_fold [where acc = "[]" and m = "stored_flows t" and env = "pn_flow env" and t = t] stored_flows_fine [OF assms(1)]
  by (fastforce simp: pp_inv_def pp_new_def pp_restore_flows_def flow_fine_def timer_entries_def time_new_def)

lemma stored_processor_saved: "stored_processor t = Some st \<Longrightarrow> Elsewhere (SavedProcessor st True) \<in> set t"
proof -
  have "last_processor a m = m \<or> (\<exists>st. a = Elsewhere (SavedProcessor st True) \<and> last_processor a m = Some st)" for a m
    by (induction a m rule: last_processor.induct) simp_all
  then show "stored_processor t = Some st \<Longrightarrow> Elsewhere (SavedProcessor st True) \<in> set t"
    unfolding stored_processor_def by (induction t rule: rev_induct) (auto, metis option.inject)
qed

lemma rearm_flows [simp]:
  "pp_flows (rearm env k s p) = pp_flows p" "pp_trace (rearm env k s p) = pp_trace p" "timer_entries (rearm env k s p) = timer_entries p"
  by (simp_all add: rearm_def timer_entries_def split: pegout_steps.splits)

lemma keeps_reconstruct: "keeps (pp_inv env T) (reconstruct_runtime_state_from_flows env)"
proof -
  have "keeps (pp_inv env T) (fmod (rearm env k s))" for k s
    by (rule keeps_mod) (simp add: pp_inv_def)
  then have "keeps (pp_inv env T) (fseq (fmod (rearm env k s)) (on_flow k (redrive_pending_bitvmx_request (pn_flow env))))" for k s
    by (rule keeps_seq) (rule fine.try_then, rule keeps_try_flow, rule flow_requests)
  then have "keeps (pp_inv env T) (ffor (\<lambda>(k, st). fseq (fmod (rearm env k (os_step st)))
      (on_flow k (redrive_pending_bitvmx_request (pn_flow env)))) flows)" for flows
    by (intro keeps_for) (simp split: prod.splits)
  then show ?thesis unfolding reconstruct_runtime_state_from_flows_def by (rule keeps_bind [OF keeps_get])
qed

lemma apply_state_inv:
  assumes p: "pp_inv env T p" and "snd ` set (tb_pending (sp_advance_funds_timeout_scheduler st)) \<subseteq> T"
  shows "pp_inv env T (snd (apply_processor_state env' st p))"
  using assms
  by (auto simp: apply_processor_state_def fbind_def fseq_def lift_res_def fmod_def pp_inv_def timer_entries_def
      split: prod.splits sum.splits)

lemma restart_inv:
  assumes "pj.journaled (pn_flow env) (pp_trace p)" and t: "saved_timers T (pp_trace p)"
  shows "pp_inv env T (snd (pp_restore_or_new env p))"
proof -
  let ?t = "pp_trace p"
  let ?q = "(pp_new ?t) \<lparr> pp_flows := pp_restore_flows env ?t \<rparr>"
  let ?apply = "case stored_processor ?t of Some st \<Rightarrow> apply_processor_state env st | None \<Rightarrow> fret ()"
  have "pp_inv env T (pp_new ?t)" using assms by (simp add: pp_inv_def pp_new_def timer_entries_def time_new_def)
  moreover have q: "pp_inv env T ?q" by (rule restore_flows_fine [OF assms])
  moreover have "pp_inv env T (snd (?apply ?q))"
  proof (cases "stored_processor ?t")
    case (Some st)
    with t stored_processor_saved [of ?t] have "snd ` set (tb_pending (sp_advance_funds_timeout_scheduler st)) \<subseteq> T"
      unfolding saved_timers_def by blast
    with Some apply_state_inv [OF q] show ?thesis by simp
  qed (use q in \<open>simp add: fret_def\<close>)
  then have "pp_inv env T (snd (fseq ?apply (reconstruct_runtime_state_from_flows env) ?q))"
    using keepsD [OF keeps_reconstruct] by (auto simp: fseq_def fbind_def split: prod.splits sum.splits)
  ultimately show ?thesis
    by (auto simp: pp_restore_or_new_def restore_processor_state_def flow_simps fensure_def ensure_def
        fseq_def [of "fensure _ _"] fbind_def [of "fensure _ _"] pp_new_def)
qed

lemma each_after_prefix: "each_after P (t @ u) \<Longrightarrow> each_after P t"
  unfolding each_after_def by (metis append.assoc append_Cons)

text \<open>
  The process may stop after any entry of the history, in the middle of a handler too; it comes back
  with what the store holds then. The blocks seen so far are kept for the statements.
\<close>

inductive reachable_pegouts :: "pegout_proc_env \<Rightarrow> block_and_uncles list \<Rightarrow> pegout_processor \<Rightarrow> bool" for env where
  created: "reachable_pegouts env [] (pp_new [])"
| handled: "reachable_pegouts env bs p \<Longrightarrow> reachable_pegouts env (seen_blocks i @ bs) (snd (pp_handle env i p))"
| crashed: "reachable_pegouts env bs p \<Longrightarrow> pp_trace p = t @ u \<Longrightarrow> pp_restore_or_new env (pp_new t) = (Inr (), q) \<Longrightarrow>
     reachable_pegouts env bs q"

lemma reachable_pp_inv: "reachable_pegouts env bs p \<Longrightarrow> pp_inv env (expiries env bs) p"
proof (induction rule: reachable_pegouts.induct)
  case created
  show ?case by (simp add: pp_inv_def pp_new_def timer_entries_def time_new_def saved_timers_def)
next
  case (handled bs p i)
  then show ?case by (blast intro: handle_inv)
next
  case (crashed bs p t u q)
  then have "pj.journaled (pn_flow env) t" "saved_timers (expiries env bs) t"
    by (auto simp: pp_inv_def pj.journaled_def saved_timers_def dest: each_after_prefix)
  then show ?case using restart_inv [of env "pp_new t"] crashed by (simp add: pp_new_def)
qed

end
