(* ===== verification/Pegout_Timeouts.thy ===== *)
theory Pegout_Timeouts
  imports Pegout_Proc_Safety
begin

text \<open>
  The operator take is a way out for a pegout that is not signed in time. The processor asks for it
  only when the timeout of that very flow has run out.
\<close>

section \<open>Which pegouts are triggered\<close>

definition triggers_in :: "string set \<Rightarrow> pp_trace \<Rightarrow> pegout_processor \<Rightarrow> bool" where
  "triggers_in X t0 p \<longleftrightarrow> (\<exists>u. pp_trace p = t0 @ u \<and> (\<forall>x r. CalledTriggerOperatorTake x r \<in> set u \<longrightarrow> x \<in> X))"

lemma triggers_in_refl [simp]: "triggers_in X (pp_trace p) p"
  by (simp add: triggers_in_def)

lemma triggers_in_trace: "triggers_in X t0 p \<Longrightarrow> pp_trace q = pp_trace p \<Longrightarrow> triggers_in X t0 q"
  by (simp add: triggers_in_def)

lemma triggers_in_grow:
  assumes "triggers_in X t0 p" and "pp_trace q = pp_trace p @ u"
    and "\<And>x r. CalledTriggerOperatorTake x r \<in> set u \<Longrightarrow> x \<in> X"
  shows "triggers_in X t0 q"
proof -
  obtain v where "pp_trace p = t0 @ v" "\<forall>x r. CalledTriggerOperatorTake x r \<in> set v \<longrightarrow> x \<in> X"
    using assms(1) by (auto simp: triggers_in_def)
  with assms(2,3) show ?thesis unfolding triggers_in_def by (intro exI [of _ "v @ u"]) auto
qed

definition take_id :: "pegout_proc_env \<Rightarrow> pegout_state \<Rightarrow> string" where
  "take_id env st = get_pegout_txid (pn_flow env) (os_ctx st)"

lemma run_flow_triggers:
  assumes "keeps_flow (pn_flow env) b m" and "m \<lparr> of_state = st, of_trace = pp_trace p \<rparr> = (r, g)"
    and "b \<Longrightarrow> take_id env st \<in> X" and "triggers_in X t0 p"
  shows "triggers_in X t0 (q \<lparr> pp_trace := of_trace g \<rparr>)" and "take_id env (of_state g) = take_id env st"
proof -
  let ?f = "\<lparr> of_state = st, of_trace = pp_trace p \<rparr>"
  have same: "same_flow (pn_flow env) b ?f g" using keeps_flowD [OF assms(1), of ?f] assms(2) by simp
  then obtain u where u: "of_trace g = pp_trace p @ u" "\<forall>a \<in> set u. own_entry (pn_flow env) b ?f a"
    by (auto simp: same_flow_def)
  from same show "take_id env (of_state g) = take_id env st"
    by (simp add: same_flow_def same_identity_def take_id_def get_pegout_txid_def octx_def)
  show "triggers_in X t0 (q \<lparr> pp_trace := of_trace g \<rparr>)"
    by (rule triggers_in_grow [OF assms(4)]) (use u assms(3) in \<open>auto simp: take_id_def octx_def\<close>)
qed

lemma keeps_triggers_try:
  fixes env :: pegout_proc_env
  shows "keeps_flow (pn_flow env) False m \<Longrightarrow> keeps (triggers_in X t0) (try_flow k m)"
  unfolding keeps_def try_flow_def
  using run_flow_triggers(1) [of env False m] by (auto split: option.splits prod.splits)

lemma keeps_triggers_create: "keeps (triggers_in X t0) (create_flow_for_pegout_requested env requested tx_hash)"
  unfolding keeps_def
proof (intro allI impI)
  fix p
  assume p: "triggers_in X t0 p"
  have "triggers_in X t0 (q \<lparr> pp_trace := of_trace g \<rparr>)"
    if new: "pegout_flow_new (pn_flow env) requested tx_hash (pp_trace p) = Inr f"
      and run: "po_complete_step (pn_flow env) Pd_PegoutRequested f = (r, g)" for f g r q
  proof -
    have "f = \<lparr> of_state = of_state f, of_trace = pp_trace p \<rparr>" using new_flow_fine(2) [OF new] flow_eta [of f] by simp
    with run have "po_complete_step (pn_flow env) Pd_PegoutRequested \<lparr> of_state = of_state f, of_trace = pp_trace p \<rparr> = (r, g)"
      by metis
    from run_flow_triggers(1) [OF keeps_flow_complete(1) this _ p, of False] show ?thesis by simp
  qed
  then show "triggers_in X t0 (snd (create_flow_for_pegout_requested env requested tx_hash p))"
    using p by (auto simp: create_flow_for_pegout_requested_def split: sum.splits option.splits prod.splits)
qed

lemma keeps_triggers_cleanup: "keeps (triggers_in X t0) (cleanup_terminal_flows env)"
proof -
  have "keeps (triggers_in X t0) (pp_perform answer act)" for answer act
    unfolding keeps_def pp_perform_def by (auto simp: Let_def intro: triggers_in_grow)
  then show ?thesis
    unfolding cleanup_terminal_flows_def by (intro keeps_intros) (auto intro: triggers_in_trace)
qed

interpretation quiet: processor_property env "triggers_in X t0" False "\<lambda>_. True" for env X t0
proof unfold_locales
  show "triggers_in X t0 (p \<lparr> pp_trace := pp_trace p @ [Elsewhere (SavedProcessor (snapshot_processor_state p) ok)] \<rparr>)"
    if "triggers_in X t0 p" for p ok
    using that by (rule triggers_in_grow) auto
qed (auto intro: triggers_in_trace keeps_triggers_create keeps_triggers_cleanup
    intro!: keeps_triggers_try [of env] keeps_flow_complete same_intros)

section \<open>The handler of expired timeouts\<close>

text \<open>Flows of \<open>K\<close> that wait for signatures may be triggered; a flow keeps its pegout.\<close>

definition waiting_in :: "pegout_proc_env \<Rightarrow> uuid set \<Rightarrow> string set \<Rightarrow> pegout_processor \<Rightarrow> bool" where
  "waiting_in env K X p \<longleftrightarrow> (\<forall>k \<in> K. \<forall>st. map_of (pp_flows p) k = Some st \<longrightarrow>
     os_step st = Po_WaitUserTakeSignaturesReady \<longrightarrow> take_id env st \<in> X)"

definition may_trigger :: "pegout_proc_env \<Rightarrow> uuid set \<Rightarrow> string set \<Rightarrow> pp_trace \<Rightarrow> pegout_processor \<Rightarrow> bool" where
  "may_trigger env K X t0 p \<longleftrightarrow> triggers_in X t0 p \<and> waiting_in env K X p"

definition claimed :: "pegout_proc_env \<Rightarrow> uuid set \<Rightarrow> string set \<Rightarrow> pp_trace \<Rightarrow> uuid \<Rightarrow> pegout_processor \<Rightarrow> bool" where
  "claimed env K X t0 k p \<longleftrightarrow> may_trigger env K X t0 p \<and> (\<forall>st. map_of (pp_flows p) k = Some st \<longrightarrow> take_id env st \<in> X)"

lemma claimed_on_flow: "keeps_flow (pn_flow env) True m \<Longrightarrow> keeps (claimed env K X t0 k) (on_flow k m)"
  unfolding on_flow_def
proof (rule keeps_bind)
  assume m: "keeps_flow (pn_flow env) True m"
  show "keeps (claimed env K X t0 k) (try_flow k m)"
    unfolding keeps_def
  proof (intro allI impI)
    fix p
    assume p: "claimed env K X t0 k p"
    show "claimed env K X t0 k (snd (try_flow k m p))"
    proof (cases "map_of (pp_flows p) k")
      case (Some st)
      obtain r g where run: "m \<lparr> of_state = st, of_trace = pp_trace p \<rparr> = (r, g)" by fastforce
      have x: "take_id env st \<in> X" using p Some by (simp add: claimed_def)
      have "triggers_in X t0 (q \<lparr> pp_trace := of_trace g \<rparr>)" "take_id env (of_state g) \<in> X" for q
        using run_flow_triggers [OF m run, of X t0] x p by (auto simp: claimed_def may_trigger_def)
      with p Some run show ?thesis
        by (simp add: try_flow_def claimed_def may_trigger_def waiting_in_def update_conv')
    qed (use p in \<open>simp add: try_flow_def\<close>)
  qed
qed (simp add: keeps_def lift_res_def)

lemma trigger_flow_may:
  assumes k: "k \<in> K"
  shows "keeps (may_trigger env K X t0) (trigger_operator_take_for_flow env k)"
  unfolding keeps_def
proof (intro allI impI)
  fix p
  assume p: "may_trigger env K X t0 p"
  let ?rest = "\<lambda>st. fseq (fmod (\<lambda>p. p \<lparr> pp_signature_flows :=
              AList.delete (oc_bitvmx_protocol_id (os_ctx st)) (pp_signature_flows p) \<rparr>))
      (fseq (on_flow k (po_complete_step (pn_flow env) Pd_TriggerOperatorTakeTimeout))
      (fbind (fget (flow_at k Po_TriggerOperatorTake)) (\<lambda>triggered.
       if triggered then on_flow k (po_complete_step (pn_flow env) Pd_TriggerOperatorTakeTimeout) else fret ())))"
  have rest: "keeps (claimed env K X t0 k) (?rest st)" for st
    by (intro keeps_intros claimed_on_flow keeps_flow_complete(1) TrueI)
      (auto simp: claimed_def may_trigger_def waiting_in_def intro: triggers_in_trace)
  show "may_trigger env K X t0 (snd (trigger_operator_take_for_flow env k p))"
  proof (cases "\<exists>st. map_of (pp_flows p) k = Some st \<and> os_step st = Po_WaitUserTakeSignaturesReady")
    case True
    then obtain st where st: "map_of (pp_flows p) k = Some st" "os_step st = Po_WaitUserTakeSignaturesReady" by blast
    with p k have "claimed env K X t0 k p" by (auto simp: claimed_def may_trigger_def waiting_in_def)
    from keepsD [OF rest this] st show ?thesis
      by (auto simp: trigger_operator_take_for_flow_def flow_simps claimed_def)
  next
    case False
    then have "trigger_operator_take_for_flow env k p = (if map_of (pp_flows p) k = None then (Inl (PpFlowNotFound k), p) else (Inr (), p))"
      by (cases "map_of (pp_flows p) k") (auto simp: trigger_operator_take_for_flow_def flow_simps)
    with p show ?thesis by simp
  qed
qed

lemma ffor_keeps_in: "(\<And>x. x \<in> set xs \<Longrightarrow> keeps P (f x)) \<Longrightarrow> keeps P (ffor f xs)"
  by (induction xs) (auto intro: keeps_intros)

definition expired_takes :: "pegout_proc_env \<Rightarrow> u64 \<Rightarrow> pegout_processor \<Rightarrow> string set" where
  "expired_takes env now p = {take_id env st | k e st. (k, e) \<in> timer_entries p \<and> e \<le> now \<and>
     map_of (pp_flows p) k = Some st \<and> os_step st = Po_WaitUserTakeSignaturesReady}"

lemma expired_handler:
  "triggers_in X t0 p \<Longrightarrow> expired_takes env (cb_timestamp (bu_block b)) p \<subseteq> X \<Longrightarrow>
     triggers_in X t0 (snd (handle_advance_funds_timeout_expired env b p))"
proof -
  assume t: "triggers_in X t0 p" and sub: "expired_takes env (cb_timestamp (bu_block b)) p \<subseteq> X"
  let ?r = "check_expired (cb_timestamp (bu_block b)) (pp_advance_funds p)"
  have "take_id env st \<in> X" if k: "k \<in> set (fst ?r)" "map_of (pp_flows p) k = Some st" "os_step st = Po_WaitUserTakeSignaturesReady" for k st
  proof -
    obtain e where "(k, e) \<in> timer_entries p" "e \<le> cb_timestamp (bu_block b)"
      using k(1) by (force simp: check_expired_def timer_entries_def Let_def)
    with k sub show ?thesis unfolding expired_takes_def by blast
  qed
  then have "may_trigger env (set (fst ?r)) X t0 (p \<lparr> pp_advance_funds := snd ?r \<rparr>)"
    using t by (auto simp: may_trigger_def waiting_in_def intro: triggers_in_trace)
  moreover have "keeps (may_trigger env (set (fst ?r)) X t0) (ffor (trigger_operator_take_for_flow env) (fst ?r))"
    by (rule ffor_keeps_in) (rule trigger_flow_may)
  ultimately have "may_trigger env (set (fst ?r)) X t0
      (snd (ffor (trigger_operator_take_for_flow env) (fst ?r) (p \<lparr> pp_advance_funds := snd ?r \<rparr>)))"
    by (simp add: keepsD)
  with t show ?thesis
    by (auto simp: handle_advance_funds_timeout_expired_def flow_simps may_trigger_def split: prod.splits)
qed

section \<open>Operator take only after a timeout\<close>

lemma cleanup_result:
  "fst (cleanup_terminal_flows env p) = Inr ()"
  "pp_flows (snd (cleanup_terminal_flows env p)) = filter (\<lambda>(_, st). \<not> po_is_terminal st) (pp_flows p)"
  "timer_entries (snd (cleanup_terminal_flows env p)) \<subseteq> timer_entries p"
proof -
  let ?del = "\<lambda>k. fseq (pp_perform (\<lambda>t. pn_delete env t k) (DeletedFlow k)) (fret ())"
  have loop: "fst (ffor ?del ks q) = Inr () \<and> pp_flows (snd (ffor ?del ks q)) = pp_flows q \<and>
      timer_entries (snd (ffor ?del ks q)) = timer_entries q" for ks q
    by (induction ks arbitrary: q) (auto simp: fseq_def fbind_def pp_perform_def Let_def fret_def timer_entries_def)
  let ?q = "cleanup_terminal_flow_state p"
  let ?ks = "map (\<lambda>(_, st). os_flow_id st) (filter (\<lambda>(_, st). po_is_terminal st) (pp_flows ?q))"
  define r where "r = snd (ffor ?del ?ks ?q)"
  have r: "ffor ?del ?ks ?q = (Inr (), r)" using loop [of ?ks ?q] by (simp add: r_def prod_eq_iff)
  then have "pp_flows r = pp_flows p" "timer_entries r \<subseteq> timer_entries p"
    using loop [of ?ks ?q] cleanup_state_timers by auto
  then show "fst (cleanup_terminal_flows env p) = Inr ()"
    "pp_flows (snd (cleanup_terminal_flows env p)) = filter (\<lambda>(_, st). \<not> po_is_terminal st) (pp_flows p)"
    "timer_entries (snd (cleanup_terminal_flows env p)) \<subseteq> timer_entries p"
    using r by (simp_all add: cleanup_terminal_flows_def fseq_def fbind_def fmod_def fget_def timer_entries_def)
qed

lemma schedule_timeouts_flows [simp]: "pp_flows (schedule_pending_timeouts env b p) = pp_flows p"
proof -
  let ?step = "\<lambda>key p. let q = (if flow_at key Po_WaitUserTakeSignaturesReady p
                 then p \<lparr> pp_advance_funds := time_schedule key (cb_timestamp (bu_block b))
                        (pn_advance_funds_timeout_secs env) (pp_advance_funds p) \<rparr>
                 else p)
        in q \<lparr> pp_pending_timeout := removeAll key (pp_pending_timeout q) \<rparr>"
  have "pp_flows (fold ?step xs p) = pp_flows p" for xs p
    by (induction xs arbitrary: p) (simp_all add: Let_def)
  then show ?thesis by (simp add: schedule_pending_timeouts_def)
qed

text \<open>The pegouts whose timeout runs out with a block: timers set before, or by this very block.\<close>

definition due_takes :: "pegout_proc_env \<Rightarrow> block_and_uncles list \<Rightarrow> block_and_uncles \<Rightarrow> pegout_processor \<Rightarrow> string set" where
  "due_takes env bs b p = {take_id env st | k b0 st. b0 \<in> set (b # bs) \<and>
     cb_timestamp (bu_block b0) + pn_advance_funds_timeout_secs env \<le> cb_timestamp (bu_block b) \<and>
     map_of (pp_flows p) k = Some st \<and> os_step st = Po_WaitUserTakeSignaturesReady}"

lemma block_triggers:
  assumes p: "pp_inv env (expiries env bs) p"
  shows "triggers_in (due_takes env bs b p) (pp_trace p) (snd (pp_process_new_block env b p))"
proof -
  let ?X = "due_takes env bs b p"
  let ?E = "expiries env (b # bs)"
  define q where "q = snd (cleanup_terminal_flows env p)"
  define s where "s = schedule_pending_timeouts env b q"
  have inv: "pp_inv env ?E p" using p by (rule pp_inv_mono) (auto simp: expiries_def)
  have q: "triggers_in ?X (pp_trace p) q" "pp_inv env ?E q"
    unfolding q_def by (rule keepsD [OF keeps_triggers_cleanup triggers_in_refl], rule keepsD [OF keeps_cleanup inv])
  have "keeps (pp_inv env ?E) (fmod (schedule_pending_timeouts env b))"
    by (rule fine.schedule_timeouts_keeps) (simp add: expiries_def)
  then have s: "pp_inv env ?E s" using q(2) by (auto simp: keeps_def fmod_def s_def)
  have "keeps (triggers_in ?X (pp_trace p)) (fmod (schedule_pending_timeouts env b))"
    by (rule quiet.schedule_timeouts_keeps) simp
  then have s_trig: "triggers_in ?X (pp_trace p) s" using q(1) by (auto simp: keeps_def fmod_def s_def)
  have flows: "pp_flows s = pp_flows q" by (simp add: s_def)
  have "take_id env st \<in> ?X" if t: "(k, e) \<in> timer_entries s" "e \<le> cb_timestamp (bu_block b)"
      "map_of (pp_flows s) k = Some st" "os_step st = Po_WaitUserTakeSignaturesReady" for k e st
  proof -
    have "e \<in> ?E" using s t(1) by (force simp: pp_inv_def)
    then obtain b0 where "b0 \<in> set (b # bs)" "e = cb_timestamp (bu_block b0) + pn_advance_funds_timeout_secs env"
      by (auto simp: expiries_def)
    moreover have "map_of (pp_flows p) k = Some st"
      using map_of_SomeD [OF t(3)] inv by (auto simp: flows q_def cleanup_result pp_inv_def)
    ultimately show ?thesis using t(2,4) unfolding due_takes_def by blast
  qed
  then have "expired_takes env (cb_timestamp (bu_block b)) s \<subseteq> ?X" unfolding expired_takes_def by blast
  from expired_handler [OF s_trig this]
  have "triggers_in ?X (pp_trace p) (snd (handle_advance_funds_timeout_expired env b s))" .
  then have "triggers_in ?X (pp_trace p) (snd (fseq (handle_advance_funds_timeout_expired env b)
      (fseq (process_unhandled_confirmed_sig_flow_events env b) (fseq (handle_transaction_status_tick env)
     (fseq (handle_register_pegout_retry_tick env) (fseq (process_block_confirmations env b) (persist_processor_state env))))) s))"
    using keepsD [OF quiet.rest_of_block_keeps] by (auto simp: fseq_def [of "handle_advance_funds_timeout_expired _ _"]
        fbind_def split: prod.splits sum.splits)
  moreover have "cleanup_terminal_flows env p = (Inr (), q)" by (simp add: q_def cleanup_result prod_eq_iff)
  ultimately show ?thesis
    by (simp add: pp_process_new_block_def fseq_def [of "cleanup_terminal_flows _"] fbind_def [of "cleanup_terminal_flows _"] flow_simps s_def)
qed

end
