(* ===== verification/Pegout_Routing.thy ===== *)
theory Pegout_Routing
  imports Pegout_Timeouts
begin

text \<open>
  BitVMX names a program in its messages, and the processor looks for the flow that runs it. No two
  flows run the same program, in memory and in the store, even if the process stops in the middle
  of a handler, as long as the store deletes what it is told to delete. So the flow that is found
  does not depend on the order in which the map is walked.
\<close>

section \<open>One flow per program\<close>

definition program_of :: "pegout_state \<Rightarrow> uuid" where
  "program_of st = oc_bitvmx_protocol_id (os_ctx st)"

definition one_per_program :: "(uuid \<times> pegout_state) list \<Rightarrow> bool" where
  "one_per_program m \<longleftrightarrow> (\<forall>a \<in> set m. \<forall>b \<in> set m. program_of (snd a) = program_of (snd b) \<longrightarrow> fst a = fst b)"

text \<open>What the store holds is in memory too, and at every moment of the history no program was stored twice.\<close>

definition stored_in :: "pp_trace \<Rightarrow> (uuid \<times> pegout_state) list \<Rightarrow> bool" where
  "stored_in t m \<longleftrightarrow> (\<forall>a \<in> set (stored_flows t). \<exists>b \<in> set m. fst b = fst a \<and> program_of (snd b) = program_of (snd a))"

definition never_twice :: "pp_trace \<Rightarrow> bool" where
  "never_twice t \<longleftrightarrow> (\<forall>u v. t = u @ v \<longrightarrow> one_per_program (stored_flows u))"

definition unique_flows :: "pegout_processor \<Rightarrow> bool" where
  "unique_flows p \<longleftrightarrow> one_per_program (pp_flows p) \<and> stored_in (pp_trace p) (pp_flows p) \<and> never_twice (pp_trace p)"

definition routed :: "pegout_proc_env \<Rightarrow> pegout_processor \<Rightarrow> bool" where
  "routed env p \<longleftrightarrow> pp_inv env UNIV p \<and> ((\<forall>t k. pn_delete env t k) \<longrightarrow> unique_flows p)"

lemma one_per_programI:
  "(\<And>a b. a \<in> set m \<Longrightarrow> b \<in> set m \<Longrightarrow> program_of (snd a) = program_of (snd b) \<Longrightarrow> fst a = fst b) \<Longrightarrow> one_per_program m"
  unfolding one_per_program_def by blast

lemma one_per_programD:
  "one_per_program m \<Longrightarrow> a \<in> set m \<Longrightarrow> b \<in> set m \<Longrightarrow> program_of (snd a) = program_of (snd b) \<Longrightarrow> fst a = fst b"
  unfolding one_per_program_def by blast

lemma one_per_program_subset: "one_per_program m \<Longrightarrow> set n \<subseteq> set m \<Longrightarrow> one_per_program n"
  unfolding one_per_program_def by (auto dest: subsetD)

lemma never_twiceI: "never_twice t \<Longrightarrow> one_per_program (stored_flows (t @ [a])) \<Longrightarrow> never_twice (t @ [a])"
  unfolding never_twice_def
proof (intro allI impI)
  fix u v
  assume t: "\<forall>u v. t = u @ v \<longrightarrow> one_per_program (stored_flows u)" "one_per_program (stored_flows (t @ [a]))" "t @ [a] = u @ v"
  then show "one_per_program (stored_flows u)" by (cases v rule: rev_cases) auto
qed

lemma never_twice_prefix: "never_twice (t @ u) \<Longrightarrow> never_twice t" "never_twice t \<Longrightarrow> one_per_program (stored_flows t)"
  by (auto simp: never_twice_def)

lemma stored_snoc: "stored_flows (t @ [a]) = store_entry a (stored_flows t)"
  by (simp add: stored_flows_def)

text \<open>Entries a flow makes about itself change only what is stored under its own id.\<close>

definition own_saves :: "uuid \<Rightarrow> uuid \<Rightarrow> pp_trace \<Rightarrow> bool" where
  "own_saves k i u \<longleftrightarrow> (\<forall>k' st ok. PoSaved k' st ok \<in> set u \<longrightarrow> k' = k \<and> program_of st = i) \<and> (\<forall>x. Elsewhere x \<notin> set u)"

lemma own_saves_stored:
  assumes "own_saves k i u" and "a \<in> set (stored_flows (t @ u))"
  shows "a \<in> set (stored_flows t) \<or> (fst a = k \<and> program_of (snd a) = i)"
  using assms
proof (induction u rule: rev_induct)
  case (snoc x u)
  from snoc.prems have "a \<in> set (stored_flows (t @ u)) \<or> (\<exists>k st. a = (k, st) \<and> x = PoSaved k st True)"
    by (auto simp flip: append_assoc simp: stored_snoc dest!: store_entry_saved)
  with snoc show ?case by (auto simp: own_saves_def)
qed simp

lemma own_saves_never_twice:
  assumes "own_saves k i u" and "never_twice t"
    and "\<And>a. a \<in> set (stored_flows t) \<Longrightarrow> program_of (snd a) = i \<Longrightarrow> fst a = k"
  shows "never_twice (t @ u)"
  using assms(1)
proof (induction u rule: rev_induct)
  case Nil
  with assms(2) show ?case by simp
next
  case (snoc x u)
  then have "never_twice (t @ u)" by (auto simp: own_saves_def)
  moreover have "one_per_program (stored_flows (t @ (u @ [x])))"
  proof (rule one_per_programI)
    fix a b
    assume ab: "a \<in> set (stored_flows (t @ (u @ [x])))" "b \<in> set (stored_flows (t @ (u @ [x])))" "program_of (snd a) = program_of (snd b)"
    have one: "fst a = fst b" if "a \<in> set (stored_flows t)" "b \<in> set (stored_flows t)"
      using never_twice_prefix(2) [OF assms(2)] that ab(3) unfolding one_per_program_def by blast
    have old: "fst a = k" if "a \<in> set (stored_flows t)" "program_of (snd b) = i" using assms(3) [OF that(1)] that(2) ab(3) by simp
    have old': "fst b = k" if "b \<in> set (stored_flows t)" "program_of (snd a) = i" using assms(3) [OF that(1)] that(2) ab(3) by simp
    from own_saves_stored [OF snoc.prems ab(1)] own_saves_stored [OF snoc.prems ab(2)]
    show "fst a = fst b" by (elim disjE) (simp_all add: one old old')
  qed
  ultimately show ?case using never_twiceI [of "t @ u" x] by simp
qed

lemma keeps_flow_own_saves:
  assumes "same_flow env b f g"
  obtains u where "of_trace g = of_trace f @ u" "own_saves (os_flow_id (of_state f)) (program_of (of_state f)) u"
    "program_of (of_state g) = program_of (of_state f)" "os_flow_id (of_state g) = os_flow_id (of_state f)"
proof -
  obtain u where u: "of_trace g = of_trace f @ u" "\<forall>a \<in> set u. own_entry env b f a"
    using assms by (auto simp: same_flow_def)
  have "k' = os_flow_id (of_state f) \<and> program_of st = program_of (of_state f)" if "PoSaved k' st ok \<in> set u" for k' st ok
    using bspec [OF u(2) that] by (simp add: program_of_def octx_def)
  moreover have "Elsewhere x \<notin> set u" for x using bspec [OF u(2), of "Elsewhere x"] by auto
  ultimately have "own_saves (os_flow_id (of_state f)) (program_of (of_state f)) u" by (auto simp: own_saves_def)
  with u(1) assms that show thesis by (simp add: same_flow_def same_identity_def program_of_def octx_def)
qed

section \<open>Running and creating flows\<close>

lemma update_mem: "(k, v) \<in> set (AList.update k v m)"
  by (induction m) auto

lemma update_other: "distinct (map fst m) \<Longrightarrow> a \<in> set m \<Longrightarrow> fst a \<noteq> k \<Longrightarrow> a \<in> set (AList.update k v m)"
  by (induction m) auto

lemma update_key: "distinct (map fst m) \<Longrightarrow> a \<in> set (AList.update k v m) \<Longrightarrow> fst a = k \<Longrightarrow> a = (k, v)"
  by (metis distinct_update fst_conv map_of_eq_Some_iff prod.collapse update_Some_unfold update_conv' snd_conv fun_upd_same)

text \<open>A flow that runs, with its program, after entries it made about itself.\<close>

lemma unique_after_run:
  assumes p: "unique_flows p" "distinct (map fst (pp_flows p))"
    and u: "own_saves k i u" and st: "program_of st = i"
    and alone: "\<And>a. a \<in> set (pp_flows p) \<Longrightarrow> program_of (snd a) = i \<Longrightarrow> fst a = k"
    and stored: "\<And>a. a \<in> set (stored_flows (pp_trace p @ u)) \<Longrightarrow> fst a = k \<Longrightarrow> program_of (snd a) = i"
  shows "unique_flows (p \<lparr> pp_flows := AList.update k st (pp_flows p), pp_trace := pp_trace p @ u \<rparr>)"
proof -
  let ?m = "AList.update k st (pp_flows p)"
  have "one_per_program ?m"
  proof (rule one_per_programI)
    fix a b
    assume ab: "a \<in> set ?m" "b \<in> set ?m" "program_of (snd a) = program_of (snd b)"
    have both: "fst a = fst b" if "a \<in> set (pp_flows p)" "b \<in> set (pp_flows p)"
      using p(1) that ab(3) unfolding unique_flows_def one_per_program_def by blast
    have one: "fst a = fst b" if "a \<in> set (pp_flows p)" "b = (k, st)" using alone [OF that(1)] that(2) ab(3) st by simp
    have other: "fst a = fst b" if "a = (k, st)" "b \<in> set (pp_flows p)" using alone [OF that(2)] that(1) ab(3) st by simp
    from update_set [OF ab(1)] update_set [OF ab(2)] show "fst a = fst b"
      by (elim disjE) (simp, rule other, assumption+, rule one, assumption+, rule both, assumption+)
  qed
  moreover have "stored_in (pp_trace p @ u) ?m"
    unfolding stored_in_def
  proof
    fix a
    assume a: "a \<in> set (stored_flows (pp_trace p @ u))"
    show "\<exists>b \<in> set ?m. fst b = fst a \<and> program_of (snd b) = program_of (snd a)"
    proof (cases "fst a = k")
      case True
      with stored [OF a] st show ?thesis by (intro bexI [OF _ update_mem]) simp
    next
      case False
      with own_saves_stored [OF u a] have "a \<in> set (stored_flows (pp_trace p))" by simp
      with p(1) obtain b where "b \<in> set (pp_flows p)" "fst b = fst a" "program_of (snd b) = program_of (snd a)"
        unfolding unique_flows_def stored_in_def by blast
      with False update_other [OF p(2)] show ?thesis by metis
    qed
  qed
  moreover have "never_twice (pp_trace p @ u)"
  proof (rule own_saves_never_twice [OF u])
    show "never_twice (pp_trace p)" using p(1) by (simp add: unique_flows_def)
    show "fst a = k" if a: "a \<in> set (stored_flows (pp_trace p))" "program_of (snd a) = i" for a
    proof -
      obtain b where "b \<in> set (pp_flows p)" "fst b = fst a" "program_of (snd b) = program_of (snd a)"
        using p(1) a(1) unfolding unique_flows_def stored_in_def by blast
      with alone [of b] a(2) show ?thesis by simp
    qed
  qed
  ultimately show ?thesis by (simp add: unique_flows_def)
qed

lemma routed_try_flow:
  assumes "keeps_flow (pn_flow env) b m" and "flow_op_ok env m"
  shows "keeps (routed env) (try_flow k m)"
  unfolding keeps_def
proof (intro allI impI)
  fix p
  assume p: "routed env p"
  then have inv: "pp_inv env UNIV p" by (simp add: routed_def)
  have inv': "pp_inv env UNIV (snd (try_flow k m p))" by (rule keepsD [OF keeps_try_flow [OF assms(2)] inv])
  show "routed env (snd (try_flow k m p))"
  proof (cases "(\<forall>t k. pn_delete env t k) \<and> map_of (pp_flows p) k \<noteq> None")
    case True
    then obtain st where st: "map_of (pp_flows p) k = Some st" and un: "unique_flows p" using p by (auto simp: routed_def)
    obtain r g where run: "m \<lparr> of_state = st, of_trace = pp_trace p \<rparr> = (r, g)" by fastforce
    have k: "os_flow_id st = k" using flow_of_map [OF inv st] by simp
    have "same_flow (pn_flow env) b \<lparr> of_state = st, of_trace = pp_trace p \<rparr> g"
      using keeps_flowD [OF assms(1), of "\<lparr> of_state = st, of_trace = pp_trace p \<rparr>"] run by simp
    then obtain u where u: "of_trace g = pp_trace p @ u" "own_saves k (program_of st) u" "program_of (of_state g) = program_of st"
      by (rule keeps_flow_own_saves) (use k in auto)
    have d: "distinct (map fst (pp_flows p))" using inv by (simp add: pp_inv_def)
    have mem: "(k, st) \<in> set (pp_flows p)" using st by (rule map_of_SomeD)
    have "unique_flows (p \<lparr> pp_flows := AList.update k (of_state g) (pp_flows p), pp_trace := pp_trace p @ u \<rparr>)"
    proof (rule unique_after_run [OF un d u(2,3)])
      show "fst a = k" if "a \<in> set (pp_flows p)" "program_of (snd a) = program_of st" for a
        using one_per_programD [of "pp_flows p", OF _ that(1) mem] un that(2) by (simp add: unique_flows_def)
      show "program_of (snd a) = program_of st" if a: "a \<in> set (stored_flows (pp_trace p @ u))" "fst a = k" for a
      proof -
        have "program_of (snd a) = program_of st" if old: "a \<in> set (stored_flows (pp_trace p))"
        proof -
          obtain c where "c \<in> set (pp_flows p)" "fst c = fst a" "program_of (snd c) = program_of (snd a)"
            using un old unfolding unique_flows_def stored_in_def by blast
          moreover from this a(2) mem d have "c = (k, st)" by (metis eq_key_imp_eq_value fst_conv prod.collapse snd_conv)
          ultimately show ?thesis by simp
        qed
        with own_saves_stored [OF u(2) a(1)] show ?thesis by blast
      qed
    qed
    with inv' st run u(1) show ?thesis by (simp add: routed_def try_flow_def)
  qed (use p inv' in \<open>auto simp: routed_def try_flow_def split: option.splits\<close>)
qed

lemma fresh_run:
  assumes "os_step (of_state f) = Po_WaitPegoutRequested" and "po_complete_step env Pd_PegoutRequested f = (r, g)"
  obtains (saved) m where "r = Inr ()" "of_trace g = of_trace f @ [PoSent m True, PoSaved (os_flow_id (of_state f)) (of_state g) True]"
    | (unsent) m e where "r = Inl e" "of_trace g = of_trace f @ [PoSent m False]"
    | (unsaved) m e st where "r = Inl e" "of_trace g = of_trace f @ [PoSent m True, PoSaved (os_flow_id (of_state f)) st False]"
        "program_of st = program_of (of_state f)"
proof -
  let ?m = "GetCommInfo (oe_new_v4 env (of_trace f))"
  let ?f = "set_po_step Po_GetCommInfoAuthoritativeCheckpoint f"
  let ?st = "of_state ?f"
  have st: "os_flow_id ?st = os_flow_id (of_state f)" "program_of ?st = program_of (of_state f)"
    by (simp_all add: set_po_step_def program_of_def)
  have run: "po_complete_step env Pd_PegoutRequested f =
      (if \<not> oe_send env (of_trace f) ?m then (Inl PoBrokerFailed, po_note (PoSent ?m False) ?f)
       else let t = of_trace f @ [PoSent ?m True]; ok = oe_save env t ?st
         in (if ok then Inr () else Inl PoStoreFailed, po_note (PoSaved (os_flow_id ?st) ?st ok) (po_note (PoSent ?m True) ?f)))"
    using assms(1)
    by (simp add: po_complete_step_def po_start_step_def numeral_2_eq_2 po_process_step_data_def po_entry_action_def
        po_request_bitvmx_comm_info_def po_send_bitvmx_msg_def po_persist_state_def po_perform_ok_def po_perform_def
        flow_defs Let_def ensure_def po_step_def po_note_def set_po_step_def)
  show thesis
    using assms(2) run st saved unsent unsaved
    by (auto simp: Let_def po_note_def set_po_step_def split: if_splits)
qed

lemma stored_keep:
  "stored_flows (t @ [PoSent m ok]) = stored_flows t" "stored_flows (t @ [PoSent m ok, PoSaved k st False]) = stored_flows t"
  "stored_flows (t @ [PoSent m ok, PoSaved k st True]) = AList.update k st (stored_flows t)"
  by (simp_all add: stored_flows_def)

lemma unique_after_failure:
  assumes p: "unique_flows p" and u: "own_saves k i u" and "stored_flows (pp_trace p @ u) = stored_flows (pp_trace p)"
    and alone: "\<And>a. a \<in> set (pp_flows p) \<Longrightarrow> program_of (snd a) \<noteq> i"
  shows "unique_flows (p \<lparr> pp_trace := pp_trace p @ u \<rparr>)"
proof -
  have "never_twice (pp_trace p @ u)"
  proof (rule own_saves_never_twice [OF u])
    show "never_twice (pp_trace p)" using p by (simp add: unique_flows_def)
    show "fst a = k" if a: "a \<in> set (stored_flows (pp_trace p))" "program_of (snd a) = i" for a
    proof -
      obtain b where "b \<in> set (pp_flows p)" "program_of (snd b) = program_of (snd a)"
        using p a(1) unfolding unique_flows_def stored_in_def by blast
      with alone [of b] a(2) show ?thesis by simp
    qed
  qed
  with p assms(3) show ?thesis by (simp add: unique_flows_def stored_in_def)
qed

lemma routed_create: "keeps (routed env) (create_flow_for_pegout_requested env requested tx_hash)"
  unfolding keeps_def
proof (intro allI impI)
  fix p
  assume p: "routed env p"
  let ?c = "create_flow_for_pegout_requested env requested tx_hash"
  have inv': "pp_inv env UNIV (snd (?c p))" using p keepsD [OF keeps_create] by (auto simp: routed_def)
  have un: "unique_flows (snd (?c p))" if "\<forall>t k. pn_delete env t k"
  proof -
    have p: "unique_flows p" "distinct (map fst (pp_flows p))" using p that by (auto simp: routed_def pp_inv_def)
    have "unique_flows (snd (case po_complete_step (pn_flow env) Pd_PegoutRequested f of
          (Inl e, g) \<Rightarrow> (Inl (PpFlowFailed e), p \<lparr> pp_trace := of_trace g \<rparr>)
        | (Inr _, g) \<Rightarrow> (Inr (), p \<lparr> pp_flows := AList.update (os_flow_id (of_state f)) (of_state g) (pp_flows p),
             pp_trace := of_trace g \<rparr>)))"
      if new: "pegout_flow_new (pn_flow env) requested tx_hash (pp_trace p) = Inr f"
        and none: "pegout_flow_by_protocol_id (oc_bitvmx_protocol_id (octx f)) p = None" for f
    proof -
      let ?k = "os_flow_id (of_state f)" and ?i = "program_of (of_state f)"
      note fine = new_flow_fine [OF new]
      have alone: "program_of (snd a) \<noteq> ?i" if "a \<in> set (pp_flows p)" for a
        using none that by (cases a) (auto simp: pegout_flow_by_protocol_id_def find_None_iff program_of_def octx_def)
      obtain r g where run: "po_complete_step (pn_flow env) Pd_PegoutRequested f = (r, g)" by fastforce
      have "same_flow (pn_flow env) False f g" using keeps_flowD [OF keeps_flow_complete(1), of Pd_PegoutRequested False "pn_flow env" f] run by simp
      then have g: "program_of (of_state g) = ?i" by (simp add: same_flow_def same_identity_def program_of_def octx_def)
      from fine(4) run show ?thesis
      proof (cases rule: fresh_run)
        case (saved m)
        let ?u = "[PoSent m True, PoSaved ?k (of_state g) True]"
        have "own_saves ?k ?i ?u" using g by (simp add: own_saves_def)
        then have "unique_flows (p \<lparr> pp_flows := AList.update ?k (of_state g) (pp_flows p), pp_trace := pp_trace p @ ?u \<rparr>)"
        proof (rule unique_after_run [OF p _ g])
          show "program_of (snd a) = ?i" if "a \<in> set (stored_flows (pp_trace p @ ?u))" "fst a = ?k" for a
          proof -
            have "a \<in> set (AList.update ?k (of_state g) (stored_flows (pp_trace p)))" using that(1) by (simp only: stored_keep)
            from update_key [OF stored_flows_distinct this that(2)] g show ?thesis by simp
          qed
        qed (use alone in blast)
        with saved run fine(2) show ?thesis by simp
      next
        case (unsent m e)
        with unique_after_failure [OF p(1), of ?k ?i "[PoSent m False]"] alone fine(2) run show ?thesis
          by (simp add: own_saves_def stored_keep)
      next
        case (unsaved m e st)
        with unique_after_failure [OF p(1), of ?k ?i "[PoSent m True, PoSaved ?k st False]"] alone fine(2) run show ?thesis
          by (simp add: own_saves_def stored_keep)
      qed
    qed
    with p(1) show ?thesis by (auto simp: create_flow_for_pegout_requested_def split: sum.splits option.splits)
  qed
  show "routed env (snd (?c p))" using inv' un by (simp add: routed_def)
qed

section \<open>Terminal flows\<close>

lemma stored_delete: "stored_flows (t @ map (\<lambda>k. Elsewhere (DeletedFlow k True)) ks) = filter (\<lambda>a. fst a \<notin> set ks) (stored_flows t)"
proof -
  have "fold store_entry (map (\<lambda>k. Elsewhere (DeletedFlow k True)) ks) m = fold AList.delete ks m" for m
    by (induction ks arbitrary: m) simp_all
  then show ?thesis by (simp add: stored_flows_def fold_delete)
qed

lemma never_twice_delete: "never_twice t \<Longrightarrow> never_twice (t @ map (\<lambda>k. Elsewhere (DeletedFlow k True)) ks)"
proof (induction ks rule: rev_induct)
  case (snoc k ks)
  have "one_per_program (stored_flows (t @ map (\<lambda>k. Elsewhere (DeletedFlow k True)) (ks @ [k])))"
    unfolding stored_delete by (rule one_per_program_subset [OF never_twice_prefix(2) [OF snoc.prems]]) auto
  with snoc never_twiceI [of "t @ map (\<lambda>k. Elsewhere (DeletedFlow k True)) ks"] show ?case by simp
qed simp

lemma delete_loop:
  assumes "\<forall>t k. pn_delete env t k"
  shows "ffor (\<lambda>k. fseq (pp_perform (\<lambda>t. pn_delete env t k) (DeletedFlow k)) (fret ())) ks p =
     (Inr (), p \<lparr> pp_trace := pp_trace p @ map (\<lambda>k. Elsewhere (DeletedFlow k True)) ks \<rparr>)"
  using assms by (induction ks arbitrary: p) (simp_all add: pp_perform_def flow_defs Let_def)

lemma routed_cleanup: "keeps (routed env) (cleanup_terminal_flows env)"
  unfolding keeps_def
proof (intro allI impI)
  fix p
  assume p: "routed env p"
  then have inv: "pp_inv env UNIV p" by (simp add: routed_def)
  have "unique_flows (snd (cleanup_terminal_flows env p))" if del: "\<forall>t k. pn_delete env t k"
  proof -
    let ?ks = "map (\<lambda>(_, st). os_flow_id st) (filter (\<lambda>(_, st). po_is_terminal st) (pp_flows p))"
    let ?m = "filter (\<lambda>(_, st). \<not> po_is_terminal st) (pp_flows p)"
    let ?t = "pp_trace p @ map (\<lambda>k. Elsewhere (DeletedFlow k True)) ?ks"
    have un: "unique_flows p" using p del by (simp add: routed_def)
    have "one_per_program ?m" by (rule one_per_program_subset [of "pp_flows p"]) (use un in \<open>auto simp: unique_flows_def\<close>)
    moreover have "never_twice ?t" using un by (intro never_twice_delete) (simp add: unique_flows_def)
    moreover have "stored_in ?t ?m"
      unfolding stored_in_def
    proof
      fix a
      assume a: "a \<in> set (stored_flows ?t)"
      then obtain b where b: "b \<in> set (pp_flows p)" "fst b = fst a" "program_of (snd b) = program_of (snd a)"
        using un unfolding stored_delete unique_flows_def stored_in_def by auto
      moreover have "fst b = os_flow_id (snd b)" using inv b(1) by (auto simp: pp_inv_def flow_fine_def)
      ultimately have "b \<in> set ?m" using a unfolding stored_delete by (force split: prod.splits)
      with b show "\<exists>b \<in> set ?m. fst b = fst a \<and> program_of (snd b) = program_of (snd a)" by blast
    qed
    ultimately show ?thesis
      by (simp add: cleanup_terminal_flows_def fseq_def [of "fmod _"] fbind_def [of "fmod _"] fmod_def fget_def
          fbind_def [of "fget _"] fseq_def fbind_def delete_loop [OF del, unfolded fseq_def] unique_flows_def)
  qed
  with keepsD [OF keeps_cleanup inv] show "routed env (snd (cleanup_terminal_flows env p))" by (simp add: routed_def)
qed

interpretation route: processor_property env "routed env" True "\<lambda>_. True" for env
proof unfold_locales
  show "routed env q" if "routed env p" "pp_flows q = pp_flows p" "pp_trace q = pp_trace p" "timer_entries q \<subseteq> timer_entries p" for p q
    using that by (auto simp: routed_def unique_flows_def pp_inv_def)
  show "routed env (p \<lparr> pp_advance_funds := time_schedule k (cb_timestamp (bu_block b))
      (pn_advance_funds_timeout_secs env) (pp_advance_funds p) \<rparr>)" if "routed env p" for p b k
    using that by (auto simp: routed_def unique_flows_def pp_inv_def)
  show "routed env (p \<lparr> pp_trace := pp_trace p @ [Elsewhere (SavedProcessor (snapshot_processor_state p) ok)] \<rparr>)"
    if p: "routed env p" for p ok
  proof -
    have stored: "stored_flows (t @ [Elsewhere (SavedProcessor st ok)]) = stored_flows t" for t st by (simp add: stored_flows_def)
    have "never_twice (pp_trace p @ [Elsewhere (SavedProcessor st ok)])" if "never_twice (pp_trace p)" for st
      using that never_twice_prefix(2) [OF that] by (intro never_twiceI) (simp_all add: stored)
    with p fine.saved [of env UNIV p ok] show ?thesis
      by (auto simp: routed_def unique_flows_def stored_in_def stored)
  qed
qed (auto intro!: routed_try_flow [where b = True] flow_ops flow_requests keeps_flow_complete same_intros
    intro: routed_create routed_cleanup)

section \<open>Reachable processors\<close>

lemma restored_flow:
  assumes "pj.journaled (pn_flow env) t" and "a \<in> set (stored_flows t)"
  shows "\<exists>b \<in> set (pp_restore_flows env t). fst b = fst a \<and> program_of (snd b) = program_of (snd a)"
proof -
  let ?put = "\<lambda>(_, st). let flow = of_state (po_from_saved_state (pn_flow env) st t) in AList.update (os_flow_id flow) flow"
  let ?new = "\<lambda>st. of_state (po_from_saved_state (pn_flow env) st t)"
  have fine: "\<forall>a \<in> set (stored_flows t). fst a = os_flow_id (snd a)"
    using stored_flows_fine [OF assms(1)] by (auto simp: flow_fine_def)
  have "map_of (fold ?put m acc) k = (case map_of (rev m) k of Some st \<Rightarrow> Some (?new st) | None \<Rightarrow> map_of acc k)"
    if "\<forall>a \<in> set m. fst a = os_flow_id (snd a)" for m acc k
    using that by (induction m arbitrary: acc) (auto simp: Let_def update_conv' map_add_def split: option.splits)
  from this [OF fine, of "[]"] have look: "map_of (pp_restore_flows env t) k = map_option ?new (map_of (rev (stored_flows t)) k)" for k
    by (simp add: pp_restore_flows_def option.case_eq_if map_option_case)
  have "distinct (map fst (rev (stored_flows t)))" using stored_flows_distinct [of t] by (simp add: rev_map [symmetric])
  then have "map_of (rev (stored_flows t)) (fst a) = Some (snd a)" using assms(2) by (intro map_of_is_SomeI) auto
  with look have "map_of (pp_restore_flows env t) (fst a) = Some (?new (snd a))" by simp
  then have "(fst a, ?new (snd a)) \<in> set (pp_restore_flows env t)" by (rule map_of_SomeD)
  then show ?thesis by (intro bexI) (simp_all add: program_of_def)
qed

lemma restored_routed:
  assumes "pj.journaled (pn_flow env) t" and "never_twice t \<or> \<not> (\<forall>t k. pn_delete env t k)"
  shows "routed env ((pp_new t) \<lparr> pp_flows := pp_restore_flows env t \<rparr>)"
proof -
  have "pp_inv env UNIV ((pp_new t) \<lparr> pp_flows := pp_restore_flows env t \<rparr>)"
    by (rule restore_flows_fine [OF assms(1)]) (simp add: saved_timers_def)
  moreover have "unique_flows ((pp_new t) \<lparr> pp_flows := pp_restore_flows env t \<rparr>)" if "never_twice t"
  proof -
    have stored: "\<exists>c \<in> set (stored_flows t). fst a = fst c \<and> program_of (snd a) = program_of (snd c)"
      if a: "a \<in> set (pp_restore_flows env t)" for a
    proof -
      obtain k st where c: "(k, st) \<in> set (stored_flows t)" "a = (os_flow_id st, of_state (po_from_saved_state (pn_flow env) st t))"
        using a restore_fold(1) [of "pn_flow env" t "stored_flows t" "[]"] unfolding pp_restore_flows_def by auto
      with stored_flows_fine [OF assms(1) c(1)] show ?thesis
        by (intro bexI [OF _ c(1)]) (simp add: flow_fine_def program_of_def)
    qed
    have "one_per_program (pp_restore_flows env t)"
    proof (rule one_per_programI)
      fix a b
      assume ab: "a \<in> set (pp_restore_flows env t)" "b \<in> set (pp_restore_flows env t)" "program_of (snd a) = program_of (snd b)"
      obtain c where c: "c \<in> set (stored_flows t)" "fst a = fst c" "program_of (snd a) = program_of (snd c)" using stored [OF ab(1)] by blast
      obtain d where d: "d \<in> set (stored_flows t)" "fst b = fst d" "program_of (snd b) = program_of (snd d)" using stored [OF ab(2)] by blast
      from one_per_programD [OF never_twice_prefix(2) [OF that] c(1) d(1)] c d ab(3) show "fst a = fst b" by simp
    qed
    moreover have "stored_in t (pp_restore_flows env t)" unfolding stored_in_def using restored_flow [OF assms(1)] by blast
    ultimately show ?thesis using that by (simp add: unique_flows_def pp_new_def)
  qed
  ultimately show ?thesis using assms(2) by (auto simp: routed_def)
qed

lemma routed_runtime: "routed env p \<Longrightarrow> pp_flows q = pp_flows p \<Longrightarrow> pp_trace q = pp_trace p \<Longrightarrow> routed env q"
  by (auto simp: routed_def unique_flows_def pp_inv_def)

lemma routed_restore_state: "keeps (routed env) (restore_processor_state env)"
proof -
  have applied: "keeps (routed env) (apply_processor_state env st)" for st
    unfolding apply_processor_state_def
    by (auto simp: keeps_def fbind_def fseq_def lift_res_def fmod_def split: prod.splits sum.splits intro: routed_runtime)
  have redrive: "keeps (routed env) (on_flow k (redrive_pending_bitvmx_request (pn_flow env)))" for k
    by (rule route.try_then, rule routed_try_flow [where b = True], rule keeps_flow_redrive, rule flow_requests)
  have "keeps (routed env) (fmod (rearm env k s))" for k s
    by (rule keeps_mod, rule routed_runtime) simp_all
  then have "keeps (routed env) (ffor (\<lambda>(k, st). fseq (fmod (rearm env k (os_step st)))
      (on_flow k (redrive_pending_bitvmx_request (pn_flow env)))) flows)" for flows
    by (intro keeps_for) (auto split: prod.splits intro: keeps_seq redrive)
  then have "keeps (routed env) (reconstruct_runtime_state_from_flows env)"
    unfolding reconstruct_runtime_state_from_flows_def by (rule keeps_bind [OF keeps_get])
  with applied show ?thesis
    unfolding restore_processor_state_def by (auto intro!: keeps_bind keeps_seq keeps_get keeps_ensure keeps_ret split: option.splits)
qed

lemma restart_routed:
  assumes "pj.journaled (pn_flow env) t" and "never_twice t \<or> \<not> (\<forall>t k. pn_delete env t k)"
    and "pp_restore_or_new env (pp_new t) = (Inr (), q)"
  shows "routed env q"
proof -
  have t: "pp_trace (pp_new t) = t" by (simp add: pp_new_def)
  have "restore_processor_state env ((pp_new t) \<lparr> pp_flows := pp_restore_flows env t \<rparr>) = (Inr (), q)"
    using assms(3) by (auto simp: pp_restore_or_new_def t flow_defs ensure_def split: if_splits)
  with keepsD [OF routed_restore_state restored_routed [OF assms(1,2)]] show ?thesis by simp
qed

lemma reachable_routed: "reachable_pegouts env bs p \<Longrightarrow> routed env p"
proof (induction rule: reachable_pegouts.induct)
  case created
  show ?case
    by (simp add: routed_def pp_inv_def pp_new_def saved_timers_def unique_flows_def one_per_program_def stored_in_def
        never_twice_def stored_flows_def)
next
  case (handled bs p i)
  then show ?case
    using keepsD [OF route.user_request_keeps handled.IH] keepsD [OF route.bitvmx_event_keeps handled.IH]
      keepsD [OF route.rsk_event_keeps handled.IH] keepsD [OF route.block_keeps handled.IH]
    by (cases i) simp_all
next
  case (crashed bs p t u q)
  then have "pj.journaled (pn_flow env) t" "never_twice t \<or> \<not> (\<forall>t k. pn_delete env t k)"
    by (auto simp: routed_def pp_inv_def pj.journaled_def unique_flows_def dest: each_after_prefix never_twice_prefix(1))
  with crashed show ?case by (blast intro: restart_routed)
qed

end
