(* ===== verification/Pegout_Runs.thy ===== *)
theory Pegout_Runs
  imports Pegout_Routing Pegin_Guarantees
begin

text \<open>
  Runs of the pegout processor in a world where everything works: a pegout that is signed, confirmed
  and registered, and one whose signatures do not arrive in time. The properties of the processor
  are applied at them. Each handler is evaluated once, from the state the run has reached.
\<close>

section \<open>A pegout that succeeds\<close>

definition calm_flow_env :: "pegout_proc_action pegout_env" where
  "calm_flow_env = \<lparr>
     oe_ops = \<lparr> bridge_text = \<lparr> hex_decode = (\<lambda>s. None), hex_encode = (\<lambda>bs. ''''), u256_from_hex = (\<lambda>s. None),
                  btc_header_hash = (\<lambda>bs. None) \<rparr>,
                h256_from_str = (\<lambda>s. Inr 1), fb32_from_str = (\<lambda>s. Inr 2), u256_from_str = (\<lambda>s. Inr 3),
                compute_txid = (\<lambda>t. 4), local_usage = (\<lambda>m. m) \<rparr>,
     oe_net = tiny_net, oe_sha256 = (\<lambda>bs. 0), oe_show_uuid = (\<lambda>u. ''''), oe_show_hash = (\<lambda>h. ''''),
     oe_parse_socket = (\<lambda>s. Some \<lparr> sa_ip = IpV4 1, sa_port = 1 \<rparr>), oe_show_socket = (\<lambda>a. ''a''),
     oe_public_key_from_slice = Some, oe_request_json = (\<lambda>m. Some ''request''), oe_registered_json = (\<lambda>m. Some ''registered''),
     oe_verifier = DummyVerifier, oe_file_signals = True, oe_my_address = 7, oe_now = (\<lambda>t. 0), oe_new_v4 = (\<lambda>t. 9),
     oe_save = (\<lambda>t s. True), oe_send = (\<lambda>t m. True), oe_signal = (\<lambda>t m. True),
     oe_get_committee = (\<lambda>t c. Inr \<lparr> co_members = [\<lparr> cm_member_address = 7, cm_role = 2 \<rparr>], co_aggregated_key = [] \<rparr>),
     oe_get_communication_data = (\<lambda>t c a. Inr [unset_slots]),
     oe_get_member_public_keys = (\<lambda>t a. Inr [''t'', ''d'', ''c'']),
     oe_get_btc_confirmations = (\<lambda>t i. Inr 6), oe_register_pegout = (\<lambda>t i. Inr ''tx''),
     oe_trigger_operator_take = (\<lambda>t i. Inr ''tx'') \<rparr>"

definition calm_accepted :: pegout_accepted where
  "calm_accepted = \<lparr> pa_committee_id = 1, pa_user_take_txid = fb_32_to_txid 8, pa_user_take_sighash = [],
     pa_user_take_nonce = [], pa_user_take_signature = [] \<rparr>"

definition calm_env :: pegout_proc_env where
  "calm_env = \<lparr> pn_flow = calm_flow_env, pn_sig = \<lparr> show_uuid = (\<lambda>u. ''''), call_ok = (\<lambda>t c. True) \<rparr>,
     pn_context = (\<lambda>t. \<lparr> gc_my_committees = [(1, Prover)], gc_my_keys = keys_new \<rparr>),
     pn_accepted_json = (\<lambda>s. Some calm_accepted), pn_show_address = (\<lambda>a. ''''), pn_force_file = (\<lambda>t. None),
     pn_force_var = (\<lambda>t. None), pn_environment = None, pn_delete = (\<lambda>t k. True), pn_save = (\<lambda>t st. True),
     pn_load = (\<lambda>t. True), pn_required_confirmations = 0, pn_btc_confirmations = 1, pn_btc_status_retry_blocks = 1,
     pn_advance_funds_timeout_secs = 10 \<rparr>"

definition calm_request :: pegout_requested where
  "calm_request = \<lparr> pq_user_pub_key = replicate 33 0, pq_committee = 1, pq_signature_txid = 5, pq_signature_hash = 6,
     pq_stream_id = 1, pq_packet_number = 1, pq_slot_id = 2, pq_request_amount = 3 \<rparr>"

definition calm_program :: uuid where
  "calm_program = user_take_protocol_id (\<lambda>bs. 0) 1 2"

definition calm_event :: "'a \<Rightarrow> 'a event_with_block" where
  "calm_event x = \<lparr> ev_inner = x, ev_block_number = 1, ev_block_hash = 0, ev_removed = False, ev_tx_hash = 4 \<rparr>"

definition calm_block :: "u64 \<Rightarrow> u64 \<Rightarrow> block_and_uncles" where
  "calm_block n t = new_no_uncles (core_block_new n 0 0 t 0 0 0 [])"

definition calm_start :: "pp_input list" where
  "calm_start = [RskEvent (PegoutRequested (calm_event (RequestedData calm_request))),
     BitvmxEvent (OCommInfo 0 \<lparr> ca_address = \<lparr> sa_ip = IpV4 1, sa_port = 1 \<rparr>, ca_pubkey_hash = ''h'' \<rparr>),
     BitvmxEvent (OVariable calm_program PEGOUT_ACCEPTED_NAME (VString ''''))]"

fun run_inputs :: "pegout_proc_env \<Rightarrow> pp_input list \<Rightarrow> pegout_processor \<Rightarrow> pegout_processor" where
  "run_inputs env [] p = p"
| "run_inputs env (i # is) p = run_inputs env is (snd (pp_handle env i p))"

lemma run_inputs_reachable:
  "reachable_pegouts env bs p \<Longrightarrow> reachable_pegouts env (concat (rev (map seen_blocks is)) @ bs) (run_inputs env is p)"
proof (induction "is" arbitrary: bs p)
  case (Cons i "is")
  from Cons.IH [OF reachable_pegouts.handled [OF Cons.prems, of i]] show ?case by simp
qed simp

lemma calm_works:
  "oe_save calm_flow_env t st" "oe_send calm_flow_env t m" "oe_signal calm_flow_env t k"
  "oe_verifier calm_flow_env = DummyVerifier" "oe_file_signals calm_flow_env" "oe_my_address calm_flow_env = 7"
  "oe_sha256 calm_flow_env = (\<lambda>bs. 0)"
  "oe_get_committee calm_flow_env t c = Inr \<lparr> co_members = [\<lparr> cm_member_address = 7, cm_role = 2 \<rparr>], co_aggregated_key = [] \<rparr>"
  "oe_get_communication_data calm_flow_env t c a = Inr [unset_slots]"
  "oe_get_member_public_keys calm_flow_env t a = Inr [''t'', ''d'', ''c'']"
  "oe_register_pegout calm_flow_env t i = Inr ''tx''" "oe_trigger_operator_take calm_flow_env t s = Inr ''tx''"
  "oe_public_key_from_slice calm_flow_env b = Some b"
  "oe_request_json calm_flow_env r = Some ''request''" "oe_registered_json calm_flow_env g = Some ''registered''"
  "oe_show_socket calm_flow_env a' = ''a''" "oe_parse_socket calm_flow_env x = Some \<lparr> sa_ip = IpV4 1, sa_port = 1 \<rparr>"
  by (simp_all add: calm_flow_env_def)

lemma calm_proc_works:
  "pn_flow calm_env = calm_flow_env" "pn_context calm_env t = \<lparr> gc_my_committees = [(1, Prover)], gc_my_keys = keys_new \<rparr>"
  "pn_accepted_json calm_env s = Some calm_accepted" "pn_environment calm_env = None" "pn_delete calm_env t k"
  "pn_save calm_env t st" "pn_load calm_env t" "pn_required_confirmations calm_env = 0" "pn_btc_confirmations calm_env = 1"
  "pn_btc_status_retry_blocks calm_env = 1" "pn_advance_funds_timeout_secs calm_env = 10"
  "show_uuid (pn_sig calm_env) u = ''''" "call_ok (pn_sig calm_env) l c"
  by (simp_all add: calm_env_def)

lemma calm_committee: "committee_id_try_from 1 = Inr 1"
  by (simp add: committee_id_try_from_def)

lemmas pegout_run_defs = po_complete_step_def po_start_step_def numeral_2_eq_2 po_process_step_data_def po_entry_action_def
  po_request_bitvmx_comm_info_def po_send_bitvmx_msg_def po_persist_state_def po_perform_ok_def po_perform_contract_def po_perform_def
  po_dispatch_transaction_def po_request_spv_proof_def po_request_transaction_status_def get_user_take_txid_def
  confirm_user_take_transaction_def register_pegout_def invoke_contract_safe_def verify_confirmations_def
  octx_def map_octx_def po_step_def set_po_step_def trigger_operator_take_def
  Let_def fbind_def fseq_def fget_def fmod_def fret_def ffail_def fok_or_def ensure_def fensure_def lift_res_def

lemmas pegout_setup_defs = communicate_pegout_requested_to_bitvmx_def send_pegout_requested_to_bitvmx_def
  po_get_committee_output_def pegout_requested_to_bitvmx_request_def po_committee_id_def po_build_take_aggregated_key_def
  po_send_setup_to_bitvmx_def po_get_committee_pubkey_hashes_def COMM_KEY_INDEX_def get_committee_member_address_def
  build_communication_data_def pegout_flow_new_def

lemmas processor_run_defs = pp_process_new_rsk_event_def pp_process_new_bitvmx_event_def process_confirmed_rsk_event_def
  create_flow_for_pegout_requested_def cleanup_terminal_flows_def cleanup_terminal_flow_state_def po_is_terminal_def
  persist_processor_state_def pp_perform_def im_member_def pegout_flow_by_protocol_id_def on_flow_def try_flow_def map_failure_def
  complete_comm_info_def flow_at_def handle_pegout_accepted_def skip_signatures_def get_force_advance_address_def
  is_force_flags_allowed_def start_signatures_def

definition calm_key :: uuid where
  "calm_key = flow_id_from_pegout_requested_tx_hash calm_flow_env 4"

text \<open>A processor with one flow at a step, and nothing else going on but the given signatures and timers.\<close>

definition calm_state :: "pegout_steps \<Rightarrow> pegout_state \<Rightarrow> bool" where
  "calm_state s st \<longleftrightarrow> os_step st = s \<and> os_flow_id st = calm_key \<and> oc_bitvmx_protocol_id (os_ctx st) = calm_program \<and>
     oc_pegout_requested (os_ctx st) = calm_request \<and> oc_pegout_registered_tx (os_ctx st) = None \<and>
     (4 \<le> po_stage s \<longrightarrow> oc_peg_out_accepted (os_ctx st) = Some calm_accepted)"

definition calm_proc ::
  "pegout_state \<Rightarrow> (uuid \<times> sig_sub_flow) list \<Rightarrow> uuid list \<Rightarrow> (uuid \<times> u64) list \<Rightarrow> pp_trace \<Rightarrow> pegout_processor" where
  "calm_proc st sigs pending timers t = \<lparr> pp_flows = [(calm_key, st)], pp_signature_flows = sigs, pp_view = view_new,
     pp_events_confirming = [], pp_tx_status = tick_new, pp_advance_funds = \<lparr> tb_pending = timers \<rparr>,
     pp_pending_timeout = pending, pp_unconfirmed = [], pp_register_retry = tick_new, pp_trace = t \<rparr>"

lemma calm_cleanup:
  assumes "calm_state s st" and "s \<noteq> Po_Done" and "s \<noteq> Po_Failed"
  shows "cleanup_terminal_flows calm_env (calm_proc st sigs pending timers t) = (Inr (), calm_proc st sigs pending timers t)"
  using assms by (simp add: cleanup_terminal_flows_def cleanup_terminal_flow_state_def flow_defs calm_proc_def po_is_terminal_def calm_state_def)

lemma calm_persist:
  "\<exists>t'. persist_processor_state calm_env (calm_proc st sigs pending timers t) = (Inr (), calm_proc st sigs pending timers (t @ t'))"
  by (simp add: persist_processor_state_def pp_perform_def flow_defs Let_def ensure_def calm_proc_works calm_proc_def)

lemma calm_on_flow:
  "m \<lparr> of_state = st, of_trace = t \<rparr> = (Inr x, g) \<Longrightarrow>
     on_flow calm_key m (calm_proc st sigs pending timers t) = (Inr x, calm_proc (of_state g) sigs pending timers (of_trace g))"
  by (simp add: on_flow_def try_flow_def calm_proc_def map_failure_def fbind_def lift_res_def)

lemma calm_created:
  "\<exists>st t. snd (pp_handle calm_env (RskEvent (PegoutRequested (calm_event (RequestedData calm_request)))) (pp_new [])) = calm_proc st [] [] [] t \<and>
     calm_state Po_GetCommInfoAuthoritativeCheckpoint st"
  by (simp add: pp_new_def pegout_run_defs pegout_flow_new_def processor_run_defs calm_works calm_proc_works split_def calm_key_def
     calm_event_def calm_request_def calm_committee calm_program_def calm_proc_def calm_state_def time_new_def)

lemma calm_comm_info:
  "calm_state Po_GetCommInfoAuthoritativeCheckpoint st \<Longrightarrow>
    \<exists>st' t'. po_complete_step calm_flow_env (Pd_CommInfo c) \<lparr> of_state = st, of_trace = t \<rparr> = (Inr (), \<lparr> of_state = st', of_trace = t' \<rparr>) \<and>
      calm_state Po_PrepareUserTakeSetup st'"
  by (simp add: pegout_run_defs pegout_setup_defs calm_works calm_state_def calm_request_def calm_committee unset_address split_def numeral_nat)

lemma calm_acceptance:
  "calm_state Po_PrepareUserTakeSetup st \<Longrightarrow>
    \<exists>st' t'. po_complete_step calm_flow_env (Pd_PegoutAccepted calm_accepted) \<lparr> of_state = st, of_trace = t \<rparr> = (Inr (), \<lparr> of_state = st', of_trace = t' \<rparr>) \<and>
      calm_state Po_WaitUserTakeSignaturesReady st'"
  by (simp add: pegout_run_defs calm_works calm_state_def)

definition calm_sig_new :: "string \<Rightarrow> sig_sub_flow" where
  "calm_sig_new l = snd (start_signature_flow (pn_sig calm_env) calm_program
     \<lparr> rs_hash_to_sign = 5, rs_nonce = [], rs_signature = [] \<rparr>
     (sub_flow_new calm_program l 0 (Some (SpanPegout calm_key))))"

lemma calm_sig_starts:
  "start_signature_flow (pn_sig calm_env) calm_program \<lparr> rs_hash_to_sign = 5, rs_nonce = [], rs_signature = [] \<rparr>
     (sub_flow_new calm_program l 0 (Some (SpanPegout calm_key))) = (Inr (), calm_sig_new l)"
  by (simp add: calm_sig_new_def start_signature_flow_def sub_flow_new_def lifecycle_new_def on_lifecycle_def
      send_nonce_to_contracts_def run_call_def flow_defs Let_def calm_proc_works)

lemma handle_calm_comm_info:
  assumes "calm_state Po_GetCommInfoAuthoritativeCheckpoint st"
  shows "\<exists>st' t'. snd (pp_handle calm_env (BitvmxEvent (OCommInfo r c)) (calm_proc st [] [] [] t)) = calm_proc st' [] [] [] t' \<and>
     calm_state Po_PrepareUserTakeSetup st'"
proof -
  obtain st' t' where run: "po_complete_step calm_flow_env (Pd_CommInfo c) \<lparr> of_state = st, of_trace = t \<rparr> =
      (Inr (), \<lparr> of_state = st', of_trace = t' \<rparr>)" "calm_state Po_PrepareUserTakeSetup st'"
    using calm_comm_info [OF assms] by blast
  have at: "flow_at calm_key Po_GetCommInfoAuthoritativeCheckpoint (calm_proc st [] [] [] t)" "map fst (pp_flows (calm_proc st [] [] [] t)) = [calm_key]"
    using assms by (simp_all add: flow_at_def calm_proc_def calm_state_def)
  obtain t'' where "persist_processor_state calm_env (calm_proc st' [] [] [] t') = (Inr (), calm_proc st' [] [] [] (t' @ t''))"
    using calm_persist by blast
  with run at show ?thesis
    by (auto simp: pp_process_new_bitvmx_event_def calm_cleanup [OF assms] fseq_def fbind_def fret_def complete_comm_info_def
        fget_def calm_on_flow [where m = "po_complete_step calm_flow_env (Pd_CommInfo c)", OF run(1)] calm_proc_works)
qed

lemma handle_calm_accepted:
  assumes "calm_state Po_PrepareUserTakeSetup st"
  shows "\<exists>st' t' l. snd (pp_handle calm_env (BitvmxEvent (OVariable calm_program PEGOUT_ACCEPTED_NAME (VString d))) (calm_proc st [] [] [] t)) =
      calm_proc st' [(calm_program, calm_sig_new l)] [calm_key] [] t' \<and> calm_state Po_WaitUserTakeSignaturesReady st'"
proof -
  obtain st' t' where run: "po_complete_step calm_flow_env (Pd_PegoutAccepted calm_accepted) \<lparr> of_state = st, of_trace = t \<rparr> =
      (Inr (), \<lparr> of_state = st', of_trace = t' \<rparr>)" "calm_state Po_WaitUserTakeSignaturesReady st'"
    using calm_acceptance [OF assms] by blast
  let ?p = "calm_proc st [] [] [] t" and ?q = "calm_proc st' [] [] [] t'" and ?sigs = "[(calm_program, calm_sig_new (os_log_id st))]"
  have found: "pegout_flow_by_protocol_id calm_program ?p = Some (calm_key, st)"
    using assms by (simp add: pegout_flow_by_protocol_id_def calm_proc_def calm_state_def)
  have skip: "\<not> skip_signatures calm_env ?q"
    by (simp add: skip_signatures_def get_force_advance_address_def is_force_flags_allowed_def calm_proc_works)
  have sigs: "start_signatures calm_env calm_program (os_log_id st) calm_key \<lparr> rs_hash_to_sign = 5, rs_nonce = [], rs_signature = [] \<rparr> ?q
      = (Inr (), calm_proc st' ?sigs [] [] t')"
    by (simp add: start_signatures_def calm_proc_works calm_sig_starts calm_proc_def)
  have accepted: "pa_user_take_nonce calm_accepted = []" "pa_user_take_signature calm_accepted = []"
    by (simp_all add: calm_accepted_def)
  have pend: "(calm_proc st' ?sigs [] [] t') \<lparr> pp_pending_timeout := [calm_key] \<rparr> = calm_proc st' ?sigs [calm_key] [] t'"
    "pp_pending_timeout (calm_proc st' ?sigs [] [] t') = []"
    by (simp_all add: calm_proc_def)
  have "handle_pegout_accepted calm_env calm_program d ?p = (Inr (), calm_proc st' ?sigs [calm_key] [] t')"
    using assms found skip sigs pend
    by (simp add: handle_pegout_accepted_def flow_defs calm_proc_works Let_def calm_on_flow [where m = "po_complete_step calm_flow_env (Pd_PegoutAccepted calm_accepted)", OF run(1)] calm_state_def
        calm_request_def accepted)
  moreover obtain t'' where "persist_processor_state calm_env (calm_proc st' ?sigs [calm_key] [] t') = (Inr (), calm_proc st' ?sigs [calm_key] [] (t' @ t''))"
    using calm_persist by blast
  ultimately show ?thesis using run(2)
    by (auto simp: pp_process_new_bitvmx_event_def calm_cleanup [OF assms] fseq_def fbind_def fret_def)
qed

lemma calm_start_run:
  "\<exists>st t l. run_inputs calm_env calm_start (pp_new []) = calm_proc st [(calm_program, calm_sig_new l)] [calm_key] [] t \<and>
     calm_state Po_WaitUserTakeSignaturesReady st"
proof -
  obtain st t where a: "snd (pp_handle calm_env (RskEvent (PegoutRequested (calm_event (RequestedData calm_request)))) (pp_new [])) =
      calm_proc st [] [] [] t" "calm_state Po_GetCommInfoAuthoritativeCheckpoint st"
    using calm_created by blast
  let ?c = "\<lparr> ca_address = \<lparr> sa_ip = IpV4 1, sa_port = 1 \<rparr>, ca_pubkey_hash = ''h'' \<rparr>"
  obtain st' t' where b: "snd (pp_handle calm_env (BitvmxEvent (OCommInfo 0 ?c)) (calm_proc st [] [] [] t)) = calm_proc st' [] [] [] t'"
      "calm_state Po_PrepareUserTakeSetup st'"
    using handle_calm_comm_info [OF a(2), of 0 ?c t] by blast
  from handle_calm_accepted [OF b(2), of "''''" t'] show ?thesis
    by (simp add: calm_start_def a(1) b(1) del: pp_handle.simps)
qed

lemma calm_proc_sel:
  "pp_flows (calm_proc st sigs pending timers t) = [(calm_key, st)]" "pp_signature_flows (calm_proc st sigs pending timers t) = sigs"
  "pp_trace (calm_proc st sigs pending timers t) = t"
  "(calm_proc st sigs pending timers t) \<lparr> pp_signature_flows := sigs' \<rparr> = calm_proc st sigs' pending timers t"
  "(calm_proc st sigs pending timers t) \<lparr> pp_flows := [(calm_key, st')], pp_trace := t' \<rparr> = calm_proc st' sigs pending timers t'"
  by (simp_all add: calm_proc_def)

section \<open>Blocks for the flow that waits\<close>

text \<open>The flow has just been accepted, or its timer runs but has not expired.\<close>

definition calm_timing :: "uuid list \<Rightarrow> (uuid \<times> u64) list \<Rightarrow> block_and_uncles \<Rightarrow> bool" where
  "calm_timing pending timers b \<longleftrightarrow> (pending = [calm_key] \<and> timers = [] \<and> cb_timestamp (bu_block b) < cb_timestamp (bu_block b) + 10) \<or>
     (pending = [] \<and> (\<exists>e. timers = [(calm_key, e)] \<and> cb_timestamp (bu_block b) < e))"

lemma calm_schedule:
  assumes "calm_state Po_WaitUserTakeSignaturesReady st" and "calm_timing pending timers b"
  shows "\<exists>e. schedule_pending_timeouts calm_env b (calm_proc st sigs pending timers t) = calm_proc st sigs [] [(calm_key, e)] t \<and>
     cb_timestamp (bu_block b) < e \<and> (pending = [] \<or> e = cb_timestamp (bu_block b) + 10) \<and> (pending \<noteq> [] \<or> timers = [(calm_key, e)])"
  using assms by (auto simp: calm_timing_def schedule_pending_timeouts_def calm_proc_def flow_at_def calm_state_def time_schedule_def
      calm_proc_works Let_def)

lemma calm_unexpired:
  "cb_timestamp (bu_block b) < e \<Longrightarrow>
     handle_advance_funds_timeout_expired calm_env b (calm_proc st sigs [] [(calm_key, e)] t) = (Inr (), calm_proc st sigs [] [(calm_key, e)] t)"
  using leD [of e "cb_timestamp (bu_block b)"]
  by (auto simp: handle_advance_funds_timeout_expired_def check_expired_def calm_proc_def flow_defs time_is_empty_def Let_def)

lemma calm_idle:
  "handle_transaction_status_tick calm_env (calm_proc st sigs pending timers t) = (Inr (), calm_proc st sigs pending timers t)"
  "handle_register_pegout_retry_tick calm_env (calm_proc st sigs pending timers t) = (Inr (), calm_proc st sigs pending timers t)"
  "process_block_confirmations calm_env b (calm_proc st sigs pending timers t) = (Inr (), calm_proc st sigs pending timers t)"
  by (simp_all add: handle_transaction_status_tick_def handle_register_pegout_retry_tick_def process_block_confirmations_def
      calm_proc_def flow_defs tick_is_empty_def tick_new_def)

lemma calm_still_signing:
  assumes "delegate_block (pn_sig calm_env) b sf = (Inr (), sf')" and "\<not> sf_is_done sf'"
  shows "process_unhandled_confirmed_sig_flow_events calm_env b (calm_proc st [(calm_program, sf)] pending timers t) =
     (Inr (), calm_proc st [(calm_program, sf')] pending timers t)"
  using assms by (simp add: process_unhandled_confirmed_sig_flow_events_def on_signature_flow_def calm_proc_def flow_defs map_failure_def)

lemma handle_calm_block:
  assumes s: "calm_state Po_WaitUserTakeSignaturesReady st" and "calm_timing pending timers b"
    and sf: "delegate_block (pn_sig calm_env) b sf = (Inr (), sf')" "\<not> sf_is_done sf'"
  shows "\<exists>t' e. snd (pp_handle calm_env (NewBlock b) (calm_proc st [(calm_program, sf)] pending timers t)) =
      calm_proc st [(calm_program, sf')] [] [(calm_key, e)] t' \<and> (pending = [] \<or> e = cb_timestamp (bu_block b) + 10) \<and>
      (pending \<noteq> [] \<or> timers = [(calm_key, e)])"
proof -
  obtain e where e: "schedule_pending_timeouts calm_env b (calm_proc st [(calm_program, sf)] pending timers t) =
      calm_proc st [(calm_program, sf)] [] [(calm_key, e)] t" "cb_timestamp (bu_block b) < e"
      "pending = [] \<or> e = cb_timestamp (bu_block b) + 10" "pending \<noteq> [] \<or> timers = [(calm_key, e)]"
    using calm_schedule [OF s assms(2)] by blast
  obtain t'' where "persist_processor_state calm_env (calm_proc st [(calm_program, sf')] [] [(calm_key, e)] t) =
      (Inr (), calm_proc st [(calm_program, sf')] [] [(calm_key, e)] (t @ t''))"
    using calm_persist by blast
  with e show ?thesis
    by (auto simp: pp_process_new_block_def calm_cleanup [OF s] fseq_def fbind_def fmod_def calm_unexpired calm_still_signing [OF sf] calm_idle)
qed

section \<open>The timeout\<close>

lemma calm_timeout:
  assumes "calm_state Po_WaitUserTakeSignaturesReady st"
  shows "po_complete_step calm_flow_env Pd_TriggerOperatorTakeTimeout \<lparr> of_state = st, of_trace = t \<rparr> =
     (Inr (), \<lparr> of_state = st \<lparr> os_step := Po_TriggerOperatorTake \<rparr>,
        of_trace = t @ [CalledTriggerOperatorTake (take_id calm_env st) (Inr ''tx'')] \<rparr>)"
  using assms by (simp add: pegout_run_defs calm_works calm_state_def take_id_def calm_proc_works)

lemma calm_finish:
  assumes "calm_state Po_WaitUserTakeSignaturesReady st"
  shows "\<exists>st' u. po_complete_step calm_flow_env Pd_TriggerOperatorTakeTimeout \<lparr> of_state = st \<lparr> os_step := Po_TriggerOperatorTake \<rparr>, of_trace = t \<rparr> =
     (Inr (), \<lparr> of_state = st', of_trace = t @ u \<rparr>)"
  using assms by (simp add: pegout_run_defs calm_works calm_state_def)

lemma calm_expired:
  assumes s: "calm_state Po_WaitUserTakeSignaturesReady st" and "e \<le> cb_timestamp (bu_block b)"
  shows "\<exists>st' u. handle_advance_funds_timeout_expired calm_env b (calm_proc st sigs [] [(calm_key, e)] t) =
     (Inr (), calm_proc st' (AList.delete calm_program sigs) [] [] (t @ CalledTriggerOperatorTake (take_id calm_env st) (Inr ''tx'') # u))"
proof -
  let ?c = "CalledTriggerOperatorTake (take_id calm_env st) (Inr ''tx'')"
  let ?st = "st \<lparr> os_step := Po_TriggerOperatorTake \<rparr>"
  obtain st' u where fin: "po_complete_step calm_flow_env Pd_TriggerOperatorTakeTimeout \<lparr> of_state = ?st, of_trace = t @ [?c] \<rparr> =
      (Inr (), \<lparr> of_state = st', of_trace = (t @ [?c]) @ u \<rparr>)"
    using calm_finish [OF s, of "t @ [?c]"] by blast
  have first: "on_flow calm_key (po_complete_step calm_flow_env Pd_TriggerOperatorTakeTimeout) (calm_proc st sigs' [] [] t) =
      (Inr (), calm_proc ?st sigs' [] [] (t @ [?c]))" for sigs'
    using calm_on_flow [where m = "po_complete_step calm_flow_env Pd_TriggerOperatorTakeTimeout", OF calm_timeout [OF s]] by simp
  have second: "on_flow calm_key (po_complete_step calm_flow_env Pd_TriggerOperatorTakeTimeout) (calm_proc ?st sigs' [] [] (t @ [?c])) =
      (Inr (), calm_proc st' sigs' [] [] (t @ ?c # u))" for sigs'
    using calm_on_flow [where m = "po_complete_step calm_flow_env Pd_TriggerOperatorTakeTimeout", OF fin] by simp
  have look: "map_of (pp_flows (calm_proc st sigs [] [] t)) calm_key = Some st" "flow_at calm_key Po_TriggerOperatorTake (calm_proc ?st sigs' [] [] t')" for sigs' t'
    by (simp_all add: calm_proc_def flow_at_def)
  have drop: "(calm_proc st sigs [] [] t) \<lparr> pp_signature_flows := AList.delete i (pp_signature_flows (calm_proc st sigs [] [] t)) \<rparr> =
      calm_proc st (AList.delete i sigs) [] [] t" for i by (simp add: calm_proc_def)
  have "trigger_operator_take_for_flow calm_env calm_key (calm_proc st sigs [] [] t) =
      (Inr (), calm_proc st' (AList.delete calm_program sigs) [] [] (t @ ?c # u))"
    using s look drop first second
    by (simp add: trigger_operator_take_for_flow_def flow_defs calm_proc_works calm_state_def)
  moreover have "(calm_proc st sigs [] [(calm_key, e)] t) \<lparr> pp_advance_funds := \<lparr> tb_pending = [] \<rparr> \<rparr> = calm_proc st sigs [] [] t"
    "pp_advance_funds (calm_proc st sigs [] [(calm_key, e)] t) = \<lparr> tb_pending = [(calm_key, e)] \<rparr>"
    by (simp_all add: calm_proc_def)
  ultimately show ?thesis
    using assms(2) by (auto simp: handle_advance_funds_timeout_expired_def check_expired_def flow_defs time_is_empty_def Let_def)
qed

section \<open>Signatures\<close>

lemmas sig_run_defs = calm_sig_new_def start_signature_flow_def sub_flow_new_def lifecycle_new_def on_lifecycle_def
  send_nonce_to_contracts_def run_call_def delegate_rsk_event_def get_hash_to_sign_def set_all_nonces_ready_def
  modify_nonces_confirmation_status_def modify_event_confirmation_status_def start_confirming_def event_new_def
  confirmations_new_def remove_observer_def add_observer_def view_new_def delegate_block_def update_view_def view_update_def
  get_tip_def last_opt_def has_observers_def is_all_nonces_ready_confirmed_def event_is_confirmed_def
  confirmations_is_confirmed_def notify_added_block_def notify_cells_def send_signature_to_contracts_def stop_nonce_step_def
  stop_confirming_def set_all_signatures_ready_def modify_signatures_confirmation_status_def
  is_all_signatures_ready_confirmed_def view_validate_consecutive_block_def nonce_event_id_def signature_event_id_def
  bu_number_def bu_hash_def calm_block_def new_no_uncles_def core_block_new_def calm_event_def on_block_added_def

lemma calm_sig_block:
  "\<exists>sf. delegate_block (pn_sig calm_env) (calm_block 1 0) (calm_sig_new l) = (Inr (), sf) \<and> \<not> sf_is_done sf"
  by (simp add: sig_run_defs flow_defs Let_def calm_proc_works)

lemma calm_signs:
  "\<exists>sf. delegate_rsk_event calm_program (AllNoncesReady (calm_event 5) :: pegout_event) (calm_sig_new l) = (Inr (), sf) \<and>
    (\<exists>sf'. delegate_block (pn_sig calm_env) (calm_block 1 0) sf = (Inr (), sf') \<and> \<not> sf_is_done sf' \<and>
    (\<exists>sf''. delegate_rsk_event calm_program (AllSignaturesReady (calm_event 5) :: pegout_event) sf' = (Inr (), sf'') \<and>
    (\<exists>sf3. delegate_block (pn_sig calm_env) (calm_block 2 1) sf'' = (Inr (), sf3) \<and> sf_is_done sf3)))"
proof -
  have "\<not> (2 :: u64) \<le> 1" by (simp add: word_le_nat_alt)
  then show ?thesis by (simp add: sig_run_defs flow_defs Let_def calm_proc_works)
qed

lemma handle_calm_signature_event:
  assumes s: "calm_state Po_WaitUserTakeSignaturesReady st" and "delegate_rsk_event calm_program ev sf = (Inr (), sf')"
    and "ev = AllNoncesReady x \<or> ev = AllSignaturesReady x"
  shows "\<exists>t'. snd (pp_handle calm_env (RskEvent ev) (calm_proc st [(calm_program, sf)] pending timers t)) =
      calm_proc st [(calm_program, sf')] pending timers t'"
proof -
  have sig: "delegate_signature_event ev (calm_proc st [(calm_program, sf)] pending timers t) =
      (Inr (), calm_proc st [(calm_program, sf')] pending timers t)"
    using assms(2) by (simp add: delegate_signature_event_def on_signature_flow_def calm_proc_def flow_defs map_failure_def)
  obtain t'' where "persist_processor_state calm_env (calm_proc st [(calm_program, sf')] pending timers t) =
      (Inr (), calm_proc st [(calm_program, sf')] pending timers (t @ t''))"
    using calm_persist by blast
  with sig assms(3) show ?thesis
    by (auto simp: pp_process_new_rsk_event_def Let_def fseq_def fbind_def calm_cleanup [OF s])
qed

section \<open>Dispatch, confirmation and registration\<close>

lemma calm_dispatch:
  "calm_state Po_WaitUserTakeSignaturesReady st \<Longrightarrow>
    \<exists>st' t'. po_complete_step calm_flow_env Pd_UserTakeSignaturesReady \<lparr> of_state = st, of_trace = t \<rparr> = (Inr (), \<lparr> of_state = st', of_trace = t' \<rparr>) \<and>
      calm_state Po_ConfirmUserTakeTransaction st'"
  by (simp add: pegout_run_defs calm_works calm_state_def)

lemma calm_confirm:
  "calm_state Po_ConfirmUserTakeTransaction st \<Longrightarrow>
    \<exists>st' t'. po_complete_step calm_flow_env (Pd_TransactionConfirmed kind_status) \<lparr> of_state = st, of_trace = t \<rparr> = (Inr (), \<lparr> of_state = st', of_trace = t' \<rparr>) \<and>
      calm_state Po_RequestUserTakeSpvProof st'"
  by (simp add: pegout_run_defs calm_works calm_state_def kind_status_def calm_accepted_def)

lemma calm_register:
  "calm_state Po_RequestUserTakeSpvProof st \<Longrightarrow>
    \<exists>st' t'. po_complete_step calm_flow_env (Pd_SpvProof proof) \<lparr> of_state = st, of_trace = t \<rparr> = (Inr (), \<lparr> of_state = st', of_trace = t' \<rparr>) \<and>
      calm_state Po_RegisterPegout st' \<and>
      CalledRegisterPegout (from_spv_proof (bridge_text (oe_ops calm_flow_env)) proof) (Inr ''tx'') \<in> set t'"
  by (simp add: pegout_run_defs calm_works calm_state_def)

lemma calm_registered:
  "calm_state Po_RegisterPegout st \<Longrightarrow>
    \<exists>st' t'. po_complete_step calm_flow_env (Pd_PegoutRegistered \<lparr> pg_txid = 8, pg_rest = [] \<rparr> h) \<lparr> of_state = st, of_trace = t \<rparr> =
      (Inr (), \<lparr> of_state = st', of_trace = t' @ [CountedPegout 3] \<rparr>)"
  by (simp add: pegout_run_defs calm_works calm_state_def allows_fast_forward_to_pegout_registered_def po_write_completion_marker_def
      complete_with_confirmed_pegout_registration_def send_pegout_completed_to_bitvmx_def calm_accepted_def
      po_record_completion_metrics_def calm_request_def)

lemma handle_calm_done:
  assumes s: "calm_state Po_WaitUserTakeSignaturesReady st" and "calm_timing pending timers b"
    and sf: "delegate_block (pn_sig calm_env) b sf = (Inr (), sf')" "sf_is_done sf'"
  shows "\<exists>st' t'. snd (pp_handle calm_env (NewBlock b) (calm_proc st [(calm_program, sf)] pending timers t)) = calm_proc st' [] [] [] t' \<and>
      calm_state Po_ConfirmUserTakeTransaction st'"
proof -
  obtain e where e: "schedule_pending_timeouts calm_env b (calm_proc st [(calm_program, sf)] pending timers t) =
      calm_proc st [(calm_program, sf)] [] [(calm_key, e)] t" "cb_timestamp (bu_block b) < e"
    using calm_schedule [OF s assms(2)] by blast
  obtain st' t' where run: "po_complete_step calm_flow_env Pd_UserTakeSignaturesReady \<lparr> of_state = st, of_trace = t \<rparr> =
      (Inr (), \<lparr> of_state = st', of_trace = t' \<rparr>)" "calm_state Po_ConfirmUserTakeTransaction st'"
    using calm_dispatch [OF s] by blast
  have flow: "on_flow calm_key (po_complete_step calm_flow_env Pd_UserTakeSignaturesReady) (calm_proc st [] [] [(calm_key, e)] t) =
      (Inr (), calm_proc st' [] [] [(calm_key, e)] t')"
    using calm_on_flow [where m = "po_complete_step calm_flow_env Pd_UserTakeSignaturesReady", OF run(1)] by simp
  have sigs: "(calm_proc st [(calm_program, sf')] [] [(calm_key, e)] t) \<lparr> pp_signature_flows := [] \<rparr> = calm_proc st [] [] [(calm_key, e)] t"
    "pp_signature_flows (calm_proc st [(calm_program, sf')] [] [(calm_key, e)] t) = [(calm_program, sf')]"
    "pegout_flow_by_protocol_id calm_program (calm_proc st [] [] [(calm_key, e)] t) = Some (calm_key, st)"
    "(calm_proc st' [] [] [(calm_key, e)] t') \<lparr> pp_advance_funds := time_cancel calm_key (pp_advance_funds (calm_proc st' [] [] [(calm_key, e)] t')) \<rparr> =
       calm_proc st' [] [] [] t'"
    using s by (simp_all add: calm_proc_def pegout_flow_by_protocol_id_def calm_state_def time_cancel_def)
  have "dispatch_signed_flow calm_env calm_program (calm_proc st [(calm_program, sf')] [] [(calm_key, e)] t) = (Inr (), calm_proc st' [] [] [] t')"
    using s sigs flow by (simp add: dispatch_signed_flow_def flow_defs calm_proc_works calm_state_def)
  then have "process_unhandled_confirmed_sig_flow_events calm_env b (calm_proc st [(calm_program, sf)] [] [(calm_key, e)] t) =
      (Inr (), calm_proc st' [] [] [] t')"
    using sf by (simp add: process_unhandled_confirmed_sig_flow_events_def on_signature_flow_def flow_defs map_failure_def calm_proc_sel)
  moreover obtain t'' where "persist_processor_state calm_env (calm_proc st' [] [] [] t') = (Inr (), calm_proc st' [] [] [] (t' @ t''))"
    using calm_persist by blast
  ultimately show ?thesis using e run(2)
    by (auto simp: pp_process_new_block_def calm_cleanup [OF s] fseq_def fbind_def fmod_def calm_unexpired calm_idle)
qed

lemma handle_calm_status:
  assumes s: "calm_state Po_ConfirmUserTakeTransaction st"
  shows "\<exists>st' t'. snd (pp_handle calm_env (BitvmxEvent (OTransaction calm_program kind_status None)) (calm_proc st [] [] [] t)) = calm_proc st' [] [] [] t' \<and>
      calm_state Po_RequestUserTakeSpvProof st'"
proof -
  obtain st' t' where run: "po_complete_step calm_flow_env (Pd_TransactionConfirmed kind_status) \<lparr> of_state = st, of_trace = t \<rparr> =
      (Inr (), \<lparr> of_state = st', of_trace = t' \<rparr>)" "calm_state Po_RequestUserTakeSpvProof st'"
    using calm_confirm [OF s] by blast
  have found: "pegout_flow_by_protocol_id calm_program (calm_proc st [] [] [] t) = Some (calm_key, st)"
    "(calm_proc st' [] [] [] t') \<lparr> pp_tx_status := tick_cancel k (pp_tx_status (calm_proc st' [] [] [] t')) \<rparr> = calm_proc st' [] [] [] t'" for k
    using s by (simp_all add: pegout_flow_by_protocol_id_def calm_proc_def calm_state_def tick_cancel_def tick_new_def)
  have "handle_transaction_status_received calm_env calm_program kind_status (calm_proc st [] [] [] t) = (Inr (), calm_proc st' [] [] [] t')"
    using s found calm_on_flow [where m = "po_complete_step calm_flow_env (Pd_TransactionConfirmed kind_status)", OF run(1)]
    by (simp add: handle_transaction_status_received_def flow_defs calm_proc_works calm_state_def get_user_take_txid_def
        calm_accepted_def kind_status_def [THEN arg_cong [where f = ts_tx_id]] kind_status_def [THEN arg_cong [where f = ts_confirmations]])
  moreover obtain t'' where "persist_processor_state calm_env (calm_proc st' [] [] [] t') = (Inr (), calm_proc st' [] [] [] (t' @ t''))"
    using calm_persist by blast
  ultimately show ?thesis using run(2)
    by (auto simp: pp_process_new_bitvmx_event_def calm_cleanup [OF s] fseq_def fbind_def fret_def)
qed

lemma handle_calm_proof:
  assumes s: "calm_state Po_RequestUserTakeSpvProof st"
  shows "\<exists>st' t'. snd (pp_handle calm_env (BitvmxEvent (OSPVProof (fb_32_to_txid 8) (Some proof))) (calm_proc st [] [] [] t)) = calm_proc st' [] [] [] t' \<and>
      calm_state Po_RegisterPegout st' \<and>
      CalledRegisterPegout (from_spv_proof (bridge_text (oe_ops calm_flow_env)) proof) (Inr ''tx'') \<in> set t'"
proof -
  obtain st' t' where run: "po_complete_step calm_flow_env (Pd_SpvProof proof) \<lparr> of_state = st, of_trace = t \<rparr> =
      (Inr (), \<lparr> of_state = st', of_trace = t' \<rparr>)" "calm_state Po_RegisterPegout st'"
      "CalledRegisterPegout (from_spv_proof (bridge_text (oe_ops calm_flow_env)) proof) (Inr ''tx'') \<in> set t'"
    using calm_register [OF s] by blast
  have "handle_spv_proof calm_env (fb_32_to_txid 8) (Some proof) (calm_proc st [] [] [] t) = (Inr True, calm_proc st' [] [] [] t')"
    using s run(1) by (simp add: handle_spv_proof_def flow_defs flow_by_user_take_txid_def calm_proc_works calm_state_def get_user_take_txid_def
        calm_accepted_def try_flow_def calm_proc_sel)
  moreover obtain t'' where "persist_processor_state calm_env (calm_proc st' [] [] [] t') = (Inr (), calm_proc st' [] [] [] (t' @ t''))"
    using calm_persist by blast
  ultimately show ?thesis using run(2,3)
    by (intro exI [of _ st'] exI [of _ "t' @ t''"])
      (simp add: pp_process_new_bitvmx_event_def calm_cleanup [OF s] fseq_def fbind_def fret_def)
qed

section \<open>The runs\<close>

lemma run_inputs_append: "run_inputs env (is @ js) p = run_inputs env js (run_inputs env is p)"
  by (induction "is" arbitrary: p) simp_all

definition calm_late :: "pp_input list" where
  "calm_late = calm_start @ [NewBlock (calm_block 1 0)]"

lemma calm_times: "calm_timing [calm_key] [] (calm_block 1 0)" "calm_timing [] [(calm_key, 10)] (calm_block 2 1)"
  by (simp_all add: calm_timing_def calm_block_def new_no_uncles_def core_block_new_def)

lemma calm_late_run:
  "\<exists>st sf t. run_inputs calm_env calm_late (pp_new []) = calm_proc st [(calm_program, sf)] [] [(calm_key, 10)] t \<and>
     calm_state Po_WaitUserTakeSignaturesReady st"
proof -
  obtain st t l where a: "run_inputs calm_env calm_start (pp_new []) = calm_proc st [(calm_program, calm_sig_new l)] [calm_key] [] t"
      "calm_state Po_WaitUserTakeSignaturesReady st" using calm_start_run by blast
  obtain sf where sf: "delegate_block (pn_sig calm_env) (calm_block 1 0) (calm_sig_new l) = (Inr (), sf)" "\<not> sf_is_done sf"
    using calm_sig_block by blast
  from handle_calm_block [OF a(2) calm_times(1) sf, of t] a show ?thesis
    by (auto simp: calm_late_def run_inputs_append calm_block_def new_no_uncles_def core_block_new_def simp del: pp_handle.simps)
qed

definition calm_signing :: "pp_input list" where
  "calm_signing = [RskEvent (AllNoncesReady (calm_event 5)), NewBlock (calm_block 1 0), RskEvent (AllSignaturesReady (calm_event 5)),
     NewBlock (calm_block 2 1), BitvmxEvent (OTransaction calm_program kind_status None),
     BitvmxEvent (OSPVProof (fb_32_to_txid 8) (Some sample_proof))]"

lemma calm_register_run:
  "\<exists>st t. run_inputs calm_env (calm_start @ calm_signing) (pp_new []) = calm_proc st [] [] [] t \<and> calm_state Po_RegisterPegout st \<and>
     CalledRegisterPegout (from_spv_proof (bridge_text (oe_ops calm_flow_env)) sample_proof) (Inr ''tx'') \<in> set t"
proof -
  obtain st t l where a: "run_inputs calm_env calm_start (pp_new []) = calm_proc st [(calm_program, calm_sig_new l)] [calm_key] [] t"
      "calm_state Po_WaitUserTakeSignaturesReady st" using calm_start_run by blast
  obtain sf1 sf2 sf3 sf4 where
    sf: "delegate_rsk_event calm_program (AllNoncesReady (calm_event 5) :: pegout_event) (calm_sig_new l) = (Inr (), sf1)"
      "delegate_block (pn_sig calm_env) (calm_block 1 0) sf1 = (Inr (), sf2)" "\<not> sf_is_done sf2"
      "delegate_rsk_event calm_program (AllSignaturesReady (calm_event 5) :: pegout_event) sf2 = (Inr (), sf3)"
      "delegate_block (pn_sig calm_env) (calm_block 2 1) sf3 = (Inr (), sf4)" "sf_is_done sf4"
    using calm_signs [of l] by blast
  obtain t1 where b: "snd (pp_handle calm_env (RskEvent (AllNoncesReady (calm_event 5))) (calm_proc st [(calm_program, calm_sig_new l)] [calm_key] [] t)) =
      calm_proc st [(calm_program, sf1)] [calm_key] [] t1"
    using handle_calm_signature_event [OF a(2) sf(1)] by blast
  have ts: "cb_timestamp (bu_block (calm_block 1 0)) = 0" by (simp add: calm_block_def new_no_uncles_def core_block_new_def)
  obtain t2 where c: "snd (pp_handle calm_env (NewBlock (calm_block 1 0)) (calm_proc st [(calm_program, sf1)] [calm_key] [] t1)) =
      calm_proc st [(calm_program, sf2)] [] [(calm_key, 10)] t2"
    using handle_calm_block [OF a(2) calm_times(1) sf(2,3), of t1] by (auto simp: ts simp del: pp_handle.simps)
  obtain t3 where d: "snd (pp_handle calm_env (RskEvent (AllSignaturesReady (calm_event 5))) (calm_proc st [(calm_program, sf2)] [] [(calm_key, 10)] t2)) =
      calm_proc st [(calm_program, sf3)] [] [(calm_key, 10)] t3"
    using handle_calm_signature_event [OF a(2) sf(4)] by blast
  obtain st4 t4 where e: "snd (pp_handle calm_env (NewBlock (calm_block 2 1)) (calm_proc st [(calm_program, sf3)] [] [(calm_key, 10)] t3)) =
      calm_proc st4 [] [] [] t4" "calm_state Po_ConfirmUserTakeTransaction st4"
    using handle_calm_done [OF a(2) calm_times(2) sf(5,6)] by blast
  obtain st5 t5 where f: "snd (pp_handle calm_env (BitvmxEvent (OTransaction calm_program kind_status None)) (calm_proc st4 [] [] [] t4)) =
      calm_proc st5 [] [] [] t5" "calm_state Po_RequestUserTakeSpvProof st5"
    using handle_calm_status [OF e(2)] by blast
  from handle_calm_proof [OF f(2), of sample_proof t5] show ?thesis
    by (simp add: run_inputs_append calm_signing_def a b c d e f del: pp_handle.simps)
qed

end
