(* ===== verification/Pegout_Guarantees.thy ===== *)
theory Pegout_Guarantees
  imports Pegout_Runs
begin

text \<open>
  The properties of the pegout flows under their processor, for every sequence of requests, messages,
  contract events and blocks, and for a process that may stop and restart at any moment.
\<close>

section \<open>Registration and completion\<close>

text \<open>
  C5. Whatever happens to the processor, and wherever the process stops and restarts, a call of
  \<^verbatim>\<open>registerPegout\<close> comes after a successful save of the flow at the step that makes it, so that
  a crash during the call is retried; it passes the proof saved there, and the transaction reported
  as confirmed is the user-take transaction BitVMX announced for the program of the committee and
  slot that the request names.
\<close>

theorem pegout_register_call_journaled:
  assumes "reachable_pegouts env bs p" and "pp_trace p = before @ CalledRegisterPegout input r # after"
  shows "\<exists>st w status m cid. PoSaved (os_flow_id st) st True \<in> set before \<and> os_step st = Po_RegisterPegout \<and>
     oc_spv_proof (os_ctx st) = Some w \<and> input = from_spv_proof (bridge_text (oe_ops (pn_flow env))) w \<and>
     oc_transaction_status (os_ctx st) = Some status \<and> oc_peg_out_accepted (os_ctx st) = Some m \<and>
     ts_tx_id status = pa_user_take_txid m \<and>
     committee_id_try_from (pq_committee (oc_pegout_requested (os_ctx st))) = Inr cid \<and>
     oc_bitvmx_protocol_id (os_ctx st) =
       user_take_protocol_id (oe_sha256 (pn_flow env)) cid (pq_slot_id (oc_pegout_requested (os_ctx st)))"
proof -
  have j: "pj.journaled (pn_flow env) (pp_trace p)" using reachable_pp_inv [OF assms(1)] by (simp add: pp_inv_def)
  then have "po_justified (pn_flow env) (set before) (CalledRegisterPegout input r)"
    unfolding assms(2) by (rule pj.journaledD)
  then obtain st w where st: "PoSaved (os_flow_id st) st True \<in> set before" "os_step st = Po_RegisterPegout"
      "oc_spv_proof (os_ctx st) = Some w" "input = from_spv_proof (bridge_text (oe_ops (pn_flow env))) w"
    by auto
  obtain S where "po_justified (pn_flow env) S (PoSaved (os_flow_id st) st True)"
    using pj.journaled_in [OF j, of "PoSaved (os_flow_id st) st True"] st(1) assms(2) by auto
  then have "po_data (pn_flow env) (os_ctx st) Po_RegisterPegout" using st(2) by (simp add: po_state_inv_def po_holds_def)
  then have "user_take_confirmed (os_ctx st)" "program_known (pn_flow env) (os_ctx st)" by (simp_all add: po_data_def)
  with st show ?thesis unfolding user_take_confirmed_def program_known_def by blast
qed

theorem pegout_register_call_journaled_witness:
  "\<exists>bs p st input before after. reachable_pegouts calm_env bs p \<and>
     pp_trace p = before @ CalledRegisterPegout input (Inr ''tx'') # after \<and>
     PoSaved (os_flow_id st) st True \<in> set before \<and> os_step st = Po_RegisterPegout"
proof -
  let ?p = "run_inputs calm_env (calm_start @ calm_signing) (pp_new [])"
  obtain bs where r: "reachable_pegouts calm_env bs ?p" using run_inputs_reachable [OF reachable_pegouts.created] by blast
  obtain t where "pp_trace ?p = t" "CalledRegisterPegout (from_spv_proof (bridge_text (oe_ops calm_flow_env)) sample_proof) (Inr ''tx'') \<in> set t"
    using calm_register_run by (auto simp: calm_proc_sel)
  then obtain before after where t: "pp_trace ?p = before @
      CalledRegisterPegout (from_spv_proof (bridge_text (oe_ops calm_flow_env)) sample_proof) (Inr ''tx'') # after"
    by (auto dest: split_list)
  from pegout_register_call_journaled [OF r t] obtain st
    where "PoSaved (os_flow_id st) st True \<in> set before" "os_step st = Po_RegisterPegout" by blast
  with t r show ?thesis by blast
qed

text \<open>
  C6. A flow is saved as done only when the contract reported the registration of the user-take
  transaction that BitVMX announced, or after the operator take of that very pegout was called for;
  and a completion is counted, with the requested amount, only for a flow that was saved as done
  with a registration.
\<close>

theorem pegout_completion_matches:
  assumes "reachable_pegouts env bs p"
  shows "(\<forall>before k st ok after. pp_trace p = before @ PoSaved k st ok # after \<and> os_step st = Po_Done \<longrightarrow>
       registration_matches (os_ctx st) \<or>
       (\<exists>r. CalledTriggerOperatorTake (get_pegout_txid (pn_flow env) (os_ctx st)) r \<in> set before)) \<and>
     (\<forall>before amount after. pp_trace p = before @ CountedPegout amount # after \<longrightarrow>
       (\<exists>st. PoSaved (os_flow_id st) st True \<in> set before \<and> os_step st = Po_Done \<and> registration_matches (os_ctx st) \<and>
          amount = pq_request_amount (oc_pegout_requested (os_ctx st))))"
proof (intro conjI allI impI)
  have j: "pj.journaled (pn_flow env) (pp_trace p)" using reachable_pp_inv [OF assms] by (simp add: pp_inv_def)
  {
    fix before k st ok after
    assume s: "pp_trace p = before @ PoSaved k st ok # after \<and> os_step st = Po_Done"
    then have "po_justified (pn_flow env) (set before) (PoSaved k st ok)" using pj.journaledD j by metis
    then have "po_holds (pn_flow env) (set before) (os_ctx st) Po_Done" using s by (simp add: po_state_inv_def)
    then show "registration_matches (os_ctx st) \<or>
       (\<exists>r. CalledTriggerOperatorTake (get_pegout_txid (pn_flow env) (os_ctx st)) r \<in> set before)"
      by (auto simp: po_holds_def po_data_def triggered_def)
  }
  {
    fix before amount after
    assume c: "pp_trace p = before @ CountedPegout amount # after"
    then have "po_justified (pn_flow env) (set before) (CountedPegout amount)" using pj.journaledD j by metis
    then obtain st where st: "PoSaved (os_flow_id st) st True \<in> set before" "os_step st = Po_Done"
        "oc_pegout_registered_tx (os_ctx st) \<noteq> None" "amount = pq_request_amount (oc_pegout_requested (os_ctx st))" by auto
    obtain S where "po_justified (pn_flow env) S (PoSaved (os_flow_id st) st True)"
      using pj.journaled_in [OF j, of "PoSaved (os_flow_id st) st True"] st(1) c by auto
    then have "registration_matches (os_ctx st)" using st(3) by (simp add: po_state_inv_def po_holds_def po_data_def)
    with st show "\<exists>st. PoSaved (os_flow_id st) st True \<in> set before \<and> os_step st = Po_Done \<and> registration_matches (os_ctx st) \<and>
          amount = pq_request_amount (oc_pegout_requested (os_ctx st))" by blast
  }
qed

lemma trace_grows:
  assumes "\<And>t0. keeps (triggers_in UNIV t0) m"
  shows "set (pp_trace p) \<subseteq> set (pp_trace (snd (m p)))"
  using keepsD [OF assms triggers_in_refl [of UNIV p]] by (auto simp: triggers_in_def)

lemma calm_counted:
  "\<exists>bs p. reachable_pegouts calm_env bs p \<and> CountedPegout 3 \<in> set (pp_trace p)"
proof -
  let ?e = "PegoutRegistered (calm_event (RegisteredData \<lparr> pg_txid = 8, pg_rest = [] \<rparr>))"
  obtain st t where q: "run_inputs calm_env (calm_start @ calm_signing) (pp_new []) = calm_proc st [] [] [] t" "calm_state Po_RegisterPegout st"
    using calm_register_run by blast
  let ?q = "calm_proc st [] [] [] t"
  obtain st' t' where run: "po_complete_step calm_flow_env (Pd_PegoutRegistered \<lparr> pg_txid = 8, pg_rest = [] \<rparr> 4) \<lparr> of_state = st, of_trace = t \<rparr> =
      (Inr (), \<lparr> of_state = st', of_trace = t' @ [CountedPegout 3] \<rparr>)" using calm_registered [OF q(2)] by blast
  have found: "flow_by_user_take_txid (fb_32_to_txid 8) ?q = Some (calm_key, st)"
    using q(2) by (simp add: flow_by_user_take_txid_def calm_proc_sel calm_state_def get_user_take_txid_def calm_accepted_def)
  have "handle_pegout_registered calm_env \<lparr> pg_txid = 8, pg_rest = [] \<rparr> 4 ?q = (Inr (), calm_proc st' [] [] [] (t' @ [CountedPegout 3]))"
    using calm_on_flow [where m = "po_complete_step calm_flow_env (Pd_PegoutRegistered \<lparr> pg_txid = 8, pg_rest = [] \<rparr> 4)", OF run]
    by (simp add: handle_pegout_registered_def fbind_def fget_def found calm_proc_works)
  then have "snd (pp_handle calm_env (RskEvent ?e) ?q) =
      snd (fseq (cleanup_terminal_flows calm_env) (persist_processor_state calm_env) (calm_proc st' [] [] [] (t' @ [CountedPegout 3])))"
    by (simp add: pp_process_new_rsk_event_def process_confirmed_rsk_event_def calm_event_def calm_proc_works Let_def fseq_def fbind_def
        calm_cleanup [OF q(2)] split: prod.splits sum.splits)
  moreover have "set (pp_trace (calm_proc st' [] [] [] (t' @ [CountedPegout 3]))) \<subseteq>
      set (pp_trace (snd (fseq (cleanup_terminal_flows calm_env) (persist_processor_state calm_env) (calm_proc st' [] [] [] (t' @ [CountedPegout 3])))))"
    by (rule trace_grows) (intro keeps_seq keeps_triggers_cleanup quiet.persist_keeps)
  ultimately have "CountedPegout 3 \<in> set (pp_trace (snd (pp_handle calm_env (RskEvent ?e) ?q)))" by (auto simp: calm_proc_sel)
  moreover obtain bs where "reachable_pegouts calm_env bs ?q" using run_inputs_reachable [OF reachable_pegouts.created] q(1) by metis
  ultimately show ?thesis using reachable_pegouts.handled by blast
qed

theorem pegout_completion_matches_witness:
  "\<exists>bs p before after st. reachable_pegouts calm_env bs p \<and> pp_trace p = before @ CountedPegout 3 # after \<and>
     PoSaved (os_flow_id st) st True \<in> set before \<and> os_step st = Po_Done \<and> registration_matches (os_ctx st)"
proof -
  obtain bs p where r: "reachable_pegouts calm_env bs p" and "CountedPegout 3 \<in> set (pp_trace p)" using calm_counted by blast
  then obtain before after where "pp_trace p = before @ CountedPegout 3 # after" by (auto dest: split_list)
  with pegout_completion_matches [OF r] r show ?thesis by blast
qed

section \<open>The operator take\<close>

lemma calm_takes:
  assumes "calm_state Po_WaitUserTakeSignaturesReady st"
  shows "\<exists>u. CalledTriggerOperatorTake (take_id calm_env st) (Inr ''tx'') \<in> set u \<and>
     pp_trace (snd (pp_handle calm_env (NewBlock (calm_block 2 20)) (calm_proc st sigs [] [(calm_key, 10)] t))) = t @ u"
proof -
  let ?b = "calm_block 2 20" and ?p = "calm_proc st sigs [] [(calm_key, 10)] t"
  let ?c = "CalledTriggerOperatorTake (take_id calm_env st) (Inr ''tx'')"
  have ts: "cb_timestamp (bu_block ?b) = 20" by (simp add: calm_block_def new_no_uncles_def core_block_new_def)
  have sched: "schedule_pending_timeouts calm_env ?b ?p = ?p" by (simp add: schedule_pending_timeouts_def calm_proc_def)
  obtain st' u where x: "handle_advance_funds_timeout_expired calm_env ?b ?p =
      (Inr (), calm_proc st' (AList.delete calm_program sigs) [] [] (t @ ?c # u))"
    using calm_expired [OF assms, of 10 ?b sigs t] by (auto simp: ts word_le_nat_alt)
  let ?q = "calm_proc st' (AList.delete calm_program sigs) [] [] (t @ ?c # u)"
  let ?rest = "fseq (process_unhandled_confirmed_sig_flow_events calm_env ?b) (fseq (handle_transaction_status_tick calm_env)
     (fseq (handle_register_pegout_retry_tick calm_env) (fseq (process_block_confirmations calm_env ?b) (persist_processor_state calm_env))))"
  have "snd (pp_handle calm_env (NewBlock ?b) ?p) = snd (?rest ?q)"
    using x sched by (simp add: pp_process_new_block_def calm_cleanup [OF assms] fseq_def fbind_def fmod_def)
  moreover have "triggers_in UNIV (pp_trace ?q) (snd (?rest ?q))"
    by (rule keepsD [OF quiet.rest_of_block_keeps triggers_in_refl])
  ultimately show ?thesis by (auto simp: triggers_in_def calm_proc_sel)
qed



section \<open>Moves of a flow\<close>



text \<open>
  C7. If the store deletes what it is told to delete, the flow that a message of BitVMX is given to
  is the only one that runs the program the message names: looking it up finds exactly that flow,
  whatever the order of the map, after any history and any restarts.
\<close>

theorem pegout_routing:
  assumes "reachable_pegouts env bs p" and "\<And>t k. pn_delete env t k"
  shows "pegout_flow_by_protocol_id pid p = Some (k, st) \<longleftrightarrow>
     map_of (pp_flows p) k = Some st \<and> oc_bitvmx_protocol_id (os_ctx st) = pid"
proof -
  have "routed env p" using assms(1) by (rule reachable_routed)
  then have one: "one_per_program (pp_flows p)" and d: "distinct (map fst (pp_flows p))"
    using assms(2) by (simp_all add: routed_def unique_flows_def pp_inv_def)
  have found: "a \<in> set (pp_flows p) \<and> program_of (snd a) = pid" if "pegout_flow_by_protocol_id pid p = Some a" for a
    using that by (auto simp: pegout_flow_by_protocol_id_def find_Some_iff program_of_def case_prod_beta)
  have some: "\<exists>a. pegout_flow_by_protocol_id pid p = Some a" if "(k, st) \<in> set (pp_flows p)" "program_of st = pid"
    using that by (cases "pegout_flow_by_protocol_id pid p") (auto simp: pegout_flow_by_protocol_id_def find_None_iff program_of_def)
  have "pegout_flow_by_protocol_id pid p = Some (k, st)" if m: "(k, st) \<in> set (pp_flows p)" "program_of st = pid"
  proof -
    obtain a where a: "pegout_flow_by_protocol_id pid p = Some a" using some m by blast
    then have "fst a = k" using found one_per_programD [OF one, of a "(k, st)"] m by auto
    then have "a = (k, st)" using found [OF a] m eq_key_imp_eq_value [OF d, of k "snd a" st] by (cases a) auto
    with a show ?thesis by simp
  qed
  with found [of "(k, st)"] show ?thesis using d by (auto simp: program_of_def)
qed

theorem pegout_routing_witness:
  "\<exists>bs p st. reachable_pegouts calm_env bs p \<and> pegout_flow_by_protocol_id calm_program p = Some (calm_key, st)"
proof -
  obtain st sf t where p: "run_inputs calm_env calm_late (pp_new []) = calm_proc st [(calm_program, sf)] [] [(calm_key, 10)] t"
      "calm_state Po_WaitUserTakeSignaturesReady st" using calm_late_run by blast
  let ?p = "calm_proc st [(calm_program, sf)] [] [(calm_key, 10)] t"
  obtain bs where r: "reachable_pegouts calm_env bs ?p" using run_inputs_reachable [OF reachable_pegouts.created] p(1) by metis
  have "pegout_flow_by_protocol_id calm_program ?p = Some (calm_key, st)"
    using pegout_routing [OF r, of calm_program calm_key st] p(2) by (simp add: calm_proc_sel calm_state_def calm_env_def)
  with r show ?thesis by blast
qed

end
