(* ===== verification/Block_Store.thy ===== *)
theory Block_Store
  imports Bridge_Verifier Flow_Monad
begin

text \<open>
  The store of the block indexer (\<^verbatim>\<open>crates/block-indexer/src/store.rs\<close> and \<^verbatim>\<open>cache.rs\<close>): blocks
  by hash, the canonical hash of each height, the best block and the checkpoint of an interrupted
  synchronisation, in a key-value database behind a cache. The database and the LRU cache are
  libraries: the cache is a parameter with the law that it only returns what was last put under a
  key, and the database keeps what it was told unless a call fails, before or after it took effect.
  The contract of the trait \<^verbatim>\<open>BlockStore\<close> is the locale \<open>block_store_contract\<close>; the cached store meets it.
\<close>

section \<open>The database and the cache\<close>

datatype stored = StoredBlock core_block | StoredText string

datatype kv_outcome = Performed | Refused | PerformedUnreported

record 'c store_env =
  se_text :: text_ops
  se_read_hash :: "string \<Rightarrow> h256 option"
  se_outcome :: "nat \<Rightarrow> kv_outcome"
  se_lru_new :: "usize \<Rightarrow> 'c"
  se_lru_get :: "string \<Rightarrow> 'c \<Rightarrow> core_block option \<times> 'c"
  se_lru_put :: "string \<Rightarrow> core_block \<Rightarrow> 'c \<Rightarrow> core_block option \<times> 'c"
  se_lru_pop :: "string \<Rightarrow> 'c \<Rightarrow> core_block option \<times> 'c"

record 'c block_store =
  st_db :: "string \<rightharpoonup> stored"
  st_cache :: 'c
  st_calls :: nat

datatype store_error = DbFailed | BadValue | ZeroCacheSize

type_synonym ('c, 'a) store_op = "'c block_store \<Rightarrow> (store_error + 'a) \<times> 'c block_store"

datatype bk_key = BlockByHash h256 | BlockByNumber u64 | BestBlock | BackSyncCheckpoint

fun bk_value :: "text_ops \<Rightarrow> bk_key \<Rightarrow> string" where
  "bk_value tx (BlockByHash block_hash) = ''block/hash/'' @ hash256_display tx block_hash"
| "bk_value tx (BlockByNumber block_height) = ''block/height/'' @ dec_of_nat (unat block_height)"
| "bk_value tx BestBlock = ''meta/best_block''"
| "bk_value tx BackSyncCheckpoint = ''meta/tmp_back_sync_checkpoint''"

definition lru_cache_new :: "'c store_env \<Rightarrow> usize \<Rightarrow> store_error + 'c" where
  "lru_cache_new env max_size = (if max_size = 0 then Inl ZeroCacheSize else Inr (se_lru_new env max_size))"

definition get_from_cache :: "'c store_env \<Rightarrow> string \<Rightarrow> ('c, core_block option) store_op" where
  "get_from_cache env key s = (case se_lru_get env key (st_cache s) of (r, c) \<Rightarrow> (Inr r, s \<lparr> st_cache := c \<rparr>))"

definition save_to_cache :: "'c store_env \<Rightarrow> string \<Rightarrow> core_block \<Rightarrow> ('c, core_block option) store_op" where
  "save_to_cache env key v s = (case se_lru_put env key v (st_cache s) of (r, c) \<Rightarrow> (Inr r, s \<lparr> st_cache := c \<rparr>))"

definition remove_from_cache :: "'c store_env \<Rightarrow> string \<Rightarrow> ('c, core_block option) store_op" where
  "remove_from_cache env key s = (case se_lru_pop env key (st_cache s) of (r, c) \<Rightarrow> (Inr r, s \<lparr> st_cache := c \<rparr>))"

definition db_write :: "'c store_env \<Rightarrow> ((string \<rightharpoonup> stored) \<Rightarrow> (string \<rightharpoonup> stored)) \<Rightarrow> ('c, unit) store_op" where
  "db_write env f s =
     (let t = s \<lparr> st_calls := Suc (st_calls s) \<rparr>
      in case se_outcome env (st_calls s) of
        Performed \<Rightarrow> (Inr (), t \<lparr> st_db := f (st_db s) \<rparr>)
      | Refused \<Rightarrow> (Inl DbFailed, t)
      | PerformedUnreported \<Rightarrow> (Inl DbFailed, t \<lparr> st_db := f (st_db s) \<rparr>))"

definition get_from_db :: "'c store_env \<Rightarrow> (stored \<Rightarrow> 'a option) \<Rightarrow> string \<Rightarrow> ('c, 'a option) store_op" where
  "get_from_db env rd key s =
     (let t = s \<lparr> st_calls := Suc (st_calls s) \<rparr>
      in if se_outcome env (st_calls s) \<noteq> Performed then (Inl DbFailed, t)
         else case st_db s key of
           None \<Rightarrow> (Inr None, t)
         | Some v \<Rightarrow> (case rd v of None \<Rightarrow> (Inl BadValue, t) | Some x \<Rightarrow> (Inr (Some x), t)))"

definition set_on_db :: "'c store_env \<Rightarrow> string \<Rightarrow> stored \<Rightarrow> ('c, unit) store_op" where
  "set_on_db env key v = db_write env (\<lambda>m. m(key \<mapsto> v))"

definition delete_from_db :: "'c store_env \<Rightarrow> string \<Rightarrow> ('c, unit) store_op" where
  "delete_from_db env key = db_write env (\<lambda>m. m(key := None))"

text \<open>Reading a block, or a hash written as text; a value of the other kind is a decoding error.\<close>

fun as_block :: "stored \<Rightarrow> core_block option" where
  "as_block (StoredBlock b) = Some b"
| "as_block (StoredText t) = None"

fun as_hash :: "(string \<Rightarrow> h256 option) \<Rightarrow> stored \<Rightarrow> h256 option" where
  "as_hash read (StoredText t) = read t"
| "as_hash read (StoredBlock b) = None"

section \<open>The cached store\<close>

definition cached_store_new :: "'c store_env \<Rightarrow> (string \<rightharpoonup> stored) \<Rightarrow> usize \<Rightarrow> store_error + 'c block_store" where
  "cached_store_new env db cache_size =
     res_bind (lru_cache_new env cache_size) (\<lambda>c. Inr \<lparr> st_db = db, st_cache = c, st_calls = 0 \<rparr>)"

definition read_through :: "'c store_env \<Rightarrow> string \<Rightarrow> ('c, core_block option) store_op" where
  "read_through env key = fbind (get_from_cache env key) (\<lambda>cached.
     case cached of
       Some b \<Rightarrow> fret (Some b)
     | None \<Rightarrow> fbind (get_from_db env as_block key) (\<lambda>db_block.
         case db_block of
           None \<Rightarrow> fret None
         | Some b \<Rightarrow> fseq (fbind (save_to_cache env key b) (\<lambda>_. fret ())) (fret (Some b))))"

definition cs_get_best_block :: "'c store_env \<Rightarrow> ('c, core_block option) store_op" where
  "cs_get_best_block env = read_through env (bk_value (se_text env) BestBlock)"

definition cs_set_best_block :: "'c store_env \<Rightarrow> core_block \<Rightarrow> ('c, unit) store_op" where
  "cs_set_best_block env b = (let key = bk_value (se_text env) BestBlock in
     fbind (save_to_cache env key b) (\<lambda>_. set_on_db env key (StoredBlock b)))"

definition cs_get_back_sync_checkpoint :: "'c store_env \<Rightarrow> ('c, core_block option) store_op" where
  "cs_get_back_sync_checkpoint env = get_from_db env as_block (bk_value (se_text env) BackSyncCheckpoint)"

definition cs_set_back_sync_checkpoint :: "'c store_env \<Rightarrow> core_block \<Rightarrow> ('c, unit) store_op" where
  "cs_set_back_sync_checkpoint env b = set_on_db env (bk_value (se_text env) BackSyncCheckpoint) (StoredBlock b)"

definition cs_reset_back_sync_checkpoint :: "'c store_env \<Rightarrow> ('c, unit) store_op" where
  "cs_reset_back_sync_checkpoint env = delete_from_db env (bk_value (se_text env) BackSyncCheckpoint)"

definition cs_get_block_by_hash :: "'c store_env \<Rightarrow> h256 \<Rightarrow> ('c, core_block option) store_op" where
  "cs_get_block_by_hash env h = read_through env (bk_value (se_text env) (BlockByHash h))"

definition cs_save_block :: "'c store_env \<Rightarrow> core_block \<Rightarrow> ('c, unit) store_op" where
  "cs_save_block env b = (let key = bk_value (se_text env) (BlockByHash (cb_hash b)) in
     fbind (save_to_cache env key b) (\<lambda>_. set_on_db env key (StoredBlock b)))"

definition cs_get_canonical_block :: "'c store_env \<Rightarrow> u64 \<Rightarrow> ('c, core_block option) store_op" where
  "cs_get_canonical_block env height = (let key = bk_value (se_text env) (BlockByNumber height) in
     fbind (get_from_cache env key) (\<lambda>cached.
     case cached of
       Some b \<Rightarrow> fret (Some b)
     | None \<Rightarrow> fbind (get_from_db env (as_hash (se_read_hash env)) key) (\<lambda>block_hash.
         case block_hash of
           None \<Rightarrow> fret None
         | Some h \<Rightarrow> fbind (cs_get_block_by_hash env h) (\<lambda>db_block.
             case db_block of
               None \<Rightarrow> fret None
             | Some b \<Rightarrow> fbind (save_to_cache env key b) (\<lambda>_. fret (Some b))))))"

definition cs_set_canonical_block :: "'c store_env \<Rightarrow> core_block \<Rightarrow> ('c, unit) store_op" where
  "cs_set_canonical_block env b = (let key = bk_value (se_text env) (BlockByNumber (cb_number b)) in
     fbind (save_to_cache env key b) (\<lambda>_. set_on_db env key (StoredText (hash256_display (se_text env) (cb_hash b)))))"

text \<open>The trait \<^verbatim>\<open>BlockStore\<close>, and the implementation of it by the cached store.\<close>

record 's block_store_ops =
  so_get_best_block :: "'s \<Rightarrow> (store_error + core_block option) \<times> 's"
  so_set_best_block :: "core_block \<Rightarrow> 's \<Rightarrow> (store_error + unit) \<times> 's"
  so_get_back_sync_checkpoint :: "'s \<Rightarrow> (store_error + core_block option) \<times> 's"
  so_set_back_sync_checkpoint :: "core_block \<Rightarrow> 's \<Rightarrow> (store_error + unit) \<times> 's"
  so_reset_back_sync_checkpoint :: "'s \<Rightarrow> (store_error + unit) \<times> 's"
  so_get_block_by_hash :: "h256 \<Rightarrow> 's \<Rightarrow> (store_error + core_block option) \<times> 's"
  so_save_block :: "core_block \<Rightarrow> 's \<Rightarrow> (store_error + unit) \<times> 's"
  so_get_canonical_block :: "u64 \<Rightarrow> 's \<Rightarrow> (store_error + core_block option) \<times> 's"
  so_set_canonical_block :: "core_block \<Rightarrow> 's \<Rightarrow> (store_error + unit) \<times> 's"

definition cached_ops :: "'c store_env \<Rightarrow> 'c block_store block_store_ops" where
  "cached_ops env = \<lparr> so_get_best_block = cs_get_best_block env, so_set_best_block = cs_set_best_block env,
     so_get_back_sync_checkpoint = cs_get_back_sync_checkpoint env, so_set_back_sync_checkpoint = cs_set_back_sync_checkpoint env,
     so_reset_back_sync_checkpoint = cs_reset_back_sync_checkpoint env, so_get_block_by_hash = cs_get_block_by_hash env,
     so_save_block = cs_save_block env, so_get_canonical_block = cs_get_canonical_block env,
     so_set_canonical_block = cs_set_canonical_block env \<rparr>"

section \<open>The contract of the trait\<close>

record store_view =
  sv_best :: "core_block option"
  sv_checkpoint :: "core_block option"
  sv_canon :: "u64 \<Rightarrow> h256 option"
  sv_known :: "h256 set"

text \<open>
  What a store promises to its client: as long as its calls succeed, it behaves like the plain maps
  of its view. Lookups give blocks of the right hash. Only a store that may fail gives errors.
\<close>

locale block_store_contract =
  fixes ops :: "'s block_store_ops" and good :: "'s \<Rightarrow> bool" and view :: "'s \<Rightarrow> store_view" and may_fail :: "'s \<Rightarrow> bool"
  assumes get_best: "good s \<Longrightarrow> wp (so_get_best_block ops) (\<lambda>r t. r = sv_best (view s) \<and> good t \<and> view t = view s) (\<lambda>_. may_fail) s"
    and set_best: "good s \<Longrightarrow> wp (so_set_best_block ops b) (\<lambda>_ t. good t \<and> view t = view s \<lparr> sv_best := Some b \<rparr>) (\<lambda>_. may_fail) s"
    and get_checkpoint: "good s \<Longrightarrow>
      wp (so_get_back_sync_checkpoint ops) (\<lambda>r t. r = sv_checkpoint (view s) \<and> good t \<and> view t = view s) (\<lambda>_. may_fail) s"
    and set_checkpoint: "good s \<Longrightarrow>
      wp (so_set_back_sync_checkpoint ops b) (\<lambda>_ t. good t \<and> view t = view s \<lparr> sv_checkpoint := Some b \<rparr>) (\<lambda>_. may_fail) s"
    and reset_checkpoint: "good s \<Longrightarrow>
      wp (so_reset_back_sync_checkpoint ops) (\<lambda>_ t. good t \<and> view t = view s \<lparr> sv_checkpoint := None \<rparr>) (\<lambda>_. may_fail) s"
    and get_by_hash: "good s \<Longrightarrow> wp (so_get_block_by_hash ops h)
      (\<lambda>r t. (r = None \<longleftrightarrow> h \<notin> sv_known (view s)) \<and> (\<forall>b. r = Some b \<longrightarrow> cb_hash b = h) \<and> good t \<and> view t = view s) (\<lambda>_. may_fail) s"
    and save_block: "good s \<Longrightarrow>
      wp (so_save_block ops b) (\<lambda>_ t. good t \<and> view t = view s \<lparr> sv_known := insert (cb_hash b) (sv_known (view s)) \<rparr>) (\<lambda>_. may_fail) s"
    and get_canonical: "good s \<Longrightarrow> wp (so_get_canonical_block ops n)
      (\<lambda>r t. map_option cb_hash r = sv_canon (view s) n \<and> good t \<and> view t = view s) (\<lambda>_. may_fail) s"
    and set_canonical: "good s \<Longrightarrow> cb_hash b \<in> sv_known (view s) \<Longrightarrow> wp (so_set_canonical_block ops b)
      (\<lambda>_ t. good t \<and> view t = view s \<lparr> sv_canon := (sv_canon (view s))(cb_number b \<mapsto> cb_hash b) \<rparr>) (\<lambda>_. may_fail) s"

section \<open>The keys\<close>

lemma dec_of_nat_inj: "dec_of_nat n = dec_of_nat m \<longleftrightarrow> n = m"
  by (metis dec_round_trip option.inject)

lemma bk_value_inj:
  assumes "hex_codec tx"
  shows "bk_value tx k = bk_value tx k' \<longleftrightarrow> k = k'"
proof -
  have "hash256_display tx h = hash256_display tx h' \<longleftrightarrow> h = h'" for h h'
    by (metis hex_codec.hash256_round_trip [OF assms] sum.inject(2))
  then show ?thesis by (cases k; cases k') (auto simp: dec_of_nat_inj word_unat_eq_iff)
qed

declare bk_value.simps [simp del]

section \<open>The cache agrees with the database\<close>

definition lru_ok :: "'c store_env \<Rightarrow> ('c \<Rightarrow> string \<rightharpoonup> core_block) \<Rightarrow> bool" where
  "lru_ok env content \<longleftrightarrow>
     (\<forall>k c. fst (se_lru_get env k c) = content c k \<and> content (snd (se_lru_get env k c)) \<subseteq>\<^sub>m content c) \<and>
     (\<forall>k v c. content (snd (se_lru_put env k v c)) \<subseteq>\<^sub>m (content c)(k \<mapsto> v)) \<and>
     (\<forall>k c. content (snd (se_lru_pop env k c)) \<subseteq>\<^sub>m (content c)(k := None)) \<and>
     (\<forall>n. n \<noteq> 0 \<longrightarrow> content (se_lru_new env n) = Map.empty)"

definition env_ok :: "'c store_env \<Rightarrow> ('c \<Rightarrow> string \<rightharpoonup> core_block) \<Rightarrow> bool" where
  "env_ok env content \<longleftrightarrow> hex_codec (se_text env) \<and> lru_ok env content \<and>
     (\<forall>h. se_read_hash env (hash256_display (se_text env) h) = Some h)"

abbreviation bkey :: "'c store_env \<Rightarrow> bk_key \<Rightarrow> string" where
  "bkey env k \<equiv> bk_value (se_text env) k"

fun value_ok :: "'c store_env \<Rightarrow> (string \<rightharpoonup> stored) \<Rightarrow> bk_key \<Rightarrow> stored \<Rightarrow> bool" where
  "value_ok env db (BlockByHash h) v \<longleftrightarrow> (\<exists>b. v = StoredBlock b \<and> cb_hash b = h)"
| "value_ok env db (BlockByNumber n) v \<longleftrightarrow>
     (\<exists>h. v = StoredText (hash256_display (se_text env) h) \<and> db (bkey env (BlockByHash h)) \<noteq> None)"
| "value_ok env db k v \<longleftrightarrow> (\<exists>b. v = StoredBlock b)"

definition db_ok :: "'c store_env \<Rightarrow> (string \<rightharpoonup> stored) \<Rightarrow> bool" where
  "db_ok env db \<longleftrightarrow> (\<forall>k v. db (bkey env k) = Some v \<longrightarrow> value_ok env db k v)"

fun copy_of :: "'c store_env \<Rightarrow> bk_key \<Rightarrow> stored \<Rightarrow> core_block \<Rightarrow> bool" where
  "copy_of env (BlockByHash h) v b \<longleftrightarrow> cb_hash b = h"
| "copy_of env (BlockByNumber n) v b \<longleftrightarrow> v = StoredText (hash256_display (se_text env) (cb_hash b))"
| "copy_of env BestBlock v b \<longleftrightarrow> v = StoredBlock b"
| "copy_of env BackSyncCheckpoint v b \<longleftrightarrow> False"

definition db_reliable :: "'c store_env \<Rightarrow> bool" where
  "db_reliable env \<longleftrightarrow> (\<forall>n. se_outcome env n = Performed)"

definition cached_from :: "'c store_env \<Rightarrow> (string \<rightharpoonup> stored) \<Rightarrow> string \<Rightarrow> core_block \<Rightarrow> bool" where
  "cached_from env db key b \<longleftrightarrow> (\<exists>k v. key = bkey env k \<and> db key = Some v \<and> copy_of env k v b)"

definition coherent :: "'c store_env \<Rightarrow> ('c \<Rightarrow> string \<rightharpoonup> core_block) \<Rightarrow> 'c block_store \<Rightarrow> bool" where
  "coherent env content s \<longleftrightarrow> env_ok env content \<and> db_ok env (st_db s) \<and>
     (\<forall>key b. content (st_cache s) key = Some b \<longrightarrow> cached_from env (st_db s) key b)"

fun db_view :: "'c store_env \<Rightarrow> (string \<rightharpoonup> stored) \<Rightarrow> store_view" where
  "db_view env db = \<lparr> sv_best = Option.bind (db (bkey env BestBlock)) as_block,
     sv_checkpoint = Option.bind (db (bkey env BackSyncCheckpoint)) as_block,
     sv_canon = (\<lambda>n. Option.bind (db (bkey env (BlockByNumber n))) (as_hash (se_read_hash env))),
     sv_known = {h. db (bkey env (BlockByHash h)) \<noteq> None} \<rparr>"

lemma db_reliable_outcome: "db_reliable env \<Longrightarrow> se_outcome env n = Performed"
  by (simp add: db_reliable_def)

lemma map_le_Some: "m \<subseteq>\<^sub>m n \<Longrightarrow> m k = Some v \<Longrightarrow> n k = Some v"
  unfolding map_le_def by (metis domI)

lemma cached_from_key:
  "hex_codec (se_text env) \<Longrightarrow> cached_from env db (bkey env k) b \<longleftrightarrow> (\<exists>v. db (bkey env k) = Some v \<and> copy_of env k v b)"
  by (auto simp: cached_from_def bk_value_inj)

lemma coherent_calls [simp]: "coherent env content (s \<lparr> st_calls := n \<rparr>) \<longleftrightarrow> coherent env content s"
  by (simp add: coherent_def)

lemma wp_get_from_cache:
  assumes "coherent env content s"
  shows "wp (get_from_cache env key) (\<lambda>r t. coherent env content t \<and> st_db t = st_db s \<and>
     (\<forall>b. r = Some b \<longrightarrow> cached_from env (st_db s) key b)) E s"
proof -
  have get: "fst (se_lru_get env key (st_cache s)) = content (st_cache s) key"
    "content (snd (se_lru_get env key (st_cache s))) \<subseteq>\<^sub>m content (st_cache s)"
    using assms by (simp_all add: coherent_def env_ok_def lru_ok_def)
  with assms show ?thesis
    by (auto simp: wp_def get_from_cache_def coherent_def split: prod.splits dest: map_le_Some)
qed

lemma wp_save_to_cache:
  assumes "coherent env content s" and "cached_from env (st_db s) key b"
  shows "wp (save_to_cache env key b) (\<lambda>_ t. coherent env content t \<and> st_db t = st_db s) E s"
proof -
  have put: "content (snd (se_lru_put env key b (st_cache s))) \<subseteq>\<^sub>m (content (st_cache s))(key \<mapsto> b)"
    using assms by (simp add: coherent_def env_ok_def lru_ok_def)
  have "cached_from env (st_db s) k v" if "content (snd (se_lru_put env key b (st_cache s))) k = Some v" for k v
    using map_le_Some [OF put that] assms by (auto simp: coherent_def split: if_splits)
  with assms(1) show ?thesis by (auto simp: wp_def save_to_cache_def coherent_def split: prod.splits)
qed

lemma wp_get_from_db:
  "coherent env content s \<Longrightarrow> (\<And>v. st_db s key = Some v \<Longrightarrow> rd v \<noteq> None) \<Longrightarrow> wp (get_from_db env rd key)
     (\<lambda>r t. coherent env content t \<and> st_db t = st_db s \<and> r = Option.bind (st_db s key) rd) (\<lambda>_ _. \<not> db_reliable env) s"
  by (auto simp: wp_def get_from_db_def Let_def db_reliable_outcome split: option.splits sum.splits)

lemma wp_db_write:
  "coherent env content s \<Longrightarrow> db_ok env (f (st_db s)) \<Longrightarrow>
     (\<And>key b. cached_from env (st_db s) key b \<Longrightarrow> cached_from env (f (st_db s)) key b) \<Longrightarrow>
     wp (db_write env f) (\<lambda>_ t. coherent env content t \<and> st_db t = f (st_db s)) (\<lambda>_ _. \<not> db_reliable env) s"
  by (auto simp: wp_def db_write_def Let_def coherent_def db_reliable_outcome split: kv_outcome.splits)

lemma wp_cache_then_db:
  assumes "coherent env content s" and "db_ok env ((st_db s)(key \<mapsto> v))" and "cached_from env ((st_db s)(key \<mapsto> v)) key b"
  shows "wp (fbind (save_to_cache env key b) (\<lambda>_. set_on_db env key v))
     (\<lambda>_ t. coherent env content t \<and> st_db t = (st_db s)(key \<mapsto> v)) (\<lambda>_ _. \<not> db_reliable env) s"
proof -
  have put: "content (snd (se_lru_put env key b (st_cache s))) \<subseteq>\<^sub>m (content (st_cache s))(key \<mapsto> b)"
    using assms by (simp add: coherent_def env_ok_def lru_ok_def)
  have "cached_from env ((st_db s)(key \<mapsto> v)) k x" if "content (snd (se_lru_put env key b (st_cache s))) k = Some x" for k x
  proof (cases "k = key")
    case True
    then show ?thesis using map_le_Some [OF put that] assms(3) by simp
  next
    case False
    then have "content (st_cache s) k = Some x" using map_le_Some [OF put that] by simp
    then show ?thesis using False assms(1) by (auto simp: coherent_def cached_from_def)
  qed
  with assms show ?thesis
    by (auto simp: wp_def fbind_def save_to_cache_def set_on_db_def db_write_def Let_def coherent_def db_reliable_outcome
        split: prod.splits kv_outcome.splits)
qed

lemma db_okD: "coherent env content s \<Longrightarrow> st_db s (bkey env k) = Some v \<Longrightarrow> value_ok env (st_db s) k v"
  by (simp add: coherent_def db_ok_def)

lemma coherent_hex: "coherent env content s \<Longrightarrow> hex_codec (se_text env)"
  by (simp add: coherent_def env_ok_def)

lemma wp_read_through:
  assumes s: "coherent env content s" and k: "k = BestBlock \<or> k = BlockByHash h"
  shows "wp (read_through env (bkey env k)) (\<lambda>r t. coherent env content t \<and> st_db t = st_db s \<and>
     (case st_db s (bkey env k) of None \<Rightarrow> r = None | Some v \<Rightarrow> \<exists>b. r = Some b \<and> copy_of env k v b)) (\<lambda>_ _. \<not> db_reliable env) s"
    (is "wp _ ?Q ?E s")
proof -
  have hex: "hex_codec (se_text env)" using s by (rule coherent_hex)
  have found: "\<exists>b. v = StoredBlock b \<and> copy_of env k v b" if "st_db s (bkey env k) = Some v" for v
    using db_okD [OF s that] k by auto
  have fill: "wp (save_to_cache env (bkey env k) b) (\<lambda>_. ?Q (Some b)) ?E t"
    if t: "coherent env content t" "st_db t = st_db s" "st_db s (bkey env k) = Some (StoredBlock b)" for t b
  proof -
    have "copy_of env k (StoredBlock b) b" using found [OF t(3)] by auto
    then have "cached_from env (st_db t) (bkey env k) b" using t by (auto simp: cached_from_key [OF hex])
    from wp_save_to_cache [OF t(1) this, of ?E] show ?thesis
      by (rule wp_mono) (use t \<open>copy_of env k (StoredBlock b) b\<close> in auto)
  qed
  have miss: "wp (get_from_db env as_block (bkey env k)) (\<lambda>db_block. wp (case db_block of None \<Rightarrow> fret None
      | Some b \<Rightarrow> fseq (fbind (save_to_cache env (bkey env k) b) (\<lambda>_. fret ())) (fret (Some b))) ?Q ?E) ?E t"
    if t: "coherent env content t" "st_db t = st_db s" for t
  proof (rule wp_mono [OF wp_get_from_db [OF t(1)]])
    fix r t'
    assume r: "coherent env content t' \<and> st_db t' = st_db t \<and> r = Option.bind (st_db t (bkey env k)) as_block"
    show "wp (case r of None \<Rightarrow> fret None
      | Some b \<Rightarrow> fseq (fbind (save_to_cache env (bkey env k) b) (\<lambda>_. fret ())) (fret (Some b))) ?Q ?E t'"
    proof (cases "st_db s (bkey env k)")
      case None
      with r t show ?thesis by (simp add: wp_simps)
    next
      case (Some v)
      then obtain b where b: "v = StoredBlock b" using found by blast
      then have "r = Some b" using r t Some by simp
      with fill [of t' b] r t Some b show ?thesis by (simp add: wp_simps)
    qed
  qed (use t found in auto)
  show ?thesis
    unfolding read_through_def wp_bind
    by (rule wp_mono [OF wp_get_from_cache [OF s]])
      (use miss in \<open>auto simp: wp_simps cached_from_key [OF hex] split: option.splits\<close>)
qed

lemma wp_cs_get_best: "coherent env content s \<Longrightarrow> wp (cs_get_best_block env)
     (\<lambda>r t. r = sv_best (db_view env (st_db s)) \<and> coherent env content t \<and> db_view env (st_db t) = db_view env (st_db s)) (\<lambda>_ _. \<not> db_reliable env) s"
  unfolding cs_get_best_block_def
  by (rule wp_mono [OF wp_read_through]) (auto split: option.splits)

lemma wp_cs_get_by_hash: "coherent env content s \<Longrightarrow> wp (cs_get_block_by_hash env h)
     (\<lambda>r t. (r = None \<longleftrightarrow> st_db s (bkey env (BlockByHash h)) = None) \<and> (\<forall>b. r = Some b \<longrightarrow> cb_hash b = h) \<and>
        coherent env content t \<and> st_db t = st_db s) (\<lambda>_ _. \<not> db_reliable env) s"
  unfolding cs_get_block_by_hash_def
  by (rule wp_mono [OF wp_read_through]) (auto split: option.splits)

lemma wp_cs_get_canonical:
  assumes s: "coherent env content s"
  shows "wp (cs_get_canonical_block env n) (\<lambda>r t. map_option cb_hash r = sv_canon (db_view env (st_db s)) n \<and>
     coherent env content t \<and> st_db t = st_db s) (\<lambda>_ _. \<not> db_reliable env) s" (is "wp _ ?Q ?E s")
proof -
  let ?k = "bkey env (BlockByNumber n)"
  have hex: "hex_codec (se_text env)" and reads: "se_read_hash env (hash256_display (se_text env) h) = Some h" for h
    using s by (simp_all add: coherent_def env_ok_def)
  have fill: "wp (fbind (cs_get_block_by_hash env h) (\<lambda>db_block. case db_block of None \<Rightarrow> fret None
      | Some b \<Rightarrow> fbind (save_to_cache env ?k b) (\<lambda>_. fret (Some b)))) ?Q ?E t"
    if t: "coherent env content t" "st_db t = st_db s" and v: "st_db s ?k = Some (StoredText (hash256_display (se_text env) h))" for t h
  proof -
    have known: "st_db s (bkey env (BlockByHash h)) \<noteq> None"
      using db_okD [OF s v] hex by (auto dest: arg_cong [where f = "se_read_hash env"] simp: reads)
    have "wp (save_to_cache env ?k b) (\<lambda>_. ?Q (Some b)) ?E u"
      if u: "coherent env content u" "st_db u = st_db s" "cb_hash b = h" for u b
    proof -
      have "cached_from env (st_db u) ?k b" using u v by (simp add: cached_from_key [OF hex])
      from wp_save_to_cache [OF u(1) this, of ?E] show ?thesis by (rule wp_mono) (use u v reads in auto)
    qed
    then show ?thesis
      unfolding wp_bind
      by (intro wp_mono [OF wp_cs_get_by_hash [OF t(1)]]) (use known t in \<open>auto simp: wp_simps split: option.splits\<close>)
  qed
  have miss: "wp (get_from_db env (as_hash (se_read_hash env)) ?k) (\<lambda>block_hash. wp (case block_hash of None \<Rightarrow> fret None
      | Some h \<Rightarrow> fbind (cs_get_block_by_hash env h) (\<lambda>db_block. case db_block of None \<Rightarrow> fret None
          | Some b \<Rightarrow> fbind (save_to_cache env ?k b) (\<lambda>_. fret (Some b)))) ?Q ?E) ?E t"
    if t: "coherent env content t" "st_db t = st_db s" for t
  proof (rule wp_mono [OF wp_get_from_db [OF t(1)]])
    fix r u
    assume r: "coherent env content u \<and> st_db u = st_db t \<and> r = Option.bind (st_db t ?k) (as_hash (se_read_hash env))"
    show "wp (case r of None \<Rightarrow> fret None | Some h \<Rightarrow> fbind (cs_get_block_by_hash env h) (\<lambda>db_block. case db_block of None \<Rightarrow> fret None
          | Some b \<Rightarrow> fbind (save_to_cache env ?k b) (\<lambda>_. fret (Some b)))) ?Q ?E u"
    proof (cases "st_db s ?k")
      case None
      with r t show ?thesis by (simp add: wp_simps)
    next
      case (Some v)
      then obtain h where h: "v = StoredText (hash256_display (se_text env) h)" using db_okD [OF s Some] by auto
      then have "r = Some h" using r t Some reads by simp
      with fill [of u h] r t Some h show ?thesis by (simp add: reads)
    qed
  qed (use t db_okD [OF s, of "BlockByNumber n"] reads in auto)
  show ?thesis
    unfolding cs_get_canonical_block_def Let_def wp_bind
    by (rule wp_mono [OF wp_get_from_cache [OF s]])
      (use miss reads in \<open>auto simp: wp_simps cached_from_key [OF hex] split: option.splits\<close>)
qed

lemma db_ok_set:
  assumes "hex_codec (se_text env)" and "db_ok env db" and "value_ok env (db(bkey env k \<mapsto> v)) k v"
  shows "db_ok env (db(bkey env k \<mapsto> v))"
proof -
  have "value_ok env (db(bkey env k \<mapsto> v)) j w" if "value_ok env db j w" for j w
    using that by (cases j) auto
  with assms show ?thesis by (auto simp: db_ok_def bk_value_inj)
qed

lemma wp_cs_set:
  assumes s: "coherent env content s" and v: "value_ok env ((st_db s)(bkey env k \<mapsto> v)) k v" and "copy_of env k v b"
  shows "wp (fbind (save_to_cache env (bkey env k) b) (\<lambda>_. set_on_db env (bkey env k) v))
     (\<lambda>_ t. coherent env content t \<and> st_db t = (st_db s)(bkey env k \<mapsto> v)) (\<lambda>_ _. \<not> db_reliable env) s"
  using assms coherent_hex [OF s] by (intro wp_cache_then_db db_ok_set) (auto simp: coherent_def cached_from_key)

text \<open>The checkpoint is never cached.\<close>

lemma wp_cs_checkpoint:
  assumes s: "coherent env content s" and ok: "\<And>v. f (st_db s) (bkey env BackSyncCheckpoint) = Some v \<Longrightarrow> \<exists>b. v = StoredBlock b"
    and f: "\<And>key. key \<noteq> bkey env BackSyncCheckpoint \<Longrightarrow> f (st_db s) key = st_db s key"
  shows "wp (db_write env f) (\<lambda>_ t. coherent env content t \<and> st_db t = f (st_db s)) (\<lambda>_ _. \<not> db_reliable env) s"
proof -
  have other: "f (st_db s) (bkey env k) = st_db s (bkey env k)" if "k \<noteq> BackSyncCheckpoint" for k
    using that f coherent_hex [OF s] by (simp add: bk_value_inj)
  have "value_ok env (f (st_db s)) k v" if "f (st_db s) (bkey env k) = Some v" for k v
    using that other [of k] ok db_okD [OF s, of k v] by (cases k) (auto simp: other)
  then have "db_ok env (f (st_db s))" by (simp add: db_ok_def)
  moreover have "cached_from env (f (st_db s)) key b" if c: "cached_from env (st_db s) key b" for key b
  proof -
    obtain k v where k: "key = bkey env k" "st_db s key = Some v" "copy_of env k v b"
      using c by (auto simp: cached_from_def)
    then have "k \<noteq> BackSyncCheckpoint" by auto
    with k other show ?thesis by (auto simp: cached_from_def)
  qed
  ultimately show ?thesis by (rule wp_db_write [OF s])
qed

lemma view_set:
  assumes "hex_codec (se_text env)" and "\<And>h. se_read_hash env (hash256_display (se_text env) h) = Some h"
  shows "db_view env (db(bkey env BestBlock \<mapsto> StoredBlock b)) = db_view env db \<lparr> sv_best := Some b \<rparr>"
    and "db_view env (db(bkey env BackSyncCheckpoint \<mapsto> StoredBlock b)) = db_view env db \<lparr> sv_checkpoint := Some b \<rparr>"
    and "db_view env (db(bkey env BackSyncCheckpoint := None)) = db_view env db \<lparr> sv_checkpoint := None \<rparr>"
    and "db_view env (db(bkey env (BlockByHash h) \<mapsto> v)) = db_view env db \<lparr> sv_known := insert h (sv_known (db_view env db)) \<rparr>"
    and "db_view env (db(bkey env (BlockByNumber n) \<mapsto> StoredText (hash256_display (se_text env) h))) =
       db_view env db \<lparr> sv_canon := (sv_canon (db_view env db))(n \<mapsto> h) \<rparr>"
  using assms by (auto simp: bk_value_inj fun_eq_iff)

lemma coherent_read: "coherent env content s \<Longrightarrow> se_read_hash env (hash256_display (se_text env) h) = Some h"
  by (simp add: coherent_def env_ok_def)

interpretation cached: block_store_contract "cached_ops env" "coherent env content" "\<lambda>s. db_view env (st_db s)" "\<lambda>_. \<not> db_reliable env" for env content
proof (unfold_locales, goal_cases)
  case (1 s)
  then show ?case by (simp add: cached_ops_def wp_cs_get_best del: db_view.simps)
next
  case (2 s b)
  from wp_cs_set [OF 2, where k = BestBlock and v = "StoredBlock b" and b = b] show ?case
    by (auto simp: cached_ops_def cs_set_best_block_def Let_def view_set coherent_hex [OF 2] coherent_read [OF 2] simp del: db_view.simps elim!: wp_mono)
next
  case (3 s)
  show ?case
    unfolding cached_ops_def cs_get_back_sync_checkpoint_def block_store_ops.simps
    by (rule wp_mono [OF wp_get_from_db [OF 3]]) (use db_okD [OF 3, of BackSyncCheckpoint] in auto)
next
  case (4 s b)
  show ?case
    unfolding cached_ops_def cs_set_back_sync_checkpoint_def set_on_db_def
    by (auto simp: view_set coherent_hex [OF 4] coherent_read [OF 4] simp del: db_view.simps intro!: wp_mono [OF wp_cs_checkpoint [OF 4]])
next
  case (5 s)
  show ?case
    unfolding cached_ops_def cs_reset_back_sync_checkpoint_def delete_from_db_def
    by (auto simp: view_set coherent_hex [OF 5] coherent_read [OF 5] simp del: db_view.simps intro!: wp_mono [OF wp_cs_checkpoint [OF 5]])
next
  case (6 s h)
  show ?case unfolding cached_ops_def by (auto intro!: wp_mono [OF wp_cs_get_by_hash [OF 6]])
next
  case (7 s b)
  from wp_cs_set [OF 7, where k = "BlockByHash (cb_hash b)" and v = "StoredBlock b" and b = b] show ?case
    by (auto simp: cached_ops_def cs_save_block_def Let_def view_set coherent_hex [OF 7] coherent_read [OF 7] simp del: db_view.simps elim!: wp_mono)
next
  case (8 s n)
  show ?case unfolding cached_ops_def by (auto intro!: wp_mono [OF wp_cs_get_canonical [OF 8]])
next
  case (9 s b)
  let ?k = "BlockByNumber (cb_number b)" and ?v = "StoredText (hash256_display (se_text env) (cb_hash b))"
  have "value_ok env ((st_db s)(bkey env ?k \<mapsto> ?v)) ?k ?v"
    using 9(2) by (auto simp: bk_value_inj coherent_hex [OF 9(1)])
  from wp_cs_set [OF 9(1) this, where b = b] show ?case
    by (auto simp: cached_ops_def cs_set_canonical_block_def Let_def view_set coherent_hex [OF 9(1)] coherent_read [OF 9(1)]
        simp del: db_view.simps elim!: wp_mono)
qed

declare db_view.simps [simp del]

end
