(* ===== verification/Block_Indexer.thy ===== *)
theory Block_Indexer
  imports Block_Store
begin

text \<open>
  The block indexer (\<^verbatim>\<open>crates/block-indexer/src/indexer.rs\<close>): it follows the best chain of a
  Rootstock node, keeps it in the store and hands every new block to the notifier. The node and the
  process are parameters whose answers may depend on everything that happened before. Loops that
  wait for the node carry fuel; running out of it is an error of its own.
\<close>

section \<open>State and world\<close>

datatype ix_action =
    CheckedRunning | AskedByHash h256 | AskedByNumber u64 | AskedUncle h256 u64 | AskedBest
  | SubscribedBlocks bool | AskedNext | UnsubscribedBlocks bool | SentBlock block_and_uncles bool

type_synonym ix_trace = "ix_action list"

datatype subscription_error = ClosedConnection | Lagged u64 | Transient | Unexpected

datatype ix_error =
    IxStore store_error | IxProvider | IxNoBestBlock | IxInitialBlockPanic | IxSubscribe | IxUnsubscribe
  | IxProviderClosed | IxUnknownSubscription | IxCouldNotCatchUp | IxMissingInitialHash | IxInvalidInitialHash
  | IxInitialBlockNotFound | IxOutOfFuel

datatype indexer_start_from = StartHash | StartBest

record indexer_config =
  ic_start_from :: indexer_start_from
  ic_initial_block_hash :: "string option"

record 's indexer_env =
  ie_store :: "'s block_store_ops"
  ie_start_from :: indexer_start_from
  ie_initial_block_hash :: h256
  ie_has_sender :: bool
  ie_fuel :: nat
  ie_running :: "ix_trace \<Rightarrow> bool"
  ie_get_block_by_hash :: "ix_trace \<Rightarrow> h256 \<Rightarrow> unit + core_block option"
  ie_get_block_by_number :: "ix_trace \<Rightarrow> u64 \<Rightarrow> unit + core_block option"
  ie_get_uncle :: "ix_trace \<Rightarrow> h256 \<Rightarrow> u64 \<Rightarrow> unit + core_block option"
  ie_get_best_block :: "ix_trace \<Rightarrow> unit + core_block"
  ie_subscribe :: "ix_trace \<Rightarrow> bool"
  ie_next :: "ix_trace \<Rightarrow> subscription_error + core_block"
  ie_unsubscribe :: "ix_trace \<Rightarrow> bool"
  ie_send :: "ix_trace \<Rightarrow> block_and_uncles \<Rightarrow> bool"

record 's indexer =
  ix_store :: 's
  ix_trace :: ix_trace

type_synonym ('s, 'a) ix_op = "'s indexer \<Rightarrow> (ix_error + 'a) \<times> 's indexer"

definition ix_ask :: "(ix_trace \<Rightarrow> 'r) \<Rightarrow> ('r \<Rightarrow> ix_action) \<Rightarrow> ('s, 'r) ix_op" where
  "ix_ask answer act x = (let r = answer (ix_trace x) in (Inr r, x \<lparr> ix_trace := ix_trace x @ [act r] \<rparr>))"

definition ix_provider :: "(ix_trace \<Rightarrow> unit + 'a) \<Rightarrow> ix_action \<Rightarrow> ('s, 'a) ix_op" where
  "ix_provider answer act = fbind (ix_ask answer (\<lambda>_. act)) (\<lambda>r. case r of Inl _ \<Rightarrow> ffail IxProvider | Inr v \<Rightarrow> fret v)"

definition on_store :: "('s \<Rightarrow> (store_error + 'a) \<times> 's) \<Rightarrow> ('s, 'a) ix_op" where
  "on_store m x = (case m (ix_store x) of
     (Inl e, s) \<Rightarrow> (Inl (IxStore e), x \<lparr> ix_store := s \<rparr>)
   | (Inr v, s) \<Rightarrow> (Inr v, x \<lparr> ix_store := s \<rparr>))"

definition is_running :: "'s indexer_env \<Rightarrow> ('s, bool) ix_op" where
  "is_running env = ix_ask (ie_running env) (\<lambda>_. CheckedRunning)"

section \<open>Start\<close>

text \<open>\<^verbatim>\<open>resolve_initial_block\<close>; the parsed hash is the result of \<^verbatim>\<open>BlockHash::try_from\<close>.\<close>

definition resolve_initial_block ::
  "text_ops \<Rightarrow> indexer_config \<Rightarrow> (h256 \<Rightarrow> unit + core_block option) \<Rightarrow> (unit + core_block) \<Rightarrow> ix_error + core_block" where
  "resolve_initial_block tx config by_hash best =
     (case ic_start_from config of
        StartHash \<Rightarrow>
          res_bind (ok_or (ic_initial_block_hash config) IxMissingInitialHash) (\<lambda>text.
          case hash256_try_from tx text of
            Inl _ \<Rightarrow> Inl IxInvalidInitialHash
          | Inr h \<Rightarrow> (case by_hash h of
              Inl _ \<Rightarrow> Inl IxProvider
            | Inr None \<Rightarrow> Inl IxInitialBlockNotFound
            | Inr (Some b) \<Rightarrow> Inr b))
      | StartBest \<Rightarrow> (case best of Inl _ \<Rightarrow> Inl IxProvider | Inr b \<Rightarrow> Inr b))"

definition get_initial_block :: "'s indexer_env \<Rightarrow> ('s, core_block) ix_op" where
  "get_initial_block env = fbind (ix_ask (\<lambda>t. ie_get_block_by_hash env t (ie_initial_block_hash env))
       (\<lambda>_. AskedByHash (ie_initial_block_hash env)))
     (\<lambda>r. case r of Inr (Some b) \<Rightarrow> fret b | _ \<Rightarrow> ffail IxInitialBlockPanic)"

text \<open>
  \<^verbatim>\<open>new\<close> and \<^verbatim>\<open>new_with_notifier\<close>: the world passed in has the store, the provider and the shutdown
  flag of the new indexer.
\<close>

definition new_indexer :: "text_ops \<Rightarrow> bool \<Rightarrow> indexer_config \<Rightarrow> 's indexer_env \<Rightarrow> ix_error + 's indexer_env" where
  "new_indexer tx has_sender config world =
     res_bind (resolve_initial_block tx config (ie_get_block_by_hash world []) (ie_get_best_block world [])) (\<lambda>initial_block.
       Inr (world \<lparr> ie_has_sender := has_sender, ie_start_from := ic_start_from config,
         ie_initial_block_hash := cb_hash initial_block \<rparr>))"

section \<open>Saving and notifying\<close>

definition save_as_canonical :: "'s indexer_env \<Rightarrow> core_block \<Rightarrow> ('s, unit) ix_op" where
  "save_as_canonical env b = fseq (on_store (so_save_block (ie_store env) b)) (on_store (so_set_canonical_block (ie_store env) b))"

definition save_as_best_block :: "'s indexer_env \<Rightarrow> core_block \<Rightarrow> ('s, unit) ix_op" where
  "save_as_best_block env b = fseq (save_as_canonical env b) (on_store (so_set_best_block (ie_store env) b))"

definition notify_block :: "'s indexer_env \<Rightarrow> core_block \<times> core_block list \<Rightarrow> ('s, unit) ix_op" where
  "notify_block env n = (let m = \<lparr> bu_block = fst n, bu_uncles = snd n \<rparr> in
     if ie_has_sender env then fbind (ix_ask (\<lambda>t. ie_send env t m) (SentBlock m)) (\<lambda>_. fret ()) else fret ())"

fun process_uncles_from :: "'s indexer_env \<Rightarrow> core_block \<Rightarrow> nat list \<Rightarrow> core_block list \<Rightarrow> ('s, core_block list) ix_op" where
  "process_uncles_from env new_block [] acc = fret acc"
| "process_uncles_from env new_block (i # rest) acc =
     fbind (ix_provider (\<lambda>t. ie_get_uncle env t (cb_hash new_block) (word_of_nat i)) (AskedUncle (cb_hash new_block) (word_of_nat i)))
       (\<lambda>r. case r of
          None \<Rightarrow> process_uncles_from env new_block rest acc
        | Some uncle \<Rightarrow>
            if cb_hash uncle \<in> set (cb_uncles new_block)
            then fseq (on_store (so_save_block (ie_store env) uncle)) (process_uncles_from env new_block rest (acc @ [uncle]))
            else process_uncles_from env new_block rest acc)"

definition process_uncle_blocks :: "'s indexer_env \<Rightarrow> core_block \<Rightarrow> ('s, core_block list) ix_op" where
  "process_uncle_blocks env new_block = process_uncles_from env new_block [0..<length (cb_uncles new_block)] []"

section \<open>Backward synchronisation\<close>

definition get_next_backward_sync_block :: "'s indexer_env \<Rightarrow> u64 \<Rightarrow> ('s, core_block) ix_op" where
  "get_next_backward_sync_block env n = fbind (ix_provider (\<lambda>t. ie_get_block_by_number env t n) (AskedByNumber n)) (\<lambda>r.
     case r of Some b \<Rightarrow> fret b | None \<Rightarrow> ix_provider (ie_get_best_block env) AskedBest)"

text \<open>The end of an iteration: stop with a checkpoint, give up at the first block, or go one block down.\<close>

definition keep_searching :: "'s indexer_env \<Rightarrow> core_block \<Rightarrow> (core_block \<Rightarrow> ('s, unit) ix_op) \<Rightarrow> ('s, unit) ix_op" where
  "keep_searching env new_block continue = fbind (is_running env) (\<lambda>running.
     if \<not> running then on_store (so_set_back_sync_checkpoint (ie_store env) new_block)
     else if ie_initial_block_hash env = cb_hash new_block \<or> cb_number new_block = 0 then fret ()
     else fbind (get_next_backward_sync_block env (cb_number new_block - 1)) continue)"

primrec backward_sync_loop ::
  "nat \<Rightarrow> 's indexer_env \<Rightarrow> core_block \<Rightarrow> core_block \<Rightarrow> (core_block \<times> core_block list) list \<Rightarrow> core_block \<Rightarrow> ('s, unit) ix_op" where
  "backward_sync_loop 0 env starting_block store_best_block blocks_to_notify new_block = ffail IxOutOfFuel"
| "backward_sync_loop (Suc n) env starting_block store_best_block blocks_to_notify new_block =
     fbind (on_store (so_get_canonical_block (ie_store env) (cb_number new_block))) (\<lambda>store_block.
     let is_missing = (store_block = None);
         is_reorg = (case store_block of None \<Rightarrow> False | Some sb \<Rightarrow> cb_hash sb \<noteq> cb_hash new_block);
         reached_connection_height = (cb_number new_block \<le> cb_number store_best_block);
         go_on = (\<lambda>pending. keep_searching env new_block (backward_sync_loop n env starting_block store_best_block pending))
     in if is_missing \<or> is_reorg
        then fbind (process_uncle_blocks env new_block) (\<lambda>uncles.
          fseq (save_as_canonical env new_block) (go_on (blocks_to_notify @ [(new_block, uncles)])))
        else if \<not> reached_connection_height then go_on blocks_to_notify
        else fseq (on_store (so_reset_back_sync_checkpoint (ie_store env)))
          (fseq (on_store (so_set_best_block (ie_store env) starting_block))
            (ffor (notify_block env) (rev blocks_to_notify))))"

definition best_block_or :: "'s indexer_env \<Rightarrow> ('s, core_block) ix_op" where
  "best_block_or env = fbind (on_store (so_get_best_block (ie_store env))) (\<lambda>b. fok_or b IxNoBestBlock)"

definition backward_sync :: "'s indexer_env \<Rightarrow> core_block \<Rightarrow> ('s, unit) ix_op" where
  "backward_sync env starting_block = fbind (is_running env) (\<lambda>running.
     if \<not> running then fret ()
     else fbind (best_block_or env) (\<lambda>store_best_block.
       backward_sync_loop (ie_fuel env) env starting_block store_best_block [] starting_block))"

definition resume_pending_backward_sync :: "'s indexer_env \<Rightarrow> ('s, unit) ix_op" where
  "resume_pending_backward_sync env = fbind (on_store (so_get_back_sync_checkpoint (ie_store env))) (\<lambda>checkpoint.
     case checkpoint of
       None \<Rightarrow> fret ()
     | Some c \<Rightarrow> fbind (ix_provider (\<lambda>t. ie_get_block_by_hash env t (cb_parent_hash c)) (AskedByHash (cb_parent_hash c))) (\<lambda>parent.
         case parent of Some checkpoint_parent \<Rightarrow> backward_sync env checkpoint_parent | None \<Rightarrow> fret ()))"

definition MAX_SYNC_ATTEMPTS :: nat where "MAX_SYNC_ATTEMPTS = 10"

text \<open>The rounds \<^verbatim>\<open>1..max_attempts\<close>.\<close>

primrec sync_rounds :: "nat \<Rightarrow> 's indexer_env \<Rightarrow> ('s, unit) ix_op" where
  "sync_rounds 0 env = ffail IxCouldNotCatchUp"
| "sync_rounds (Suc n) env =
     fbind (ix_provider (ie_get_best_block env) AskedBest) (\<lambda>provider_best_block.
     fbind (on_store (so_get_best_block (ie_store env))) (\<lambda>store_best.
     case store_best of
       None \<Rightarrow> sync_rounds n env
     | Some store_best_block \<Rightarrow>
         if cb_hash provider_best_block = cb_hash store_best_block then fret ()
         else fbind (is_running env) (\<lambda>running.
           if \<not> running then fret ()
           else fseq (backward_sync env provider_best_block) (sync_rounds n env))))"

definition full_sync_backward_syncs :: "'s indexer_env \<Rightarrow> ('s, unit) ix_op" where
  "full_sync_backward_syncs = sync_rounds (MAX_SYNC_ATTEMPTS - 1)"

definition startup_backward_sync :: "'s indexer_env \<Rightarrow> ('s, unit) ix_op" where
  "startup_backward_sync env = fseq (resume_pending_backward_sync env) (full_sync_backward_syncs env)"

section \<open>Following the node\<close>

definition handle_new_block :: "'s indexer_env \<Rightarrow> core_block \<Rightarrow> ('s, unit) ix_op" where
  "handle_new_block env new_block = fbind (best_block_or env) (\<lambda>local_best_block.
     let extends_canonical = (cb_parent_hash new_block = cb_hash local_best_block);
         needs_catch_up = (cb_number new_block > cb_number local_best_block \<or>
           cb_total_difficulty new_block > cb_total_difficulty local_best_block)
     in if extends_canonical
        then fbind (process_uncle_blocks env new_block) (\<lambda>uncles.
          fseq (notify_block env (new_block, uncles)) (save_as_best_block env new_block))
        else if needs_catch_up
        then fbind (ix_provider (ie_get_best_block env) AskedBest) (backward_sync env)
        else on_store (so_save_block (ie_store env) new_block))"

primrec listen_blocks :: "nat \<Rightarrow> 's indexer_env \<Rightarrow> ('s, unit) ix_op" where
  "listen_blocks 0 env = ffail IxOutOfFuel"
| "listen_blocks (Suc n) env = fbind (is_running env) (\<lambda>running.
     if \<not> running then fret ()
     else fbind (ix_ask (ie_next env) (\<lambda>_. AskedNext)) (\<lambda>r.
       case r of
         Inr new_block \<Rightarrow> fseq (handle_new_block env new_block) (listen_blocks n env)
       | Inl ClosedConnection \<Rightarrow> fbind (is_running env) (\<lambda>still. if still then ffail IxProviderClosed else fret ())
       | Inl Transient \<Rightarrow> listen_blocks n env
       | Inl (Lagged k) \<Rightarrow> listen_blocks n env
       | Inl Unexpected \<Rightarrow> ffail IxUnknownSubscription))"

definition start_block_subscription :: "'s indexer_env \<Rightarrow> ('s, unit) ix_op" where
  "start_block_subscription env = fbind (is_running env) (\<lambda>running.
     if \<not> running then fret ()
     else fbind (ix_ask (ie_subscribe env) SubscribedBlocks) (\<lambda>ok.
       if \<not> ok then ffail IxSubscribe
       else (\<lambda>x. case listen_blocks (ie_fuel env) env x of (loop_result, y) \<Rightarrow>
         (case ix_ask (ie_unsubscribe env) UnsubscribedBlocks y of
            (Inr done_ok, z) \<Rightarrow> (if done_ok then loop_result else Inl IxUnsubscribe, z)
          | (Inl e, z) \<Rightarrow> (Inl e, z)))))"

section \<open>Running\<close>

definition init_db_if_required :: "'s indexer_env \<Rightarrow> core_block \<Rightarrow> ('s, unit) ix_op" where
  "init_db_if_required env initial_block = fbind (on_store (so_get_best_block (ie_store env))) (\<lambda>best_block.
     if best_block \<noteq> None then fret () else save_as_best_block env initial_block)"

definition warn_if_filled_db :: "'s indexer_env \<Rightarrow> ('s, unit) ix_op" where
  "warn_if_filled_db env = fbind (on_store (so_get_best_block (ie_store env))) (\<lambda>_. fret ())"

definition run_indexer :: "'s indexer_env \<Rightarrow> ('s, unit) ix_op" where
  "run_indexer env = fbind (get_initial_block env) (\<lambda>initial_block.
     fseq (case ie_start_from env of
             StartBest \<Rightarrow> fseq (warn_if_filled_db env) (save_as_best_block env initial_block)
           | StartHash \<Rightarrow> fseq (init_db_if_required env initial_block) (startup_backward_sync env))
       (start_block_subscription env))"

end
