(* ===== verification/Indexer_Sync.thy ===== *)
theory Indexer_Sync
  imports Block_Indexer Blockchain_View
begin

text \<open>
  What a synchronisation of the block indexer does against a node that answers with one chain while
  it runs: it ends, the store then holds that chain, and the blocks that were not canonical before
  are announced in ascending order. The lemmas are proved once over the contract of the store and
  used for the cached store.
\<close>

section \<open>A node that does not change\<close>

record node =
  nd_chain :: "u64 \<Rightarrow> core_block"
  nd_uncle :: "h256 \<Rightarrow> u64 \<Rightarrow> core_block option"

definition serves :: "'s indexer_env \<Rightarrow> node \<Rightarrow> u64 \<Rightarrow> bool" where
  "serves env nd tip \<longleftrightarrow> (\<forall>t. ie_running env t) \<and>
     (\<forall>t n. n \<le> tip \<longrightarrow> ie_get_block_by_number env t n = Inr (Some (nd_chain nd n)) \<and> cb_number (nd_chain nd n) = n) \<and>
     (\<forall>t h i. ie_get_uncle env t h i = Inr (nd_uncle nd h i))"

definition uncles_of :: "node \<Rightarrow> core_block \<Rightarrow> core_block list" where
  "uncles_of nd b = filter (\<lambda>u. cb_hash u \<in> set (cb_uncles b))
     (List.map_filter (\<lambda>i. nd_uncle nd (cb_hash b) (word_of_nat i)) [0..<length (cb_uncles b)])"

definition announcement :: "node \<Rightarrow> core_block \<Rightarrow> block_and_uncles" where
  "announcement nd b = \<lparr> bu_block = b, bu_uncles = uncles_of nd b \<rparr>"

fun sent :: "ix_trace \<Rightarrow> block_and_uncles list" where
  "sent [] = []"
| "sent (SentBlock m ok # t) = m # sent t"
| "sent (_ # t) = sent t"

lemma sent_append [simp]: "sent (t @ u) = sent t @ sent u"
  by (induction t rule: sent.induct) simp_all

fun store_failed :: "ix_error \<Rightarrow> bool" where
  "store_failed (IxStore e) = True"
| "store_failed e = False"

section \<open>Heights\<close>

definition span :: "u64 \<Rightarrow> u64 \<Rightarrow> u64 list" where
  "span lo hi = map word_of_nat [Suc (unat lo)..<Suc (unat hi)]"

lemma span_self [simp]: "span n n = []"
  by (simp add: span_def)

lemma unat_pred: "(n :: u64) \<noteq> 0 \<Longrightarrow> unat (n - 1) = unat n - 1"
  by (simp add: unat_minus_one)

lemma span_step:
  assumes "n \<noteq> 0" and "n \<le> tip"
  shows "span (n - 1) tip = n # span n tip"
proof -
  have pos: "0 < unat n" using assms(1) by (simp add: unat_gt_0)
  then have "Suc (unat (n - 1)) = unat n" using unat_pred [OF assms(1)] by simp
  moreover have "unat n < Suc (unat tip)" using assms(2) by (simp add: word_le_nat_alt)
  ultimately show ?thesis by (simp add: span_def upt_conv_Cons del: upt_Suc)
qed

lemma unat_height: "i \<le> unat (hi :: u64) \<Longrightarrow> unat (word_of_nat i :: u64) = i"
  using unat_lt [of hi] by (simp add: unsigned_of_nat take_bit_nat_eq_self)

lemma span_set: "m \<in> set (span lo hi) \<longleftrightarrow> lo < m \<and> m \<le> hi"
proof
  assume "m \<in> set (span lo hi)"
  then obtain i where "unat lo < i" "i \<le> unat hi" "m = word_of_nat i"
    by (auto simp: span_def less_Suc_eq_le Suc_le_eq simp del: upt_Suc)
  then show "lo < m \<and> m \<le> hi" by (simp add: word_less_nat_alt word_le_nat_alt unat_height)
next
  assume "lo < m \<and> m \<le> hi"
  then have "unat m \<in> set [Suc (unat lo)..<Suc (unat hi)]"
    by (auto simp: word_less_nat_alt word_le_nat_alt)
  then show "m \<in> set (span lo hi)" unfolding span_def set_map by (rule rev_image_eqI) simp
qed

section \<open>Operations over the contract\<close>

lemma wp_on_store [wp_simps]:
  "wp (on_store m) Q E x = wp m (\<lambda>r s. Q r (x \<lparr> ix_store := s \<rparr>)) (\<lambda>e s. E (IxStore e) (x \<lparr> ix_store := s \<rparr>)) (ix_store x)"
  by (auto simp: wp_def on_store_def split: prod.splits sum.splits)

lemma wp_ix_ask [wp_simps]:
  "wp (ix_ask answer act) Q E x = Q (answer (ix_trace x)) (x \<lparr> ix_trace := ix_trace x @ [act (answer (ix_trace x))] \<rparr>)"
  by (simp add: wp_def ix_ask_def Let_def)

lemma wp_ix_provider [wp_simps]:
  "wp (ix_provider answer act) Q E x = (let y = x \<lparr> ix_trace := ix_trace x @ [act] \<rparr> in
     case answer (ix_trace x) of Inl _ \<Rightarrow> E IxProvider y | Inr v \<Rightarrow> Q v y)"
  by (simp add: ix_provider_def wp_simps Let_def split: sum.splits)

context block_store_contract
begin

definition at_view :: "(u64 \<Rightarrow> h256 option) \<Rightarrow> core_block option \<Rightarrow> block_and_uncles list \<Rightarrow> 's indexer \<Rightarrow> bool" where
  "at_view canon best out x \<longleftrightarrow> good (ix_store x) \<and> sv_canon (view (ix_store x)) = canon \<and>
     sv_best (view (ix_store x)) = best \<and> sent (ix_trace x) = out"

definition failing :: "ix_error \<Rightarrow> 's indexer \<Rightarrow> bool" where
  "failing e x \<longleftrightarrow> store_failed e \<and> may_fail (ix_store x)"

lemma at_view_asked [simp]:
  "sent u = [] \<Longrightarrow> at_view canon best out (x \<lparr> ix_trace := ix_trace x @ u \<rparr>) = at_view canon best out x"
  by (simp add: at_view_def)

lemma wp_save_block:
  "at_view canon best out x \<Longrightarrow> wp (on_store (so_save_block ops b)) (\<lambda>_ y. at_view canon best out y \<and>
     cb_hash b \<in> sv_known (view (ix_store y))) failing x"
  unfolding wp_on_store
  by (rule wp_mono [OF save_block]) (auto simp: at_view_def failing_def)

lemma wp_save_as_canonical:
  assumes "ie_store env = ops" and "at_view canon best out x"
  shows "wp (save_as_canonical env b) (\<lambda>_. at_view (canon(cb_number b \<mapsto> cb_hash b)) best out) failing x"
  unfolding save_as_canonical_def wp_seq assms(1)
proof (rule wp_mono [OF wp_save_block [OF assms(2)]])
  fix y
  assume "at_view canon best out y \<and> cb_hash b \<in> sv_known (view (ix_store y))"
  then show "wp (on_store (so_set_canonical_block ops b)) (\<lambda>_. at_view (canon(cb_number b \<mapsto> cb_hash b)) best out) failing y"
    unfolding wp_on_store
    by (intro wp_mono [OF set_canonical]) (auto simp: at_view_def failing_def)
qed simp

lemma wp_save_as_best:
  assumes "ie_store env = ops" and "at_view canon best out x"
  shows "wp (save_as_best_block env b) (\<lambda>_. at_view (canon(cb_number b \<mapsto> cb_hash b)) (Some b) out) failing x"
  unfolding save_as_best_block_def wp_seq
proof (rule wp_mono [OF wp_save_as_canonical [OF assms]])
  fix y
  assume "at_view (canon(cb_number b \<mapsto> cb_hash b)) best out y"
  then show "wp (on_store (so_set_best_block (ie_store env) b)) (\<lambda>_. at_view (canon(cb_number b \<mapsto> cb_hash b)) (Some b) out) failing y"
    unfolding wp_on_store assms(1)
    by (intro wp_mono [OF set_best]) (auto simp: at_view_def failing_def)
qed simp

lemma wp_uncles:
  assumes "ie_store env = ops" and uncle: "\<And>t i. ie_get_uncle env t (cb_hash b) i = Inr (nd_uncle nd (cb_hash b) i)"
    and "at_view canon best out x"
  shows "wp (process_uncles_from env b is acc) (\<lambda>r y. at_view canon best out y \<and>
     r = acc @ filter (\<lambda>u. cb_hash u \<in> set (cb_uncles b)) (List.map_filter (\<lambda>i. nd_uncle nd (cb_hash b) (word_of_nat i)) is)) failing x"
  using assms(3)
proof (induction "is" arbitrary: x acc)
  case Nil
  then show ?case by (simp add: wp_simps)
next
  case (Cons i rest)
  let ?y = "x \<lparr> ix_trace := ix_trace x @ [AskedUncle (cb_hash b) (word_of_nat i)] \<rparr>"
  have y: "at_view canon best out ?y" using Cons.prems by simp
  show ?case
  proof (cases "nd_uncle nd (cb_hash b) (word_of_nat i)")
    case None
    with Cons.IH [OF y] show ?thesis by (simp add: wp_simps uncle map_filter_simps)
  next
    case (Some u)
    show ?thesis
    proof (cases "cb_hash u \<in> set (cb_uncles b)")
      case True
      have "wp (on_store (so_save_block ops u)) (\<lambda>_. wp (process_uncles_from env b rest (acc @ [u])) (\<lambda>r y. at_view canon best out y \<and>
          r = (acc @ [u]) @ filter (\<lambda>u. cb_hash u \<in> set (cb_uncles b)) (List.map_filter (\<lambda>i. nd_uncle nd (cb_hash b) (word_of_nat i)) rest)) failing) failing ?y"
        by (rule wp_mono [OF wp_save_block [OF y]]) (use Cons.IH [where acc = "acc @ [u]"] in auto)
      with Some True show ?thesis by (simp add: wp_bind wp_seq wp_ix_provider uncle map_filter_simps assms(1))
    next
      case False
      with Some Cons.IH [OF y] show ?thesis by (simp add: wp_simps uncle map_filter_simps)
    qed
  qed
qed

lemma wp_notify: "at_view canon best out x \<Longrightarrow> ie_has_sender env \<Longrightarrow>
    wp (notify_block env n) (\<lambda>_. at_view canon best (out @ [\<lparr> bu_block = fst n, bu_uncles = snd n \<rparr>])) failing x"
  by (simp add: notify_block_def Let_def wp_simps at_view_def)

lemma wp_notify_all:
  "at_view canon best out x \<Longrightarrow> ie_has_sender env \<Longrightarrow>
    wp (ffor (notify_block env) ns) (\<lambda>_. at_view canon best (out @ map (\<lambda>n. \<lparr> bu_block = fst n, bu_uncles = snd n \<rparr>) ns)) failing x"
proof (induction ns arbitrary: out x)
  case Nil
  then show ?case by (simp add: wp_simps)
next
  case (Cons n ns)
  show ?case
    using Cons.prems unfolding ffor.simps wp_seq
    by (intro wp_mono [OF wp_notify]) (use Cons.IH in fastforce)+
qed

end

section \<open>The loop\<close>

text \<open>The heights above \<open>n\<close> already follow the node; and what is announced for them.\<close>

definition follows :: "node \<Rightarrow> u64 \<Rightarrow> (u64 \<Rightarrow> h256 option) \<Rightarrow> u64 \<Rightarrow> u64 \<Rightarrow> h256 option" where
  "follows nd tip canon n = (\<lambda>m. if n < m \<and> m \<le> tip then Some (cb_hash (nd_chain nd m)) else canon m)"

definition new_blocks :: "node \<Rightarrow> u64 \<Rightarrow> (u64 \<Rightarrow> h256 option) \<Rightarrow> u64 \<Rightarrow> core_block list" where
  "new_blocks nd tip canon n = map (nd_chain nd) (filter (\<lambda>m. canon m \<noteq> Some (cb_hash (nd_chain nd m))) (span n tip))"

definition pending :: "node \<Rightarrow> core_block \<Rightarrow> core_block \<times> core_block list" where
  "pending nd b = (b, uncles_of nd b)"

text \<open>Going down from the tip, \<open>conn\<close> is the first height at which the loop stops.\<close>

definition connects :: "'s indexer_env \<Rightarrow> node \<Rightarrow> u64 \<Rightarrow> (u64 \<Rightarrow> h256 option) \<Rightarrow> core_block \<Rightarrow> u64 \<Rightarrow> bool" where
  "connects env nd tip canon best conn \<longleftrightarrow> conn \<le> tip \<and> conn \<le> cb_number best \<and> canon conn = Some (cb_hash (nd_chain nd conn)) \<and>
     (\<forall>m. conn < m \<and> m \<le> tip \<longrightarrow> cb_hash (nd_chain nd m) \<noteq> ie_initial_block_hash env \<and>
        (m \<le> cb_number best \<longrightarrow> canon m \<noteq> Some (cb_hash (nd_chain nd m))))"

lemma above_prev: "(n :: u64) \<noteq> 0 \<Longrightarrow> n - 1 < m \<longleftrightarrow> n \<le> m"
  by (simp add: word_less_nat_alt word_le_nat_alt unat_minus_one unat_gt_0 [symmetric]) (metis Suc_le_eq Suc_pred unat_gt_0)

lemma follows_step:
  "n \<noteq> 0 \<Longrightarrow> n \<le> tip \<Longrightarrow> (follows nd tip canon n)(n \<mapsto> cb_hash (nd_chain nd n)) = follows nd tip canon (n - 1)"
  by (auto simp: follows_def above_prev fun_eq_iff)

lemma follows_skip:
  "n \<noteq> 0 \<Longrightarrow> canon n = Some (cb_hash (nd_chain nd n)) \<Longrightarrow> follows nd tip canon n = follows nd tip canon (n - 1)"
  by (auto simp: follows_def above_prev fun_eq_iff)

lemma new_blocks_step:
  "n \<noteq> 0 \<Longrightarrow> n \<le> tip \<Longrightarrow> new_blocks nd tip canon (n - 1) =
     (if canon n \<noteq> Some (cb_hash (nd_chain nd n)) then [nd_chain nd n] else []) @ new_blocks nd tip canon n"
  by (simp add: new_blocks_def span_step)

context block_store_contract
begin

lemma wp_finish:
  assumes "ie_store env = ops" and "ie_has_sender env" and "at_view canon best out x"
  shows "wp (fseq (on_store (so_reset_back_sync_checkpoint (ie_store env)))
      (fseq (on_store (so_set_best_block (ie_store env) start)) (ffor (notify_block env) ns)))
    (\<lambda>_. at_view canon (Some start) (out @ map (\<lambda>n. \<lparr> bu_block = fst n, bu_uncles = snd n \<rparr>) ns)) failing x"
proof -
  have set: "wp (on_store (so_set_best_block ops start)) (\<lambda>_. at_view canon (Some start) out) failing y"
    if "at_view canon best out y" for y
    unfolding wp_on_store by (rule wp_mono [OF set_best]) (use that in \<open>auto simp: at_view_def failing_def\<close>)
  have reset: "wp (on_store (so_reset_back_sync_checkpoint ops)) (\<lambda>_. at_view canon best out) failing x"
    unfolding wp_on_store by (rule wp_mono [OF reset_checkpoint]) (use assms in \<open>auto simp: at_view_def failing_def\<close>)
  show ?thesis
    unfolding wp_seq assms(1)
    by (rule wp_mono [OF reset], rule wp_mono [OF set]) (auto intro: wp_notify_all assms(2))
qed

lemma wp_canonical:
  "at_view canon best out x \<Longrightarrow> wp (on_store (so_get_canonical_block ops n))
     (\<lambda>r y. map_option cb_hash r = canon n \<and> at_view canon best out y) failing x"
  unfolding wp_on_store by (rule wp_mono [OF get_canonical]) (auto simp: at_view_def failing_def)

lemma wp_process_uncles:
  assumes "ie_store env = ops" and "\<And>t h i. ie_get_uncle env t h i = Inr (nd_uncle nd h i)" and "at_view canon best out x"
  shows "wp (process_uncle_blocks env b) (\<lambda>r y. at_view canon best out y \<and> r = uncles_of nd b) failing x"
  using wp_uncles [OF assms(1) assms(2) assms(3), of b "[0..<length (cb_uncles b)]" "[]"]
  by (simp add: process_uncle_blocks_def uncles_of_def)

lemma wp_go_on:
  assumes "serves env nd tip" and "n \<le> tip" and "n \<noteq> 0" and "cb_hash (nd_chain nd n) \<noteq> ie_initial_block_hash env"
    and "at_view canon best out x" and next_step: "\<And>y. at_view canon best out y \<Longrightarrow> wp (k (nd_chain nd (n - 1))) Q failing y"
  shows "wp (keep_searching env (nd_chain nd n) k) Q failing x"
proof -
  have run: "ie_running env t" and number: "cb_number (nd_chain nd n) = n"
    and prev: "ie_get_block_by_number env t (n - 1) = Inr (Some (nd_chain nd (n - 1)))" for t
    using assms(1,2) above_prev [OF assms(3), of tip] by (auto simp: serves_def)
  with assms(3-5) show ?thesis
    by (simp add: keep_searching_def is_running_def get_next_backward_sync_block_def wp_simps next_step)
qed

text \<open>The two cases of an iteration: the height has another canonical block, or this one.\<close>

lemma wp_iteration:
  assumes store: "ie_store env = ops" and x: "at_view canon best out x"
    and new: "\<And>y. canon (cb_number b) \<noteq> Some (cb_hash b) \<Longrightarrow> at_view canon best out y \<Longrightarrow>
      wp (fbind (process_uncle_blocks env b) (\<lambda>uncles. fseq (save_as_canonical env b)
        (keep_searching env b (backward_sync_loop n env start sb (ns @ [(b, uncles)]))))) Q failing y"
    and known: "\<And>y. canon (cb_number b) = Some (cb_hash b) \<Longrightarrow> at_view canon best out y \<Longrightarrow>
      wp (if \<not> cb_number b \<le> cb_number sb then keep_searching env b (backward_sync_loop n env start sb ns)
        else fseq (on_store (so_reset_back_sync_checkpoint ops))
          (fseq (on_store (so_set_best_block ops start)) (ffor (notify_block env) (rev ns)))) Q failing y"
  shows "wp (backward_sync_loop (Suc n) env start sb ns b) Q failing x"
  unfolding backward_sync_loop.simps wp_bind [of "on_store _"] store Let_def
proof (rule wp_mono [OF wp_canonical [OF x]])
  fix r y
  assume r: "map_option cb_hash r = canon (cb_number b) \<and> at_view canon best out y"
  then have "(r = None \<or> (case r of None \<Rightarrow> False | Some s \<Rightarrow> cb_hash s \<noteq> cb_hash b)) \<longleftrightarrow> canon (cb_number b) \<noteq> Some (cb_hash b)"
    by (cases r) auto
  then show "wp (if r = None \<or> (case r of None \<Rightarrow> False | Some s \<Rightarrow> cb_hash s \<noteq> cb_hash b)
      then fbind (process_uncle_blocks env b) (\<lambda>uncles. fseq (save_as_canonical env b)
        (keep_searching env b (backward_sync_loop n env start sb (ns @ [(b, uncles)]))))
      else if \<not> cb_number b \<le> cb_number sb then keep_searching env b (backward_sync_loop n env start sb ns)
      else fseq (on_store (so_reset_back_sync_checkpoint ops))
        (fseq (on_store (so_set_best_block ops start)) (ffor (notify_block env) (rev ns)))) Q failing y"
    using r new [of y] known [of y] by (cases "canon (cb_number b) = Some (cb_hash b)") (simp_all only: if_True if_False simp_thms)
qed simp

lemma wp_new_block:
  fixes nd :: node
  assumes store: "ie_store env = ops" and uncle: "\<And>t h i. ie_get_uncle env t h i = Inr (nd_uncle nd h i)"
    and x: "at_view canon best out x"
    and rest: "\<And>y. at_view (canon(cb_number b \<mapsto> cb_hash b)) best out y \<Longrightarrow> wp (k (uncles_of nd b)) Q failing y"
  shows "wp (fbind (process_uncle_blocks env b) (\<lambda>uncles. fseq (save_as_canonical env b) (k uncles))) Q failing x"
  unfolding wp_bind
proof (rule wp_mono [OF wp_process_uncles [OF store uncle x]])
  fix uncles y
  assume "at_view canon best out y \<and> uncles = uncles_of nd b"
  then show "wp (fseq (save_as_canonical env b) (k uncles)) Q failing y"
    unfolding wp_seq by (auto intro: wp_mono [OF wp_save_as_canonical [OF store]] rest)
qed simp

lemma connects_below:
  assumes "connects env nd tip canon best conn" and "conn < n" and "n \<le> tip" and "unat n - unat conn < Suc fuel"
  shows "n \<noteq> 0" "conn \<le> n - 1" "n - 1 \<le> tip" "unat (n - 1) - unat conn < fuel" "cb_hash (nd_chain nd n) \<noteq> ie_initial_block_hash env"
proof -
  show "n \<noteq> 0" using assms(2) by auto
  then have "unat (n - 1) = unat n - 1" by (rule unat_pred)
  with assms show "conn \<le> n - 1" "n - 1 \<le> tip" "unat (n - 1) - unat conn < fuel" "cb_hash (nd_chain nd n) \<noteq> ie_initial_block_hash env"
    by (auto simp: connects_def word_less_nat_alt word_le_nat_alt)
qed

lemma wp_loop:
  assumes store: "ie_store env = ops" "ie_has_sender env" and nd: "serves env nd tip" and conn: "connects env nd tip canon best conn"
  shows "conn \<le> n \<Longrightarrow> n \<le> tip \<Longrightarrow> unat n - unat conn < fuel \<Longrightarrow> at_view (follows nd tip canon n) b out x \<Longrightarrow>
    wp (backward_sync_loop fuel env start best (map (pending nd) (rev (new_blocks nd tip canon n))) (nd_chain nd n))
      (\<lambda>_. at_view (follows nd tip canon conn) (Some start) (out @ map (announcement nd) (new_blocks nd tip canon conn))) failing x"
proof (induction fuel arbitrary: n x)
  case (Suc fuel)
  let ?b = "nd_chain nd n" and ?c = "follows nd tip canon n" and ?ns = "\<lambda>n. map (pending nd) (rev (new_blocks nd tip canon n))"
  let ?Q = "\<lambda>_. at_view (follows nd tip canon conn) (Some start) (out @ map (announcement nd) (new_blocks nd tip canon conn))"
  have number: "cb_number ?b = n" and uncle: "ie_get_uncle env t h i = Inr (nd_uncle nd h i)" for t h i
    using nd Suc.prems(2) by (simp_all add: serves_def)
  have here: "?c n = canon n" by (simp add: follows_def)
  note down = connects_below [OF conn _ Suc.prems(2,3)]
  have next_one: "wp (keep_searching env ?b (backward_sync_loop fuel env start best (?ns (n - 1)))) ?Q failing z"
    if "conn < n" and "at_view (follows nd tip canon (n - 1)) b out z" for z
    by (rule wp_go_on [OF nd Suc.prems(2) down(1,5) [OF that(1) ] that(2)]) (rule Suc.IH [OF down(2-4) [OF that(1)]])
  show ?case
  proof (rule wp_iteration [OF store(1) Suc.prems(4)], unfold number here)
    fix y
    assume differs: "canon n \<noteq> Some (cb_hash ?b)" and y: "at_view ?c b out y"
    have "conn \<noteq> n" using differs conn unfolding connects_def by blast
    then have lt: "conn < n" using Suc.prems(1) by simp
    have ns: "?ns n @ [(?b, uncles_of nd ?b)] = ?ns (n - 1)"
      using new_blocks_step [OF down(1) [OF lt] Suc.prems(2), of nd canon] differs by (simp add: pending_def)
    have "?c(cb_number ?b \<mapsto> cb_hash ?b) = follows nd tip canon (n - 1)"
      using follows_step [OF down(1) [OF lt] Suc.prems(2)] by (simp add: number)
    then show "wp (fbind (process_uncle_blocks env ?b) (\<lambda>uncles. fseq (save_as_canonical env ?b)
        (keep_searching env ?b (backward_sync_loop fuel env start best (?ns n @ [(?b, uncles)]))))) ?Q failing y"
      by (intro wp_new_block [OF store(1) uncle y]) (simp only: ns next_one [OF lt])
  next
    fix y
    assume same: "canon n = Some (cb_hash ?b)" and y: "at_view ?c b out y"
    show "wp (if \<not> n \<le> cb_number best then keep_searching env ?b (backward_sync_loop fuel env start best (?ns n))
      else fseq (on_store (so_reset_back_sync_checkpoint ops))
        (fseq (on_store (so_set_best_block ops start)) (ffor (notify_block env) (rev (?ns n))))) ?Q failing y"
    proof (cases "n \<le> cb_number best")
      case True
      then have "n = conn" using conn Suc.prems(1,2) same unfolding connects_def by (metis order.not_eq_order_implies_strict)
      with True wp_finish [OF store y, of start "rev (?ns n)"] show ?thesis
        by (simp add: rev_map comp_def pending_def announcement_def [abs_def] store(1))
    next
      case False
      moreover have "conn \<le> cb_number best" using conn by (simp add: connects_def)
      ultimately have lt: "conn < n" by (simp add: not_le order.strict_trans1)
      have "?c = follows nd tip canon (n - 1)" "?ns n = ?ns (n - 1)"
        using follows_skip [of n canon nd tip] new_blocks_step [of n tip nd canon] down(1) [OF lt] same Suc.prems(2) by simp_all
      with False y next_one [OF lt, of y] show ?thesis by simp
    qed
  qed
qed simp

end

section \<open>A whole synchronisation\<close>

context block_store_contract
begin

lemma wp_best_block_or:
  "ie_store env = ops \<Longrightarrow> at_view canon (Some best) out x \<Longrightarrow>
     wp (best_block_or env) (\<lambda>r y. r = best \<and> at_view canon (Some best) out y) failing x"
  unfolding best_block_or_def wp_bind wp_on_store
  by (simp, rule wp_mono [OF get_best]) (auto simp: at_view_def failing_def wp_simps)

lemma wp_backward_sync:
  assumes store: "ie_store env = ops" "ie_has_sender env" and nd: "serves env nd tip" and conn: "connects env nd tip canon best conn"
    and fuel: "unat tip - unat conn < ie_fuel env" and x: "at_view canon (Some best) out x"
  shows "wp (backward_sync env (nd_chain nd tip))
     (\<lambda>_. at_view (follows nd tip canon conn) (Some (nd_chain nd tip)) (out @ map (announcement nd) (new_blocks nd tip canon conn))) failing x"
proof -
  let ?Q = "\<lambda>_. at_view (follows nd tip canon conn) (Some (nd_chain nd tip)) (out @ map (announcement nd) (new_blocks nd tip canon conn))"
  have run: "ie_running env t" for t using nd by (simp add: serves_def)
  have start: "follows nd tip canon tip = canon" "new_blocks nd tip canon tip = []"
    by (auto simp: follows_def new_blocks_def fun_eq_iff)
  have loop: "wp (backward_sync_loop (ie_fuel env) env (nd_chain nd tip) best [] (nd_chain nd tip)) ?Q failing y"
    if "at_view canon (Some best) out y" for y
    using wp_loop [OF store nd conn, of tip "ie_fuel env" "Some best" out y "nd_chain nd tip"] conn fuel that
    by (simp add: start connects_def)
  have "wp (best_block_or env) (\<lambda>r. wp (backward_sync_loop (ie_fuel env) env (nd_chain nd tip) r [] (nd_chain nd tip)) ?Q failing) failing
      (x \<lparr> ix_trace := ix_trace x @ [CheckedRunning] \<rparr>)"
    by (rule wp_mono [OF wp_best_block_or [OF store(1), where canon = canon and best = best and out = out]]) (use x loop in auto)
  then show ?thesis by (simp add: backward_sync_def is_running_def wp_simps run)
qed

text \<open>A synchronisation that is told to stop after its first block.\<close>

lemma wp_interrupted:
  fixes nd :: node
  assumes store: "ie_store env = ops" and x: "at_view canon best out x" and stop: "\<And>t. \<not> ie_running env t"
    and uncle: "\<And>t h i. ie_get_uncle env t h i = Inr (nd_uncle nd h i)" and differs: "canon (cb_number b) \<noteq> Some (cb_hash b)"
  shows "wp (backward_sync_loop (Suc n) env b sb [] b)
     (\<lambda>_ y. at_view (canon(cb_number b \<mapsto> cb_hash b)) best out y \<and> sv_checkpoint (view (ix_store y)) = Some b) failing x"
proof -
  let ?c = "canon(cb_number b \<mapsto> cb_hash b)"
  let ?Q = "\<lambda>_ y. at_view ?c best out y \<and> sv_checkpoint (view (ix_store y)) = Some b"
  have stopped: "wp (keep_searching env b k) ?Q failing y" if "at_view ?c best out y" for y k
    unfolding keep_searching_def is_running_def
    using that stop by (simp add: wp_simps store) (rule wp_mono [OF set_checkpoint], auto simp: at_view_def failing_def)
  show ?thesis
    by (rule wp_iteration [OF store x]) (use differs in \<open>auto intro: wp_new_block [OF store uncle] stopped\<close>)
qed

end

section \<open>Startup\<close>

definition best_is :: "'s indexer_env \<Rightarrow> core_block \<Rightarrow> bool" where
  "best_is env b \<longleftrightarrow> (\<forall>t. ie_get_best_block env t = Inr b)"

context block_store_contract
begin

lemma wp_get_best:
  "at_view canon best out x \<Longrightarrow> wp (on_store (so_get_best_block ops)) (\<lambda>r y. r = best \<and> at_view canon best out y) failing x"
  unfolding wp_on_store by (rule wp_mono [OF get_best]) (auto simp: at_view_def failing_def)

lemma wp_round_done:
  assumes "ie_store env = ops" and "best_is env b" and "at_view canon (Some b) out x"
  shows "wp (sync_rounds (Suc n) env) (\<lambda>_. at_view canon (Some b) out) failing x"
proof -
  let ?y = "x \<lparr> ix_trace := ix_trace x @ [AskedBest] \<rparr>"
  have "at_view canon (Some b) out ?y" using assms(3) by simp
  from wp_get_best [OF this]
  have "wp (on_store (so_get_best_block ops)) (\<lambda>r. wp (case r of None \<Rightarrow> sync_rounds n env
       | Some s \<Rightarrow> if cb_hash b = cb_hash s then fret ()
           else fbind (is_running env) (\<lambda>running. if \<not> running then fret () else fseq (backward_sync env b) (sync_rounds n env)))
       (\<lambda>_. at_view canon (Some b) out) failing) failing ?y"
    by (rule wp_mono) (auto simp: wp_simps)
  with assms(1,2) show ?thesis by (simp add: wp_bind wp_ix_provider best_is_def)
qed

lemma wp_round:
  assumes store: "ie_store env = ops" "ie_has_sender env" and nd: "serves env nd tip" and conn: "connects env nd tip canon best conn"
    and fuel: "unat tip - unat conn < ie_fuel env" and x: "at_view canon (Some best) out x"
    and b: "best_is env (nd_chain nd tip)" "cb_hash (nd_chain nd tip) \<noteq> cb_hash best"
  shows "wp (sync_rounds (Suc (Suc n)) env) (\<lambda>_. at_view (follows nd tip canon conn) (Some (nd_chain nd tip))
     (out @ map (announcement nd) (new_blocks nd tip canon conn))) failing x" (is "wp _ ?Q failing x")
proof -
  have run: "ie_running env t" for t using nd by (simp add: serves_def)
  let ?y = "x \<lparr> ix_trace := ix_trace x @ [AskedBest] \<rparr>"
  have y: "at_view canon (Some best) out ?y" using x by simp
  have sync: "wp (fseq (backward_sync env (nd_chain nd tip)) (sync_rounds (Suc n) env)) ?Q failing z"
    if "at_view canon (Some best) out z" for z
    unfolding wp_seq by (rule wp_mono [OF wp_backward_sync [OF store nd conn fuel that]]) (erule wp_round_done [OF store(1) b(1)], assumption)
  have "wp (on_store (so_get_best_block ops)) (\<lambda>r. wp (case r of None \<Rightarrow> sync_rounds (Suc n) env
       | Some s \<Rightarrow> if cb_hash (nd_chain nd tip) = cb_hash s then fret ()
           else fbind (is_running env) (\<lambda>running. if \<not> running then fret () else fseq (backward_sync env (nd_chain nd tip)) (sync_rounds (Suc n) env)))
       ?Q failing) failing ?y"
    by (rule wp_mono [OF wp_get_best [OF y]])
      (use b(2) run in \<open>auto simp: wp_bind is_running_def wp_ix_ask simp del: sync_rounds.simps intro!: sync\<close>)
  then show ?thesis using b(1) store(1)
    by (simp add: wp_bind wp_ix_provider best_is_def sync_rounds.simps(2) [of "Suc n"] del: sync_rounds.simps)
qed

lemma wp_resume:
  assumes store: "ie_store env = ops" "ie_has_sender env" and nd: "serves env nd tip" and conn: "connects env nd tip canon best conn"
    and fuel: "unat tip - unat conn < ie_fuel env" and x: "at_view canon (Some best) out x" "sv_checkpoint (view (ix_store x)) = Some c"
    and parent: "\<And>t. ie_get_block_by_hash env t (cb_parent_hash c) = Inr (Some (nd_chain nd tip))"
  shows "wp (resume_pending_backward_sync env) (\<lambda>_. at_view (follows nd tip canon conn) (Some (nd_chain nd tip))
     (out @ map (announcement nd) (new_blocks nd tip canon conn))) failing x" (is "wp _ ?Q failing x")
proof -
  have got: "wp (on_store (so_get_back_sync_checkpoint ops)) (\<lambda>r y. r = Some c \<and> at_view canon (Some best) out y) failing x"
    unfolding wp_on_store by (rule wp_mono [OF get_checkpoint]) (use x in \<open>auto simp: at_view_def failing_def\<close>)
  show ?thesis
    unfolding resume_pending_backward_sync_def wp_bind [of "on_store _"] store(1)
    by (rule wp_mono [OF got])
      (auto simp: wp_bind wp_ix_provider parent intro!: wp_backward_sync [OF store nd conn fuel])
qed

text \<open>
  A restart after an interruption at the tip: the rest of the chain is synchronised and announced,
  the tip becomes the best block without having been announced.
\<close>

lemma wp_startup_after_interruption:
  assumes store: "ie_store env = ops" "ie_has_sender env" and nd: "serves env nd tip"
    and tip: "prev < tip" "tip - 1 = prev" "cb_hash (nd_chain nd tip) \<noteq> cb_hash (nd_chain nd prev)"
      "cb_hash (nd_chain nd tip) \<noteq> ie_initial_block_hash env"
    and parent: "\<And>t. ie_get_block_by_hash env t (cb_parent_hash (nd_chain nd tip)) = Inr (Some (nd_chain nd prev))"
    and b: "best_is env (nd_chain nd tip)" and conn: "connects env nd prev canon best conn" and fuel: "unat tip - unat conn < ie_fuel env"
    and x: "at_view canon (Some best) out x" "sv_checkpoint (view (ix_store x)) = Some (nd_chain nd tip)"
      "canon tip = Some (cb_hash (nd_chain nd tip))"
  shows "wp (startup_backward_sync env) (\<lambda>_. at_view (follows nd prev canon conn) (Some (nd_chain nd tip))
     (out @ map (announcement nd) (new_blocks nd prev canon conn))) failing x"
proof -
  let ?c = "follows nd prev canon conn" and ?out = "out @ map (announcement nd) (new_blocks nd prev canon conn)"
  have served: "serves env nd prev" using nd tip(1) by (auto simp: serves_def)
  have number: "cb_number (nd_chain nd prev) = prev" using served by (simp add: serves_def)
  have unat: "unat tip - unat prev < ie_fuel env" "unat prev - unat conn < ie_fuel env"
    using fuel tip(1) conn by (auto simp: connects_def word_less_nat_alt word_le_nat_alt)
  have between: "prev < m \<and> m \<le> tip \<longleftrightarrow> m = tip" for m
  proof -
    have "tip \<noteq> 0" using tip(1) by auto
    from above_prev [OF this, of m] show ?thesis by (auto simp: tip(2))
  qed
  have "?c prev = Some (cb_hash (nd_chain nd prev))" using conn by (auto simp: follows_def connects_def)
  then have conn2: "connects env nd tip ?c (nd_chain nd prev) prev"
    unfolding connects_def between number using tip less_imp_le [OF tip(1)] leD [of tip prev] by auto
  have "?c tip = Some (cb_hash (nd_chain nd tip))" using x(3) tip(1) by (simp add: follows_def)
  then have none: "follows nd tip ?c prev = ?c" "new_blocks nd tip ?c prev = []"
    unfolding follows_def [of nd tip] new_blocks_def [of nd tip] between
    by (auto simp: filter_empty_conv span_set between)
  have "wp (sync_rounds (Suc (Suc 7)) env) (\<lambda>_. at_view ?c (Some (nd_chain nd tip)) ?out) failing y"
    if "at_view ?c (Some (nd_chain nd prev)) ?out y" for y
    using wp_round [OF store nd conn2 unat(1) that b tip(3), of 7] unfolding none list.map(1) append_Nil2 .
  moreover have "MAX_SYNC_ATTEMPTS - 1 = Suc (Suc 7)" by (simp add: MAX_SYNC_ATTEMPTS_def)
  ultimately show ?thesis
    unfolding startup_backward_sync_def full_sync_backward_syncs_def wp_seq
    by (intro wp_mono [OF wp_resume [OF store served conn unat(2) x(1,2) parent]]) (simp_all del: sync_rounds.simps)
qed

end

end
