(* ===== verification/Indexer_Guarantees.thy ===== *)
theory Indexer_Guarantees
  imports Indexer_Sync
begin

text \<open>
  The properties of the block indexer with its cached store, and what its announcements mean for the
  view of the coordinator that receives them.
\<close>

section \<open>A sample store\<close>

text \<open>A least-recently-used cache as a list, the most recent entry first.\<close>

type_synonym lru_list = "usize \<times> (string \<times> core_block) list"

definition lru_list_get :: "string \<Rightarrow> lru_list \<Rightarrow> core_block option \<times> lru_list" where
  "lru_list_get k c = (map_of (snd c) k, case map_of (snd c) k of None \<Rightarrow> c | Some v \<Rightarrow> (fst c, (k, v) # AList.delete k (snd c)))"

definition lru_list_put :: "string \<Rightarrow> core_block \<Rightarrow> lru_list \<Rightarrow> core_block option \<times> lru_list" where
  "lru_list_put k v c = (map_of (snd c) k, (fst c, take (unat (fst c)) ((k, v) # AList.delete k (snd c))))"

definition lru_list_pop :: "string \<Rightarrow> lru_list \<Rightarrow> core_block option \<times> lru_list" where
  "lru_list_pop k c = (map_of (snd c) k, (fst c, AList.delete k (snd c)))"

definition sample_store_env :: "lru_list store_env" where
  "sample_store_env = \<lparr> se_text = std_text,
     se_read_hash = (\<lambda>s. case hash256_try_from std_text s of Inr h \<Rightarrow> Some h | Inl _ \<Rightarrow> None),
     se_outcome = (\<lambda>_. Performed), se_lru_new = (\<lambda>n. (n, [])), se_lru_get = lru_list_get,
     se_lru_put = lru_list_put, se_lru_pop = lru_list_pop \<rparr>"

definition lru_content :: "lru_list \<Rightarrow> string \<rightharpoonup> core_block" where
  "lru_content c = map_of (snd c)"

lemma map_of_take: "map_of (take n xs) \<subseteq>\<^sub>m map_of xs"
proof -
  have "map_of xs = map_of (drop n xs) ++ map_of (take n xs)" by (metis append_take_drop_id map_of_append)
  then show ?thesis by simp
qed

lemma sample_lru_ok: "lru_ok sample_store_env lru_content"
proof -
  have put: "map_of (take n ((k, v) # AList.delete k xs)) \<subseteq>\<^sub>m (map_of xs)(k \<mapsto> v)" for n k v and xs :: "(string \<times> core_block) list"
  proof -
    have "map_of ((k, v) # AList.delete k xs) = (map_of xs)(k \<mapsto> v)" by (auto simp: delete_conv' fun_eq_iff)
    then show ?thesis using map_of_take by metis
  qed
  have get: "(map_of xs)(k \<mapsto> v) = map_of xs" if "map_of xs k = Some v" for k v and xs :: "(string \<times> core_block) list"
    using that by (auto simp: fun_eq_iff)
  show ?thesis
    unfolding lru_ok_def sample_store_env_def lru_content_def
    by (auto simp: lru_list_get_def lru_list_put_def lru_list_pop_def get put delete_conv' split: option.splits simp del: take_Suc_Cons)
qed

lemma sample_env_ok: "env_ok sample_store_env lru_content" and sample_reliable: "db_reliable sample_store_env"
  using sample_lru_ok hex_codec_std_text std_hex.hash256_round_trip
  by (simp_all add: env_ok_def sample_store_env_def db_reliable_def)

lemma coherent_new:
  assumes "env_ok env content" and "db_ok env db" and "cached_store_new env db n = Inr s"
  shows "coherent env content s" and "st_db s = db"
  using assms by (auto simp: coherent_def cached_store_new_def lru_cache_new_def env_ok_def lru_ok_def res_simps split: if_splits)

text \<open>A store that was initialised with one block.\<close>

definition init_db :: "'c store_env \<Rightarrow> core_block \<Rightarrow> (string \<rightharpoonup> stored)" where
  "init_db env b = Map.empty(bkey env (BlockByHash (cb_hash b)) \<mapsto> StoredBlock b,
     bkey env (BlockByNumber (cb_number b)) \<mapsto> StoredText (hash256_display (se_text env) (cb_hash b)), bkey env BestBlock \<mapsto> StoredBlock b)"

lemma init_db_ok:
  assumes "env_ok env content"
  shows "db_ok env (init_db env b)"
    and "db_view env (init_db env b) = \<lparr> sv_best = Some b, sv_checkpoint = None, sv_canon = [cb_number b \<mapsto> cb_hash b], sv_known = {cb_hash b} \<rparr>"
proof -
  have hex: "hex_codec (se_text env)" and rd: "\<And>h. se_read_hash env (hash256_display (se_text env) h) = Some h"
    using assms by (simp_all add: env_ok_def)
  have "db_ok env Map.empty" by (simp add: db_ok_def)
  then show "db_ok env (init_db env b)"
    unfolding init_db_def by (intro db_ok_set [OF hex]) (auto simp: bk_value_inj [OF hex])
  show "db_view env (init_db env b) = \<lparr> sv_best = Some b, sv_checkpoint = None, sv_canon = [cb_number b \<mapsto> cb_hash b], sv_known = {cb_hash b} \<rparr>"
    using rd by (auto simp: init_db_def db_view.simps bk_value_inj [OF hex] fun_eq_iff)
qed

section \<open>The cached store\<close>

text \<open>
  C12. The cached store behaves like plain maps: whatever the cache has evicted, a lookup answers for
  what was last written, the canonical block of a height has the hash last set for it, and a write
  changes only what it is for. Only a failing database gives an error.
\<close>

theorem cached_store_refines:
  assumes "coherent env content s"
  shows "wp (cs_get_canonical_block env n) (\<lambda>r t. map_option cb_hash r = sv_canon (db_view env (st_db s)) n \<and>
        coherent env content t \<and> db_view env (st_db t) = db_view env (st_db s)) (\<lambda>_ _. \<not> db_reliable env) s \<and>
     wp (cs_get_best_block env) (\<lambda>r t. r = sv_best (db_view env (st_db s)) \<and>
        coherent env content t \<and> db_view env (st_db t) = db_view env (st_db s)) (\<lambda>_ _. \<not> db_reliable env) s \<and>
     wp (cs_set_best_block env b) (\<lambda>_ t. coherent env content t \<and>
        db_view env (st_db t) = db_view env (st_db s) \<lparr> sv_best := Some b \<rparr>) (\<lambda>_ _. \<not> db_reliable env) s \<and>
     wp (cs_save_block env b) (\<lambda>_ t. wp (cs_set_canonical_block env b) (\<lambda>_ u. coherent env content u \<and>
        db_view env (st_db u) = db_view env (st_db s) \<lparr> sv_known := insert (cb_hash b) (sv_known (db_view env (st_db s))),
          sv_canon := (sv_canon (db_view env (st_db s)))(cb_number b \<mapsto> cb_hash b) \<rparr>) (\<lambda>_ _. \<not> db_reliable env) t)
        (\<lambda>_ _. \<not> db_reliable env) s"
proof (intro conjI)
  have ops: "so_get_canonical_block (cached_ops env) = cs_get_canonical_block env" "so_get_best_block (cached_ops env) = cs_get_best_block env"
    "so_set_best_block (cached_ops env) = cs_set_best_block env" "so_save_block (cached_ops env) = cs_save_block env"
    "so_set_canonical_block (cached_ops env) = cs_set_canonical_block env"
    by (simp_all add: cached_ops_def)
  note laws = cached.get_canonical [where env = env and content = content, unfolded ops] cached.get_best [where env = env and content = content, unfolded ops]
    cached.set_best [where env = env and content = content, unfolded ops] cached.save_block [where env = env and content = content, unfolded ops]
    cached.set_canonical [where env = env and content = content, unfolded ops]
  show "wp (cs_save_block env b) (\<lambda>_ t. wp (cs_set_canonical_block env b) (\<lambda>_ u. coherent env content u \<and>
        db_view env (st_db u) = db_view env (st_db s) \<lparr> sv_known := insert (cb_hash b) (sv_known (db_view env (st_db s))),
          sv_canon := (sv_canon (db_view env (st_db s)))(cb_number b \<mapsto> cb_hash b) \<rparr>) (\<lambda>_ _. \<not> db_reliable env) t)
        (\<lambda>_ _. \<not> db_reliable env) s"
    by (rule wp_mono [OF laws(4) [OF assms]], rule wp_mono [OF laws(5)]) auto
qed (use assms cached.get_canonical cached.get_best cached.set_best in \<open>simp_all add: cached_ops_def\<close>)

theorem cached_store_refines_witness:
  "\<exists>s. cached_store_new sample_store_env (init_db sample_store_env (core_block_new 7 5 4 0 0 0 0 [])) 2 = Inr s \<and>
     wp (cs_get_canonical_block sample_store_env 7) (\<lambda>r t. map_option cb_hash r = Some 5) (\<lambda>_ _. False) s"
proof -
  let ?db = "init_db sample_store_env (core_block_new 7 5 4 0 0 0 0 [])"
  obtain s where s: "cached_store_new sample_store_env ?db 2 = Inr s"
    by (simp add: cached_store_new_def lru_cache_new_def)
  note ok = init_db_ok [OF sample_env_ok, of "core_block_new 7 5 4 0 0 0 0 []"]
  have c: "coherent sample_store_env lru_content s" "st_db s = ?db" using coherent_new [OF sample_env_ok ok(1) s] by auto
  have "sv_canon (db_view sample_store_env (st_db s)) 7 = Some 5" unfolding c(2) ok(2) by (simp add: core_block_new_def)
  with conjunct1 [OF cached_store_refines [OF c(1), of 7]] sample_reliable
  have "wp (cs_get_canonical_block sample_store_env 7) (\<lambda>r t. map_option cb_hash r = Some 5) (\<lambda>_ _. False) s"
    by (elim wp_mono) auto
  with s show ?thesis by blast
qed

section \<open>Synchronisation\<close>

text \<open>
  C10. Against a node that keeps its chain while it is asked, a backward synchronisation that finds a
  block of the chain in the store ends within as many rounds as there are blocks above it. If the
  database does not fail, it succeeds: the store then has the chain of the node from that block up
  to the tip as its canonical chain and the tip as its best block, and exactly the blocks that were
  not canonical before are announced, with their uncles, in ascending order.
\<close>

theorem backward_sync_connects:
  assumes "ie_store env = cached_ops senv" "ie_has_sender env" and "serves env nd tip"
    and "coherent senv content (ix_store x)"
    and best: "sv_best (db_view senv (st_db (ix_store x))) = Some best"
    and "connects env nd tip (sv_canon (db_view senv (st_db (ix_store x)))) best conn" and "unat tip - unat conn < ie_fuel env"
    and run: "backward_sync env (nd_chain nd tip) x = (r, y)"
  shows "r = Inr () \<and> sv_best (db_view senv (st_db (ix_store y))) = Some (nd_chain nd tip) \<and>
       sv_canon (db_view senv (st_db (ix_store y))) = follows nd tip (sv_canon (db_view senv (st_db (ix_store x)))) conn \<and>
       sent (ix_trace y) = sent (ix_trace x) @ map (announcement nd) (new_blocks nd tip (sv_canon (db_view senv (st_db (ix_store x)))) conn) \<or>
     (\<exists>e. r = Inl (IxStore e)) \<and> \<not> db_reliable senv"
proof -
  let ?c = "sv_canon (db_view senv (st_db (ix_store x)))"
  have "cached.at_view senv content ?c (Some best) (sent (ix_trace x)) x"
    using assms(4) best by (simp add: cached.at_view_def)
  from cached.wp_backward_sync [OF assms(1,2,3,6,7) this] run show ?thesis
    by (cases r) (auto simp: wp_def cached.at_view_def cached.failing_def elim: store_failed.elims)
qed

text \<open>A node with a chain without uncles, and an indexer that has seen its first block only.\<close>

definition quiet_node :: node where
  "quiet_node = \<lparr> nd_chain = (\<lambda>n. core_block_new n (ucast n + 1) (ucast n) 0 0 0 0 []), nd_uncle = (\<lambda>_ _. None) \<rparr>"

definition quiet_env :: "bool \<Rightarrow> lru_list block_store indexer_env" where
  "quiet_env running = \<lparr> ie_store = cached_ops sample_store_env, ie_start_from = StartHash, ie_initial_block_hash = 1,
     ie_has_sender = True, ie_fuel = 10, ie_running = (\<lambda>_. running),
     ie_get_block_by_hash = (\<lambda>_ h. Inr (Some (nd_chain quiet_node (ucast (h - 1))))),
     ie_get_block_by_number = (\<lambda>_ n. Inr (Some (nd_chain quiet_node n))), ie_get_uncle = (\<lambda>_ _ _. Inr None),
     ie_get_best_block = (\<lambda>_. Inr (nd_chain quiet_node 2)), ie_subscribe = (\<lambda>_. True), ie_next = (\<lambda>_. Inl ClosedConnection),
     ie_unsubscribe = (\<lambda>_. True), ie_send = (\<lambda>_ _. True) \<rparr>"

definition quiet_start :: "lru_list block_store indexer" where
  "quiet_start = \<lparr> ix_store = \<lparr> st_db = init_db sample_store_env (nd_chain quiet_node 0), st_cache = (2, []), st_calls = 0 \<rparr>, ix_trace = [] \<rparr>"

lemma quiet_chain:
  "cb_number (nd_chain quiet_node n) = n" "cb_hash (nd_chain quiet_node n) = ucast n + 1"
  "cb_parent_hash (nd_chain quiet_node n) = ucast n" "cb_uncles (nd_chain quiet_node n) = []"
  by (simp_all add: quiet_node_def core_block_new_def)

lemma quiet_sel:
  "ie_store (quiet_env r) = cached_ops sample_store_env" "ie_has_sender (quiet_env r)" "ie_initial_block_hash (quiet_env r) = 1"
  "ie_fuel (quiet_env r) = 10" "ie_get_block_by_hash (quiet_env r) t h = Inr (Some (nd_chain quiet_node (ucast (h - 1))))"
  "ie_running (quiet_env r) t = r" "ie_get_uncle (quiet_env r) t h i = Inr (nd_uncle quiet_node h i)"
  "best_is (quiet_env r) (nd_chain quiet_node 2)"
  by (simp_all add: quiet_env_def quiet_node_def best_is_def)

lemma quiet_serves: "serves (quiet_env True) quiet_node tip"
  by (simp add: serves_def quiet_chain quiet_sel) (simp add: quiet_env_def)

lemma quiet_store:
  "coherent sample_store_env lru_content (ix_store quiet_start)"
  "db_view sample_store_env (st_db (ix_store quiet_start)) = \<lparr> sv_best = Some (nd_chain quiet_node 0), sv_checkpoint = None,
     sv_canon = [0 \<mapsto> 1], sv_known = {1} \<rparr>"
proof -
  note ok = init_db_ok [OF sample_env_ok, of "nd_chain quiet_node 0"]
  have "cached_store_new sample_store_env (init_db sample_store_env (nd_chain quiet_node 0)) 2 = Inr (ix_store quiet_start)"
    by (simp add: cached_store_new_def lru_cache_new_def quiet_start_def sample_store_env_def)
  from coherent_new [OF sample_env_ok ok(1) this] show "coherent sample_store_env lru_content (ix_store quiet_start)" by blast
  show "db_view sample_store_env (st_db (ix_store quiet_start)) = \<lparr> sv_best = Some (nd_chain quiet_node 0), sv_checkpoint = None,
     sv_canon = [0 \<mapsto> 1], sv_known = {1} \<rparr>"
    using ok(2) by (simp add: quiet_start_def quiet_chain)
qed

lemma ucast_up_0: "(ucast (n :: u64) :: h256) = 0 \<longleftrightarrow> n = 0"
  by (simp add: word_unat_eq_iff unat_ucast_up)

lemma quiet_connects: "connects (quiet_env r) quiet_node tip [0 \<mapsto> 1] (nd_chain quiet_node 0) 0"
  by (auto simp: connects_def quiet_chain quiet_sel ucast_up_0)

lemma quiet_new: "new_blocks quiet_node 2 [0 \<mapsto> 1] 0 = [nd_chain quiet_node 1, nd_chain quiet_node 2]"
proof -
  have "span 0 2 = [1, 2]" by code_simp
  then show ?thesis by (simp add: new_blocks_def quiet_chain)
qed

theorem backward_sync_connects_witness:
  "\<exists>y. backward_sync (quiet_env True) (nd_chain quiet_node 2) quiet_start = (Inr (), y) \<and>
     sv_best (db_view sample_store_env (st_db (ix_store y))) = Some (nd_chain quiet_node 2) \<and>
     sent (ix_trace y) = map (announcement quiet_node) [nd_chain quiet_node 1, nd_chain quiet_node 2]"
proof -
  obtain r y where run: "backward_sync (quiet_env True) (nd_chain quiet_node 2) quiet_start = (r, y)" by fastforce
  have "connects (quiet_env True) quiet_node 2 (sv_canon (db_view sample_store_env (st_db (ix_store quiet_start)))) (nd_chain quiet_node 0) 0"
    "sv_best (db_view sample_store_env (st_db (ix_store quiet_start))) = Some (nd_chain quiet_node 0)"
    unfolding quiet_store(2) using quiet_connects by simp_all
  from backward_sync_connects [OF quiet_sel(1,2) quiet_serves quiet_store(1) this(2,1) _ run] sample_reliable
  show ?thesis
    unfolding quiet_store(2) using run by (simp add: quiet_sel quiet_new quiet_start_def)
qed

section \<open>Interruption\<close>

lemma canon_below: "prev < (tip :: u64) \<Longrightarrow> m \<le> prev \<Longrightarrow> (canon(tip \<mapsto> h)) m = canon m"
  by auto

lemma connects_above:
  "prev < tip \<Longrightarrow> connects env nd prev (canon(tip \<mapsto> h)) best conn \<longleftrightarrow> connects env nd prev canon best conn"
  unfolding connects_def by (simp add: canon_below del: fun_upd_apply cong: conj_cong imp_cong)

lemma new_blocks_above: "prev < tip \<Longrightarrow> new_blocks nd prev (canon(tip \<mapsto> h)) conn = new_blocks nd prev canon conn"
proof -
  assume "prev < tip"
  then have "(canon(tip \<mapsto> h)) m = canon m" if "m \<in> set (span conn prev)" for m
    using that by (auto simp: span_set)
  then show ?thesis unfolding new_blocks_def by (metis (mono_tags, lifting) filter_cong)
qed

lemma restart_view:
  assumes "cached.at_view senv content canon best out y" and "cached_store_new senv (st_db (ix_store y)) cache_size = Inr s"
  shows "cached.at_view senv content canon best [] \<lparr> ix_store = s, ix_trace = [] \<rparr>" and "st_db s = st_db (ix_store y)"
proof -
  have "env_ok senv content" "db_ok senv (st_db (ix_store y))" using assms(1) by (simp_all add: cached.at_view_def coherent_def)
  from coherent_new [OF this assms(2)] assms(1)
  show "cached.at_view senv content canon best [] \<lparr> ix_store = s, ix_trace = [] \<rparr>" "st_db s = st_db (ix_store y)"
    by (simp_all add: cached.at_view_def)
qed

text \<open>
  C13. Blocks are announced only when a synchronisation completes, but they are saved as canonical at
  once, and a later synchronisation skips what is canonical above the best block. So when one is
  told to stop after it saved the tip, and the indexer is restarted with the same node, the tip
  becomes the best block and is never announced: the restarted indexer announces the blocks below
  the tip only, and the interrupted one announced nothing.
\<close>

theorem interrupted_sync_loses_block:
  fixes nd :: node
  assumes env1: "ie_store env1 = cached_ops senv" "\<And>t. \<not> ie_running env1 t" "\<And>t h i. ie_get_uncle env1 t h i = Inr (nd_uncle nd h i)"
    and env2: "ie_store env2 = cached_ops senv" "ie_has_sender env2" "serves env2 nd tip" "best_is env2 (nd_chain nd tip)"
      "\<And>t. ie_get_block_by_hash env2 t (cb_parent_hash (nd_chain nd tip)) = Inr (Some (nd_chain nd prev))"
    and tip: "prev < tip" "tip - 1 = prev" "cb_hash (nd_chain nd tip) \<noteq> cb_hash (nd_chain nd prev)"
      "cb_hash (nd_chain nd tip) \<noteq> ie_initial_block_hash env2"
    and x: "coherent senv content (ix_store x)" "sv_best (db_view senv (st_db (ix_store x))) = Some best"
      "sv_canon (db_view senv (st_db (ix_store x))) = canon" "canon tip \<noteq> Some (cb_hash (nd_chain nd tip))"
    and conn: "connects env2 nd prev canon best conn" "unat tip - unat conn < ie_fuel env2"
    and interrupted: "backward_sync_loop (Suc n) env1 (nd_chain nd tip) best [] (nd_chain nd tip) x = (Inr (), y)"
    and restarted: "cached_store_new senv (st_db (ix_store y)) cache_size = Inr s" "startup_backward_sync env2 \<lparr> ix_store = s, ix_trace = [] \<rparr> = (Inr (), z)"
  shows "sent (ix_trace y) = sent (ix_trace x) \<and> sv_best (db_view senv (st_db (ix_store z))) = Some (nd_chain nd tip) \<and>
     sent (ix_trace z) = map (announcement nd) (new_blocks nd prev canon conn)"
proof -
  let ?b = "nd_chain nd tip" and ?x = "\<lparr> ix_store = s, ix_trace = [] \<rparr>"
  have number: "cb_number ?b = tip" using env2(3) by (simp add: serves_def)
  let ?c = "canon(tip \<mapsto> cb_hash ?b)"
  have "cached.at_view senv content canon (Some best) (sent (ix_trace x)) x"
    using x by (simp add: cached.at_view_def)
  from cached.wp_interrupted [OF env1(1) this env1(2,3), of ?b n best, unfolded number, OF x(4)] interrupted
  have y: "cached.at_view senv content ?c (Some best) (sent (ix_trace x)) y" "sv_checkpoint (db_view senv (st_db (ix_store y))) = Some ?b"
    by (simp_all add: wp_def)
  have s: "cached.at_view senv content ?c (Some best) [] ?x" "sv_checkpoint (db_view senv (st_db (ix_store ?x))) = Some ?b"
    using restart_view [OF y(1) restarted(1)] y(2) by simp_all
  have "connects env2 nd prev ?c best conn" using connects_above [OF tip(1)] conn(1) by blast
  from cached.wp_startup_after_interruption [OF env2(1,2,3) tip env2(5,4) this conn(2) s] restarted(2)
  have "cached.at_view senv content (follows nd prev ?c conn) (Some ?b) ([] @ map (announcement nd) (new_blocks nd prev ?c conn)) z"
    by (simp add: wp_def)
  with y(1) show ?thesis by (simp add: cached.at_view_def new_blocks_above [OF tip(1)])
qed

lemma reliable_run:
  assumes "wp m Q (cached.failing sample_store_env) x"
  shows "\<exists>y. m x = (Inr (), y) \<and> Q () y"
proof -
  have "\<not> cached.failing sample_store_env e y" for e y unfolding cached.failing_def using sample_reliable by simp
  with assms show ?thesis by (auto simp: wp_def split: prod.splits sum.splits)
qed

theorem interrupted_sync_loses_block_witness:
  "\<exists>y s z. backward_sync_loop 1 (quiet_env False) (nd_chain quiet_node 2) (nd_chain quiet_node 0) [] (nd_chain quiet_node 2) quiet_start = (Inr (), y) \<and>
     cached_store_new sample_store_env (st_db (ix_store y)) 2 = Inr s \<and>
     startup_backward_sync (quiet_env True) \<lparr> ix_store = s, ix_trace = [] \<rparr> = (Inr (), z) \<and>
     sent (ix_trace y) = [] \<and> sv_best (db_view sample_store_env (st_db (ix_store z))) = Some (nd_chain quiet_node 2) \<and>
     sent (ix_trace z) = [announcement quiet_node (nd_chain quiet_node 1)]"
proof -
  let ?b = "nd_chain quiet_node 2" and ?c = "[0 \<mapsto> 1] :: u64 \<Rightarrow> h256 option" and ?best = "nd_chain quiet_node 0"
  have start: "cached.at_view sample_store_env lru_content ?c (Some ?best) [] quiet_start"
    using quiet_store by (simp add: cached.at_view_def quiet_start_def)
  have b: "cb_number ?b = 2" "cb_hash ?b = 3" by (simp_all add: quiet_chain)
  have fresh: "?c (cb_number ?b) \<noteq> Some (cb_hash ?b)" by (simp add: quiet_chain)
  have stop: "\<not> ie_running (quiet_env False) t" for t by (simp add: quiet_sel)
  obtain y where y: "backward_sync_loop (Suc 0) (quiet_env False) ?b ?best [] ?b quiet_start = (Inr (), y)"
      "cached.at_view sample_store_env lru_content (?c(2 \<mapsto> 3)) (Some ?best) [] y" "sv_checkpoint (db_view sample_store_env (st_db (ix_store y))) = Some ?b"
    using reliable_run [OF cached.wp_interrupted [OF quiet_sel(1) start stop quiet_sel(7) fresh, of 0 ?best], unfolded b] by blast
  obtain s where s: "cached_store_new sample_store_env (st_db (ix_store y)) 2 = Inr s" by (simp add: cached_store_new_def lru_cache_new_def)
  let ?x = "\<lparr> ix_store = s, ix_trace = [] \<rparr>"
  have x: "cached.at_view sample_store_env lru_content (?c(2 \<mapsto> 3)) (Some ?best) [] ?x" "sv_checkpoint (db_view sample_store_env (st_db (ix_store ?x))) = Some ?b"
    using restart_view [OF y(2) s] y(3) by simp_all
  have tip: "(1 :: u64) < 2" "(2 :: u64) - 1 = 1" "cb_hash ?b \<noteq> cb_hash (nd_chain quiet_node 1)" "cb_hash ?b \<noteq> ie_initial_block_hash (quiet_env True)"
    by (simp_all add: quiet_chain quiet_sel)
  have parent: "ie_get_block_by_hash (quiet_env True) t (cb_parent_hash ?b) = Inr (Some (nd_chain quiet_node 1))" for t
    by (simp add: quiet_sel quiet_chain)
  have conn: "connects (quiet_env True) quiet_node 1 (?c(2 \<mapsto> 3)) ?best 0" "unat (2 :: u64) - unat (0 :: u64) < ie_fuel (quiet_env True)"
    by (rule connects_above [OF tip(1), THEN iffD2, OF quiet_connects]) (simp add: quiet_sel)
  have "(?c(2 \<mapsto> 3)) 2 = Some (cb_hash ?b)" by (simp add: quiet_chain)
  from reliable_run [OF cached.wp_startup_after_interruption [OF quiet_sel(1,2) quiet_serves tip parent quiet_sel(8) conn x this]]
  obtain z where z: "startup_backward_sync (quiet_env True) ?x = (Inr (), z)" by blast
  have one: "new_blocks quiet_node 1 ?c 0 = [nd_chain quiet_node 1]"
  proof -
    have "span 0 1 = [1]" by code_simp
    then show ?thesis by (simp add: new_blocks_def quiet_chain)
  qed
  have held: "sv_best (db_view sample_store_env (st_db (ix_store quiet_start))) = Some ?best"
    "sv_canon (db_view sample_store_env (st_db (ix_store quiet_start))) = ?c" "?c 2 \<noteq> Some (cb_hash ?b)" "ix_trace quiet_start = []"
    unfolding quiet_store(2) by (simp_all add: quiet_start_def)
  from interrupted_sync_loses_block [OF quiet_sel(1) stop quiet_sel(7) quiet_sel(1,2) quiet_serves quiet_sel(8) parent tip quiet_store(1) held(1-3)
      quiet_connects conn(2) y(1) s z]
  show ?thesis using y(1) s z unfolding one held(4) One_nat_def by auto
qed

section \<open>The view that receives the announcements\<close>

primrec feed :: "block_and_uncles list \<Rightarrow> blockchain_view \<Rightarrow> view_error + blockchain_view" where
  "feed [] v = Inr v"
| "feed (b # bs) v = res_bind (view_update b v) (feed bs)"

lemma parent_found:
  assumes v: "view_ok v" and p: "known p v" and b: "linked p b" and lt: "bu_number p < bu_number b"
  shows "parent_ok b v"
proof (cases "last_opt (map snd (bt_below (bu_number b) (bv_blocks v)))")
  case None
  then show ?thesis by (simp add: parent_ok_def)
next
  case (Some q)
  let ?m = "bt_below (bu_number b) (bv_blocks v)"
  have ok: "blocks_ok ?m" using v blocks_ok_below by (simp add: view_ok_def)
  obtain c where c: "(bu_number p, c) \<in> set (bv_blocks v)" "bu_number c = bu_number p" "bu_hash c = bu_hash p"
    using p v by (force simp: known_def view_ok_def blocks_ok_def)
  have "(bu_number p, c) \<in> set ?m" using c lt by (simp add: bt_below_def)
  then have le: "bu_number p \<le> bu_number q" using tip_above [OF ok Some] by fastforce
  have "q \<in> set (map snd ?m)" using Some last_in_set [of "map snd ?m"] by (auto simp: last_opt_Some)
  then obtain k where k: "(k, q) \<in> set ?m" by auto
  then have q: "bu_number q = k" "k < bu_number b" using ok by (auto simp: blocks_ok_def bt_below_def)
  moreover have "bu_number b = bu_number p + 1" using b by (simp add: linked_def)
  ultimately have "bu_number q = bu_number p"
    using le lt word_less_next [of "bu_number p" "bu_number q"] by (auto simp: word_less_nat_alt word_le_nat_alt word_unat_eq_iff unat_word_ariths(1))
  then have "(bu_number p, q) \<in> set (bv_blocks v)" using k q by (auto simp: bt_below_def)
  then have "q = c" using c(1) v by (metis bt_get_iff blocks_ok_def option.inject view_ok_def)
  with c b Some show ?thesis by (simp add: parent_ok_def linked_def)
qed

definition chained :: "node \<Rightarrow> u64 \<Rightarrow> bool" where
  "chained nd tip \<longleftrightarrow> (\<forall>n. n < tip \<longrightarrow> cb_parent_hash (nd_chain nd (n + 1)) = cb_hash (nd_chain nd n))"

lemma feed_chain:
  assumes "\<And>m. m \<le> tip \<Longrightarrow> cb_number (nd_chain nd m) = m" and "chained nd tip" and "tip \<noteq> - 1"
  shows "n \<le> tip \<Longrightarrow> view_ok v \<Longrightarrow> known (announcement nd (nd_chain nd n)) v \<Longrightarrow>
    \<exists>w. feed (map (\<lambda>m. announcement nd (nd_chain nd m)) (span n tip)) v = Inr w \<and> view_ok w \<and> known (announcement nd (nd_chain nd tip)) w"
proof (induction "unat tip - unat n" arbitrary: n v)
  case 0
  then have "n = tip" by (simp add: word_le_nat_alt word_unat_eq_iff)
  with 0 show ?case by simp
next
  case (Suc k)
  let ?a = "\<lambda>m. announcement nd (nd_chain nd m)"
  have lt: "n < tip" using Suc.hyps(2) Suc.prems(1) by (simp add: word_less_nat_alt)
  have up: "unat (n + 1) = unat n + 1"
    using lt unat_lt [of tip] by (intro unat_plus_if_fits [THEN trans]) (auto simp: word_less_nat_alt)
  then have next_n: "n + 1 \<noteq> 0" "n + 1 \<le> tip" "n < n + 1" "k = unat tip - unat (n + 1)" "n + 1 \<noteq> - 1"
    using lt assms(3) Suc.hyps(2) unat_lt [of tip]
    by (auto simp: word_less_nat_alt word_le_nat_alt word_unat_eq_iff unat_max_word)
  have span: "span n tip = (n + 1) # span (n + 1) tip" using span_step [OF next_n(1,2)] by simp
  have sel: "bu_number (?a m) = m" "bu_hash (?a m) = cb_hash (nd_chain nd m)" "bu_parent (?a m) = cb_parent_hash (nd_chain nd m)" if "m \<le> tip" for m
    using assms(1) that by (simp_all add: announcement_def bu_number_def bu_hash_def bu_parent_def)
  have "linked (?a n) (?a (n + 1))" using sel next_n(2) Suc.prems(1) assms(2) lt by (simp add: linked_def chained_def)
  then have parent: "parent_ok (?a (n + 1)) v" using parent_found [OF Suc.prems(2,3)] sel next_n Suc.prems(1) by simp
  obtain w where w: "view_update (?a (n + 1)) v = Inr w" "view_ok w" "known (?a (n + 1)) w"
  proof (cases "known (?a (n + 1)) v")
    case True
    then show ?thesis using that Suc.prems(2) by (simp add: view_update_eq)
  next
    case False
    then have "view_update (?a (n + 1)) v = Inr (put_block (?a (n + 1)) v)"
      using parent next_n Suc.prems(2) sel by (simp add: view_update_eq)
    moreover have "known (?a (n + 1)) (put_block (?a (n + 1)) v)" by (simp add: known_def put_block_def)
    ultimately show ?thesis using that view_ok_put [OF Suc.prems(2) parent] by blast
  qed
  from Suc.hyps(1) [OF next_n(4,2) w(2,3)] w(1) show ?case by (simp add: span)
qed

lemma new_blocks_clean:
  assumes "connects env nd tip canon best conn" and "\<And>m. cb_number best < m \<Longrightarrow> canon m = None"
  shows "new_blocks nd tip canon conn = map (nd_chain nd) (span conn tip)"
proof -
  have "canon m \<noteq> Some (cb_hash (nd_chain nd m))" if "m \<in> set (span conn tip)" for m
    using assms(1) assms(2) [of m] that by (cases "m \<le> cb_number best") (auto simp: connects_def span_set)
  then show ?thesis by (simp add: new_blocks_def)
qed

text \<open>
  C11. When the store has no canonical block above its best block, the coordinator can follow: a view
  that knows the block at which the synchronisation connects accepts every block that is announced,
  in the order of the announcements, and then knows the tip of the node.
\<close>

theorem synced_blocks_accepted:
  assumes sync: "ie_store env = cached_ops senv" "ie_has_sender env" "serves env nd tip" "coherent senv content (ix_store x)"
      "sv_best (db_view senv (st_db (ix_store x))) = Some best"
      "connects env nd tip (sv_canon (db_view senv (st_db (ix_store x)))) best conn" "unat tip - unat conn < ie_fuel env"
    and run: "backward_sync env (nd_chain nd tip) x = (Inr (), y)"
    and clean: "\<And>m. cb_number best < m \<Longrightarrow> sv_canon (db_view senv (st_db (ix_store x))) m = None"
    and nd: "chained nd tip" "tip \<noteq> - 1" and v: "view_ok v" "known (announcement nd (nd_chain nd conn)) v"
  shows "\<exists>bs w. sent (ix_trace y) = sent (ix_trace x) @ bs \<and> feed bs v = Inr w \<and> view_ok w \<and>
     known (announcement nd (nd_chain nd tip)) w"
proof -
  let ?c = "sv_canon (db_view senv (st_db (ix_store x)))"
  have "cached.at_view senv content ?c (Some best) (sent (ix_trace x)) x" using sync(4,5) by (simp add: cached.at_view_def)
  from cached.wp_backward_sync [OF sync(1,2,3,6,7) this] run
  have "sent (ix_trace y) = sent (ix_trace x) @ map (announcement nd) (new_blocks nd tip ?c conn)"
    by (simp add: wp_def cached.at_view_def)
  also have "map (announcement nd) (new_blocks nd tip ?c conn) = map (\<lambda>m. announcement nd (nd_chain nd m)) (span conn tip)"
    using new_blocks_clean [OF sync(6) clean] by simp
  finally have "sent (ix_trace y) = sent (ix_trace x) @ map (\<lambda>m. announcement nd (nd_chain nd m)) (span conn tip)" .
  moreover have "conn \<le> tip" "\<And>m. m \<le> tip \<Longrightarrow> cb_number (nd_chain nd m) = m" using sync(3,6) by (simp_all add: connects_def serves_def)
  ultimately show ?thesis using feed_chain [OF _ nd] v by blast
qed

theorem synced_blocks_accepted_witness:
  "\<exists>y w. backward_sync (quiet_env True) (nd_chain quiet_node 2) quiet_start = (Inr (), y) \<and>
     feed (sent (ix_trace y)) (put_block (announcement quiet_node (nd_chain quiet_node 0)) view_new) = Inr w \<and>
     known (announcement quiet_node (nd_chain quiet_node 2)) w"
proof -
  let ?v = "put_block (announcement quiet_node (nd_chain quiet_node 0)) view_new"
  have held: "sv_best (db_view sample_store_env (st_db (ix_store quiet_start))) = Some (nd_chain quiet_node 0)"
    "sv_canon (db_view sample_store_env (st_db (ix_store quiet_start))) = [0 \<mapsto> 1]" "ix_trace quiet_start = []"
    unfolding quiet_store(2) by (simp_all add: quiet_start_def)
  have start: "cached.at_view sample_store_env lru_content [0 \<mapsto> 1] (Some (nd_chain quiet_node 0)) [] quiet_start"
    using quiet_store(1) held by (simp add: cached.at_view_def)
  have fuel: "unat (2 :: u64) - unat (0 :: u64) < ie_fuel (quiet_env True)" by (simp add: quiet_sel)
  from reliable_run [OF cached.wp_backward_sync [OF quiet_sel(1,2) quiet_serves quiet_connects fuel start]]
  obtain y where y: "backward_sync (quiet_env True) (nd_chain quiet_node 2) quiet_start = (Inr (), y)" by blast
  have v: "view_ok ?v" "known (announcement quiet_node (nd_chain quiet_node 0)) ?v"
    by (rule view_ok_put [OF view_ok_new]) (simp_all add: parent_ok_def view_new_def known_def put_block_def bt_below_def last_opt_def)
  have "(ucast (n + 1) :: h256) = ucast n + 1" if "n < (2 :: u64)" for n
  proof -
    have "n = 0 \<or> n = 1" using that by (auto simp: word_less_nat_alt word_unat_eq_iff)
    then show ?thesis by auto
  qed
  then have nd: "chained quiet_node 2" "(2 :: u64) \<noteq> - 1" by (simp_all add: chained_def quiet_chain)
  have clean: "sv_canon (db_view sample_store_env (st_db (ix_store quiet_start))) m = None" if "cb_number (nd_chain quiet_node 0) < m" for m
    using that by (auto simp: held quiet_chain)
  from synced_blocks_accepted [OF quiet_sel(1,2) quiet_serves quiet_store(1) held(1) _ fuel y clean nd v, unfolded held, OF quiet_connects]
  show ?thesis using y by auto
qed

end
