(* ===== verification/Spec2Isabelle.thy ===== *)
theory Spec2Isabelle
  imports UB_Prelude Op_Funding Rsk_Header Check_Fork Core_Types Sorted_Map
    Blockchain_View Flow_Monad Rsk_Events Btc_Signature Schedulers
    Bitvmx_Types Gateway_Types Bridge_Verifier Pegin_Flow Pegin_Safety
    Journal Pegin_Guarantees Tx_Sender Coordinator_Base Pegout_Flow Pegout_Safety Pegout_Processor Pegout_Proc_Rules
    Pegout_Proc_Safety Pegout_Timeouts Pegout_Routing Pegout_Runs Pegout_Guarantees
    Block_Store Block_Indexer Indexer_Sync Indexer_Guarantees
begin

text \<open>
  A verification library for the Union Bridge client, a Rust workspace that lets the members of a
  committee run a two-way peg between Bitcoin and Rootstock. All paths below are relative to
  \<^verbatim>\<open>src/\<close>.

  \<^bold>\<open>The program and how its parts interact.\<close> A block indexer (\<^verbatim>\<open>crates/block-indexer\<close>) and a log
  indexer follow a Rootstock node and announce blocks and contract events. The coordinator
  (\<^verbatim>\<open>crates/coordinator\<close>) keeps a view of the chain from the announced blocks, waits until events are
  confirmed in it, and runs one state machine (a flow) for each pegin and pegout. Flows talk to the
  BitVMX client over messages (\<^verbatim>\<open>crates/common/bitvmx\<close>) and call contracts through the transaction
  dispatcher (\<^verbatim>\<open>crates/transaction-dispatcher\<close>), guarded by proofs that the native bridge confirms.
  The amounts members have to provide come from \<^verbatim>\<open>crates/op-funding\<close>; disputes rest on a check of a
  chain fork in a zero-knowledge guest (\<^verbatim>\<open>crates/check-fork\<close>).

  \<^bold>\<open>Conventions.\<close> Integers have the width of the source and arithmetic wraps, saturates or is checked
  as the code has it. A \<^verbatim>\<open>Result\<close> is a sum with the error on the left; a panic is an error value. A
  method on \<^verbatim>\<open>&mut self\<close> maps a state to an outcome and a state, and what was assigned before an
  error stays assigned. Everything outside the repository (node, contracts, BitVMX, stores, clocks,
  hash functions, encoders) is an argument of the definitions. Services may answer as they like,
  depending on all that was done before, which a trace in the state records; libraries have their
  documented laws as hypotheses or as the assumptions of a locale, which is interpreted.

  \<^bold>\<open>Foundations.\<close>
  \<^item> \<open>UB_Prelude\<close>, \<open>Sorted_Map\<close>: integers, results, byte strings and the maps of the Rust library.
  \<^item> \<open>Flow_Monad\<close>: sequencing, early return and loops of stateful methods, rules for preserved
    predicates and a weakest precondition with one postcondition for success and one for errors.
  \<^item> \<open>Journal\<close>: the contract of a flow that records what it does (locale \<open>journal\<close>, interpreted by the
    pegin and the pegout flow).

  \<^bold>\<open>Data.\<close>
  \<^item> \<open>Core_Types\<close> (\<^verbatim>\<open>crates/common/core/src/types.rs\<close>): blocks, logs, identifiers and their readers;
    the laws of the hex crate are the locale \<open>hex_codec\<close>. Hexadecimal texts are read back.
  \<^item> \<open>Bitvmx_Types\<close> (\<^verbatim>\<open>crates/common/bitvmx/src/bitvmx_types.rs\<close>): messages and program ids, which are
    derived from preimages that never coincide for different programs.
  \<^item> \<open>Gateway_Types\<close> (\<^verbatim>\<open>crates/transaction-dispatcher/src/types.rs\<close>, \<^verbatim>\<open>rsk_gateway.rs\<close>): errors and the
    packing of addresses and keys, with round trips.
  \<^item> \<open>Rsk_Events\<close> (\<^verbatim>\<open>crates/coordinator/src/types.rs\<close>): the decoder of contract events.

  \<^bold>\<open>Amounts and forks.\<close>
  \<^item> \<open>Op_Funding\<close> (\<^verbatim>\<open>crates/op-funding/src/lib.rs\<close>): the machine arithmetic equals formulas over
    unbounded numbers, or reports the overflow; the integer square root is the rounded-up one.
  \<^item> \<open>Rsk_Header\<close> (\<^verbatim>\<open>block_header.rs\<close>, \<^verbatim>\<open>rlp.rs\<close> of \<^verbatim>\<open>crates/check-fork/src\<close>): the hash of a block commits to
    its header when Keccak does not collide on the hashed strings; RLP is the locale \<open>rlp_codec\<close>.
  \<^item> \<open>Check_Fork\<close> (\<^verbatim>\<open>crates/check-fork/src/lib.rs\<close> and the guest): the check accepts exactly a declarative
    set of forks, accepted forks are linked by computed hashes, the tip fixes the fork, the journal
    and the pegout id have the stated layout; and an uncle may be counted more than once.

  \<^bold>\<open>Following the chain.\<close>
  \<^item> \<open>Block_Store\<close> (\<^verbatim>\<open>store.rs\<close>, \<^verbatim>\<open>cache.rs\<close> of \<^verbatim>\<open>crates/block-indexer/src\<close>): the contract of the trait
    \<^verbatim>\<open>BlockStore\<close> (locale \<open>block_store_contract\<close>) over an abstract view of plain maps, and that the store
    with its cache meets it, failing databases and evictions included.
  \<^item> \<open>Block_Indexer\<close> (\<^verbatim>\<open>indexer.rs\<close>): start, backward synchronisation, subscription and announcements.
    \<open>Indexer_Sync\<close> proves a synchronisation over the contract; \<open>Indexer_Guarantees\<close> states what holds
    with the cached store: the store follows the node, exactly the new blocks are announced in
    ascending order, the view of the coordinator accepts them, and a block is lost when a
    synchronisation is interrupted.
  \<^item> \<open>Blockchain_View\<close> (\<^verbatim>\<open>crates/coordinator/src/blockchain_tracker.rs\<close>): the view is a contiguous chain
    in every reachable state and refines a list of blocks; confirmations count exactly. Observers of
    blocks are the locale \<open>blockchain_observer\<close>.
  \<^item> \<open>Schedulers\<close> (\<^verbatim>\<open>crates/coordinator/src/types.rs\<close>): retries fire on time and timeouts expire exactly.

  \<^bold>\<open>Contracts.\<close>
  \<^item> \<open>Bridge_Verifier\<close> (\<^verbatim>\<open>native_bridge.rs\<close>, \<^verbatim>\<open>native_bridge_verifier.rs\<close>): a guarded call is made exactly
    when the bridge reports enough confirmations.
  \<^item> \<open>Tx_Sender\<close> (\<^verbatim>\<open>crates/transaction-dispatcher/src/contracts/common.rs\<close>): sending with gas bumps
    returns and never has two transactions under way; polling for a receipt ends.

  \<^bold>\<open>Flows\<close> (\<^verbatim>\<open>crates/coordinator/src/flows\<close>).
  \<^item> \<open>Btc_Signature\<close> (\<^verbatim>\<open>btc_signature\<close>): nonce and signature leave once, in order, for one hash.
  \<^item> \<open>Pegin_Flow\<close> (\<^verbatim>\<open>pegin/pegin_flow.rs\<close>), with invariants of all reachable states in \<open>Pegin_Safety\<close> and
    the properties in \<open>Pegin_Guarantees\<close>: moves, data a step relies on, the order of saves and calls,
    what completes a flow, all with restarts from the store.
  \<^item> \<open>Coordinator_Base\<close>: keys, committees, requests and force flags that the processors share.
  \<^item> \<open>Pegout_Flow\<close> (\<^verbatim>\<open>pegout/pegout_flow.rs\<close>) with \<open>Pegout_Safety\<close>, and \<open>Pegout_Processor\<close>
    (\<^verbatim>\<open>pegout/pegout_processor.rs\<close>), every handler, timer and restart. \<open>Pegout_Proc_Rules\<close> has the locale
    \<open>processor_property\<close>: a predicate closed under the effects of the handlers is kept by all of them.
    It is interpreted in \<open>Pegout_Proc_Safety\<close> for the journals of the flows, in \<open>Pegout_Timeouts\<close> for
    calls of the operator take and in \<open>Pegout_Routing\<close> for the lookup of flows by program.
    \<open>Pegout_Guarantees\<close> states the properties, for every sequence of handler calls with a crash at any
    moment; \<open>Pegout_Runs\<close> has the complete runs at which they are applied.

  \<^bold>\<open>Loops, fuel and bounds.\<close> \<open>ceil_sqrt_loop\<close> has a termination proof. Polling for a receipt is a
  partial function in the option monad, proved to return. \<^verbatim>\<open>start_step\<close> and \<^verbatim>\<open>complete_step\<close> of the
  flows call each other; the model bounds the nesting by two, proved to change nothing for pegins
  and, for both flows, never to be hit. The loops of the block indexer carry the fuel \<open>ie_fuel\<close>: a
  backward synchronisation is proved to succeed with any fuel above the number of blocks between
  the tip and the block it connects to; the loop over the subscription runs as long as the process,
  so there fuel is the number of messages considered. Slot and cache sizes are those of a 64-bit target.

  \<^bold>\<open>Not modelled.\<close> Pure input and output: node access over JSON-RPC, brokers and notifiers, HTTP
  servers, logging, metrics, configuration files, entry points, command line tools, test support.
  Calls of generated contract bindings, whose common sending path is modelled. The log indexer, the
  coordinator's loop and the processor of the pegins: for the parts modelled they decide the order
  in which operations are called, and that order is arbitrary here. The setup of committees and the operator
  take, which run before and after the flows modelled: the flows take a committee as given, and end
  where the operator take is called for. Poisoned locks and the texts of errors and log lines.
\<close>

end
